(* ===== verification/Prelude.thy ===== *)
theory Prelude
  imports Main "HOL-Library.Word" "HOL-Library.Product_Lexorder" "HOL-Library.Signed_Division"
begin

text \<open>
  What every component of the TaskHarbor development shares: the machine integers of the Rust
  code as words, signed database integers as \<open>int\<close> with their ranges, points in time,
  Unicode text, the \<open>?\<close> operator on results, and the list functions the SQL statements are
  translated with (\<open>ORDER BY ... LIMIT 1\<close>, \<open>UPDATE ... WHERE\<close>).
\<close>

text \<open>The definitions to unfold when an operation is evaluated on concrete rows.\<close>

named_theorems evaluate

section \<open>Machine integers\<close>

type_synonym u8 = "8 word"
type_synonym u16 = "16 word"
type_synonym u32 = "32 word"
type_synonym u64 = "64 word"
type_synonym uuid = "128 word"

text \<open>
  The signed integers of the database columns (\<open>SMALLINT\<close>, \<open>INTEGER\<close>, \<open>BIGINT\<close>, read by
  sqlx as \<open>i16\<close>, \<open>i32\<close>, \<open>i64\<close>) are \<open>int\<close>, with their ranges as predicates.
\<close>

definition i16_range :: "int \<Rightarrow> bool" where
  "i16_range v \<longleftrightarrow> - (2 ^ 15) \<le> v \<and> v < 2 ^ 15"

definition i32_range :: "int \<Rightarrow> bool" where
  "i32_range v \<longleftrightarrow> - (2 ^ 31) \<le> v \<and> v < 2 ^ 31"

definition i64_range :: "int \<Rightarrow> bool" where
  "i64_range v \<longleftrightarrow> - (2 ^ 63) \<le> v \<and> v < 2 ^ 63"

text \<open>
  Rust's \<open>try_from\<close> between integer types: \<open>None\<close> where the value does not fit. The
  source value is given as the integer it denotes.
\<close>

definition to_word :: "int \<Rightarrow> 'n::len word option" where
  "to_word v = (if 0 \<le> v \<and> v < 2 ^ LENGTH('n) then Some (word_of_int v) else None)"

definition to_signed :: "(int \<Rightarrow> bool) \<Rightarrow> int \<Rightarrow> int option" where
  "to_signed rng v = (if rng v then Some v else None)"

lemma to_word_Some_iff:
  "to_word v = Some (w :: 'n::len word) \<longleftrightarrow> 0 \<le> v \<and> v < 2 ^ LENGTH('n) \<and> w = word_of_int v"
  by (auto simp: to_word_def)

lemma uint_of_to_word: "to_word v = Some (w :: 'n::len word) \<Longrightarrow> uint w = v"
  by (auto simp: to_word_Some_iff uint_word_of_int take_bit_int_eq_self)

lemma to_word_uint [simp]: "to_word (uint (w :: 'n::len word)) = Some w"
  by (simp add: to_word_def)

lemma to_signed_Some_iff [simp]: "to_signed rng v = Some w \<longleftrightarrow> rng v \<and> w = v"
  by (auto simp: to_signed_def)

lemma to_signed_None_iff [simp]: "to_signed rng v = None \<longleftrightarrow> \<not> rng v"
  by (auto simp: to_signed_def)

section \<open>Results and the question-mark operator\<close>

text \<open>
  A Rust \<open>Result<T, E>\<close> is \<open>'e + 't\<close>: \<open>Inl\<close> the error, \<open>Inr\<close> the value.
  \<open>try_bind m f\<close> is the continuation \<open>f\<close> after \<open>m?\<close>; \<open>ok_or\<close> is
  \<open>Option::ok_or\<close>, \<open>map_err\<close> is \<open>Result::map_err\<close>.
\<close>

fun try_bind :: "'e + 'a \<Rightarrow> ('a \<Rightarrow> 'e + 'b) \<Rightarrow> 'e + 'b" where
  "try_bind (Inl e) f = Inl e"
| "try_bind (Inr x) f = f x"

fun ok_or :: "'e \<Rightarrow> 'a option \<Rightarrow> 'e + 'a" where
  "ok_or e None = Inl e"
| "ok_or e (Some x) = Inr x"

fun map_err :: "('e \<Rightarrow> 'f) \<Rightarrow> 'e + 'a \<Rightarrow> 'f + 'a" where
  "map_err f (Inl e) = Inl (f e)"
| "map_err f (Inr x) = Inr x"

text \<open>\<open>Option::transpose\<close> after a \<open>map\<close>, and \<open>collect\<close> of results into a result.\<close>

fun opt_try :: "('a \<Rightarrow> 'e + 'b) \<Rightarrow> 'a option \<Rightarrow> 'e + 'b option" where
  "opt_try f None = Inr None"
| "opt_try f (Some x) = (case f x of Inl e \<Rightarrow> Inl e | Inr y \<Rightarrow> Inr (Some y))"

fun collect_results :: "('a \<Rightarrow> 'e + 'b) \<Rightarrow> 'a list \<Rightarrow> 'e + 'b list" where
  "collect_results f [] = Inr []"
| "collect_results f (x # xs) =
     try_bind (f x) (\<lambda>y. try_bind (collect_results f xs) (\<lambda>ys. Inr (y # ys)))"

lemma try_bind_Inr_iff: "try_bind m f = Inr y \<longleftrightarrow> (\<exists>x. m = Inr x \<and> f x = Inr y)"
  by (cases m) auto

lemma try_bind_Inl_iff: "try_bind m f = Inl e \<longleftrightarrow> m = Inl e \<or> (\<exists>x. m = Inr x \<and> f x = Inl e)"
  by (cases m) auto

lemma ok_or_Inr_iff [simp]: "ok_or e m = Inr x \<longleftrightarrow> m = Some x"
  by (cases m) auto

lemma ok_or_Inl_iff [simp]: "ok_or e m = Inl e' \<longleftrightarrow> m = None \<and> e' = e"
  by (cases m) auto

lemma map_err_Inr_iff [simp]: "map_err f m = Inr x \<longleftrightarrow> m = Inr x"
  by (cases m) auto

lemma map_err_Inl_iff: "map_err f m = Inl e \<longleftrightarrow> (\<exists>e'. m = Inl e' \<and> e = f e')"
  by (cases m) auto

lemma opt_try_Inr_iff:
  "opt_try f m = Inr r \<longleftrightarrow> (m = None \<and> r = None) \<or> (\<exists>x y. m = Some x \<and> f x = Inr y \<and> r = Some y)"
  by (cases m) (auto split: sum.splits)

lemma collect_results_Inr_iff:
  "collect_results f xs = Inr ys \<longleftrightarrow> list_all2 (\<lambda>x y. f x = Inr y) xs ys"
  by (induction xs arbitrary: ys) (auto simp: try_bind_Inr_iff list_all2_Cons1)

lemma collect_results_length: "collect_results f xs = Inr ys \<Longrightarrow> length ys = length xs"
  by (simp add: collect_results_Inr_iff list_all2_lengthD)

lemma collect_results_total:
  "(\<And>x. x \<in> set xs \<Longrightarrow> \<exists>y. f x = Inr y) \<Longrightarrow> \<exists>ys. collect_results f xs = Inr ys"
  by (induction xs) (auto simp: try_bind_Inr_iff)

text \<open>
  A condition on a nullable value that holds when the value is absent: SQL's treatment of a comparison
  with \<open>NULL\<close> in a \<open>CHECK\<close>, and \<open>$n IS NULL OR ...\<close> in a query.
\<close>

fun null_or :: "('a \<Rightarrow> bool) \<Rightarrow> 'a option \<Rightarrow> bool" where
  "null_or P None = True"
| "null_or P (Some x) = P x"

section \<open>Time\<close>

text \<open>
  A point in time (\<open>OffsetDateTime\<close>, \<open>TIMESTAMPTZ\<close>) is the number of nanoseconds since the
  Unix epoch; the difference of two is a signed number of nanoseconds, which Rust's
  \<open>whole_seconds\<close> and \<open>whole_milliseconds\<close> truncate towards zero.
\<close>

type_synonym timestamp = int

definition seconds :: "int \<Rightarrow> int" where
  "seconds n = n * 1000000000"

definition whole_seconds :: "int \<Rightarrow> int" where
  "whole_seconds d = d sdiv 1000000000"

definition whole_milliseconds :: "int \<Rightarrow> int" where
  "whole_milliseconds d = d sdiv 1000000"

lemma sdiv_nonneg_eq_div: "0 \<le> (a::int) \<Longrightarrow> 0 < b \<Longrightarrow> a sdiv b = a div b"
  by (cases "a = 0") (auto simp: signed_divide_int_def sgn_if)

lemma whole_seconds_nonneg: "0 \<le> d \<Longrightarrow> whole_seconds d = d div 1000000000"
  by (simp add: whole_seconds_def sdiv_nonneg_eq_div)

lemma whole_milliseconds_nonneg: "0 \<le> d \<Longrightarrow> whole_milliseconds d = d div 1000000"
  by (simp add: whole_milliseconds_def sdiv_nonneg_eq_div)

text \<open>
  \<open>OffsetDateTime::checked_add\<close> fails outside the range of years the \<open>time\<close> crate
  represents. That range is a parameter \<open>rng\<close> of the operations that use it.
\<close>

definition checked_add :: "(timestamp \<Rightarrow> bool) \<Rightarrow> timestamp \<Rightarrow> int \<Rightarrow> timestamp option" where
  "checked_add rng t d = (if rng (t + d) then Some (t + d) else None)"

lemma checked_add_Some_iff: "checked_add rng t d = Some r \<longleftrightarrow> rng (t + d) \<and> r = t + d"
  by (auto simp: checked_add_def)

text \<open>
  A \<open>std::time::Duration\<close> is never negative: its nanoseconds as a natural number.
\<close>

type_synonym duration = nat

definition as_secs :: "duration \<Rightarrow> int" where
  "as_secs d = int (d div 1000000000)"

definition as_millis :: "duration \<Rightarrow> int" where
  "as_millis d = int (d div 1000000)"

definition subsec_nanos :: "duration \<Rightarrow> nat" where
  "subsec_nanos d = d mod 1000000000"

definition from_secs :: "nat \<Rightarrow> duration" where
  "from_secs n = n * 1000000000"

definition from_millis :: "nat \<Rightarrow> duration" where
  "from_millis n = n * 1000000"

lemma as_millis_nonneg [simp]: "0 \<le> as_millis d"
  by (simp add: as_millis_def)

lemma as_secs_nonneg [simp]: "0 \<le> as_secs d"
  by (simp add: as_secs_def)

section \<open>Text\<close>

text \<open>
  A Rust \<open>String\<close> or a \<open>TEXT\<close> column is the list of its Unicode scalar values; \<open>lit\<close>
  turns an ASCII literal of the source into one. \<open>chars().count()\<close> is the length of the list,
  \<open>len()\<close> the length of its UTF-8 encoding.
\<close>

type_synonym ustring = "nat list"

definition lit :: "string \<Rightarrow> ustring" where
  "lit s = List.map of_char s"

definition utf8_width :: "nat \<Rightarrow> nat" where
  "utf8_width c = (if c < 128 then 1 else if c < 2048 then 2 else if c < 65536 then 3 else 4)"

definition byte_len :: "ustring \<Rightarrow> nat" where
  "byte_len s = sum_list (List.map utf8_width s)"

text \<open>\<open>char::is_whitespace\<close>: the code points with the Unicode property White_Space.\<close>

definition is_whitespace :: "nat \<Rightarrow> bool" where
  "is_whitespace c \<longleftrightarrow>
     9 \<le> c \<and> c \<le> 13 \<or> c = 32 \<or> c = 133 \<or> c = 160 \<or> c = 5760 \<or> 8192 \<le> c \<and> c \<le> 8202 \<or>
     c = 8232 \<or> c = 8233 \<or> c = 8239 \<or> c = 8287 \<or> c = 12288"

text \<open>\<open>str::trim\<close> removes whitespace, the database's \<open>btrim\<close> only spaces.\<close>

definition strip :: "(nat \<Rightarrow> bool) \<Rightarrow> ustring \<Rightarrow> ustring" where
  "strip P s = rev (dropWhile P (rev (dropWhile P s)))"

definition trim :: "ustring \<Rightarrow> ustring" where
  "trim s = strip is_whitespace s"

definition btrim :: "ustring \<Rightarrow> ustring" where
  "btrim s = strip (\<lambda>c. c = 32) s"

definition is_ascii_lowercase :: "nat \<Rightarrow> bool" where
  "is_ascii_lowercase c \<longleftrightarrow> 97 \<le> c \<and> c \<le> 122"

definition is_ascii_uppercase :: "nat \<Rightarrow> bool" where
  "is_ascii_uppercase c \<longleftrightarrow> 65 \<le> c \<and> c \<le> 90"

definition is_ascii_digit :: "nat \<Rightarrow> bool" where
  "is_ascii_digit c \<longleftrightarrow> 48 \<le> c \<and> c \<le> 57"

definition to_ascii_lowercase :: "ustring \<Rightarrow> ustring" where
  "to_ascii_lowercase s = List.map (\<lambda>c. if is_ascii_uppercase c then c + 32 else c) s"

lemma lit_inj [simp]: "lit s = lit t \<longleftrightarrow> s = t"
  by (simp add: lit_def inj_map_eq_map inj_def)

lemma strip_Nil_iff: "strip P s = [] \<longleftrightarrow> (\<forall>c \<in> set s. P c)"
  unfolding strip_def by (simp, metis set_rev set_dropWhileD dropWhile_eq_Nil_conv hd_dropWhile hd_in_set rev.simps(1) set_rev)

lemma length_strip_le: "length (strip P s) \<le> length s"
  unfolding strip_def
  by (metis length_dropWhile_le length_rev order_trans)

text \<open>A predicate with fewer characters strips less: spaces are whitespace.\<close>

lemma btrim_Nil_imp_trim_Nil: "btrim s = [] \<Longrightarrow> trim s = []"
  by (auto simp: btrim_def trim_def strip_Nil_iff is_whitespace_def)

text \<open>Decimal output (\<open>Display\<close> of the integer types) and \<open>str::parse\<close> for unsigned ones.\<close>

fun show_nat :: "nat \<Rightarrow> string" where
  "show_nat n = (if n < 10 then [char_of (48 + n)] else show_nat (n div 10) @ [char_of (48 + n mod 10)])"

declare show_nat.simps [simp del]

fun parse_digits :: "nat \<Rightarrow> ustring \<Rightarrow> nat option" where
  "parse_digits acc [] = Some acc"
| "parse_digits acc (c # cs) =
     (if is_ascii_digit c then parse_digits (acc * 10 + (c - 48)) cs else None)"

text \<open>
  \<open>str::parse\<close> for an unsigned type of \<open>n\<close> bits: an optional plus sign, then at least one
  digit, and the value within range.
\<close>

definition parse_unsigned :: "nat \<Rightarrow> ustring \<Rightarrow> nat option" where
  "parse_unsigned n s =
     (let ds = (case s of c # cs \<Rightarrow> if c = 43 then cs else s | [] \<Rightarrow> [])
      in if ds = [] then None
         else case parse_digits 0 ds of
                None \<Rightarrow> None
              | Some v \<Rightarrow> if v < 2 ^ n then Some v else None)"

lemma parse_digits_append:
  "parse_digits acc (xs @ ys) = (case parse_digits acc xs of None \<Rightarrow> None | Some v \<Rightarrow> parse_digits v ys)"
  by (induction xs arbitrary: acc) auto

lemma of_char_digit: "d < 10 \<Longrightarrow> of_char (char_of (48 + d) :: char) = (48 + d :: nat)"
  by (simp add: take_bit_eq_mod)

lemma show_nat_digits: "\<forall>c \<in> set (show_nat n). is_ascii_digit (of_char c)"
proof (induction n rule: show_nat.induct)
  case (1 n)
  have "n mod 10 < 10" by simp
  with "1" show ?case
    by (subst show_nat.simps) (auto simp: of_char_digit is_ascii_digit_def)
qed

lemma show_nat_not_Nil [simp]: "show_nat n \<noteq> []"
  by (subst show_nat.simps) simp

lemma parse_digits_show_nat: "parse_digits 0 (lit (show_nat n)) = Some n"
proof (induction n rule: show_nat.induct)
  case (1 n)
  have m: "n mod 10 < 10" by simp
  show ?case
  proof (cases "n < 10")
    case True
    then show ?thesis
      by (subst show_nat.simps) (simp add: lit_def of_char_digit is_ascii_digit_def)
  next
    case False
    with "1" have IH: "parse_digits 0 (lit (show_nat (n div 10))) = Some (n div 10)" by simp
    from False show ?thesis
      by (subst show_nat.simps)
        (use IH m in \<open>simp add: lit_def parse_digits_append of_char_digit is_ascii_digit_def\<close>)
  qed
qed

lemma parse_unsigned_show_nat:
  assumes "n < 2 ^ b"
  shows "parse_unsigned b (lit (show_nat n)) = Some n"
proof -
  obtain c cs where s: "show_nat n = c # cs" by (cases "show_nat n") auto
  with show_nat_digits [of n] have "of_char c \<noteq> (43::nat)" by (auto simp: is_ascii_digit_def)
  then have "parse_unsigned b (lit (show_nat n)) =
      (case parse_digits 0 (lit (show_nat n)) of
         None \<Rightarrow> None | Some v \<Rightarrow> if v < 2 ^ b then Some v else None)"
    by (simp add: parse_unsigned_def s lit_def)
  with assms show ?thesis by (simp add: parse_digits_show_nat)
qed

section \<open>Rows\<close>

text \<open>
  \<open>ORDER BY key LIMIT 1\<close>: the first row with the least key. Keys are tuples, compared
  lexicographically.
\<close>

fun first_by :: "('r \<Rightarrow> 'k::linorder) \<Rightarrow> 'r list \<Rightarrow> 'r option" where
  "first_by key [] = None"
| "first_by key (r # rs) =
     (case first_by key rs of
        None \<Rightarrow> Some r
      | Some q \<Rightarrow> if key q < key r then Some q else Some r)"

lemma first_by_None_iff [simp]: "first_by key rs = None \<longleftrightarrow> rs = []"
  by (cases rs) (auto split: option.splits)

lemma first_by_Some_mem: "first_by key rs = Some r \<Longrightarrow> r \<in> set rs"
  by (induction rs arbitrary: r) (auto split: option.splits if_splits)

lemma first_by_least: "first_by key rs = Some r \<Longrightarrow> q \<in> set rs \<Longrightarrow> key r \<le> key q"
proof (induction rs arbitrary: r q)
  case Nil
  then show ?case by simp
next
  case (Cons x xs)
  show ?case
  proof (cases "first_by key xs")
    case None
    with Cons.prems show ?thesis by auto
  next
    case (Some y)
    with Cons show ?thesis by (force split: if_splits)
  qed
qed

text \<open>\<open>UPDATE ... SET f WHERE P\<close> on the rows of a table.\<close>

definition update_where :: "('r \<Rightarrow> bool) \<Rightarrow> ('r \<Rightarrow> 'r) \<Rightarrow> 'r list \<Rightarrow> 'r list" where
  "update_where P f rs = List.map (\<lambda>r. if P r then f r else r) rs"

lemma set_update_where: "set (update_where P f rs) = (\<lambda>r. if P r then f r else r) ` set rs"
  by (simp add: update_where_def)

lemma length_update_where [simp]: "length (update_where P f rs) = length rs"
  by (simp add: update_where_def)

lemma update_where_none: "\<forall>r \<in> set rs. \<not> P r \<Longrightarrow> update_where P f rs = rs"
  by (simp add: update_where_def map_idI)

lemma update_where_key:
  "(\<And>r. P r \<Longrightarrow> k (f r) = k r) \<Longrightarrow> List.map k (update_where P f rs) = List.map k rs"
  by (simp add: update_where_def)

text \<open>A table with a primary key: at most one row has a given key.\<close>

definition keyed :: "('r \<Rightarrow> 'k) \<Rightarrow> 'r list \<Rightarrow> bool" where
  "keyed k rs \<longleftrightarrow> distinct (List.map k rs)"

lemma keyed_unique: "keyed k rs \<Longrightarrow> r \<in> set rs \<Longrightarrow> q \<in> set rs \<Longrightarrow> k r = k q \<Longrightarrow> r = q"
  by (auto simp: keyed_def distinct_map inj_on_def)

lemma keyed_Nil [simp]: "keyed k []"
  by (simp add: keyed_def)

lemma keyed_append1: "keyed k (rs @ [r]) \<longleftrightarrow> keyed k rs \<and> (\<forall>q \<in> set rs. k q \<noteq> k r)"
  unfolding keyed_def by (simp, metis image_iff)

lemma keyed_update_where:
  "(\<And>r. P r \<Longrightarrow> k (f r) = k r) \<Longrightarrow> keyed k (update_where P f rs) = keyed k rs"
  unfolding keyed_def by (simp add: update_where_key)

lemma keyed_filter: "keyed k rs \<Longrightarrow> keyed k (filter P rs)"
  by (simp add: keyed_def distinct_map_filter)

text \<open>A condition that fixes the key hits at most one row; if it hits \<open>r\<close>, exactly that one.\<close>

lemma filter_keyed_hit:
  assumes "keyed k rs" and "\<And>q. P q \<Longrightarrow> k q = x" and "r \<in> set rs" and "P r"
  shows "filter P rs = [r]"
  using assms
proof (induction rs)
  case Nil
  then show ?case by simp
next
  case (Cons a rs)
  then have fresh: "\<And>q. q \<in> set rs \<Longrightarrow> k q \<noteq> k a"
    unfolding keyed_def by (simp, metis image_eqI)
  show ?case
  proof (cases "a = r")
    case True
    with Cons.prems fresh have "filter P rs = []" by (metis filter_False)
    with True Cons.prems(4) show ?thesis by simp
  next
    case False
    with Cons.prems have mem: "r \<in> set rs" by simp
    with Cons.prems fresh have "\<not> P a" by metis
    with Cons mem show ?thesis by (simp add: keyed_def)
  qed
qed

lemma filter_keyed_cases:
  assumes "keyed k rs" and "\<And>q. P q \<Longrightarrow> k q = x"
  obtains "filter P rs = []" | r where "r \<in> set rs" and "P r" and "filter P rs = [r]"
  using filter_keyed_hit [OF assms]
  by (metis (mono_tags, lifting) filter_empty_conv)

end
