(* ===== verification/Domain.thy ===== *)
theory Domain
  imports Prelude
begin

text \<open>
  The core crate (\<open>crates/core/src/job.rs\<close>, \<open>schedule.rs\<close>): identifiers, the validated job name, the
  enumerations with their persisted spelling, and the \<open>Job\<close> value. Two interfaces are stated as
  locales: a textual codec of an enumeration, and a positive identifier that fits a
  \<open>BIGINT\<close>; every type of the crate interprets one of them.
\<close>

section \<open>Interfaces\<close>

text \<open>
  An enumeration with \<open>as_str\<close> and \<open>FromStr\<close>: printing and parsing are inverse to each
  other, so parsing accepts exactly the printed spellings.
\<close>

locale text_codec =
  fixes as_str :: "'a \<Rightarrow> ustring" and from_str :: "ustring \<Rightarrow> 'e + 'a"
  assumes parse_print: "from_str (as_str x) = Inr x"
    and print_parse: "from_str s = Inr x \<Longrightarrow> as_str x = s"
begin

lemma as_str_inj: "as_str x = as_str y \<longleftrightarrow> x = y"
  by (metis parse_print sum.inject(2))

lemma parses_iff: "from_str s = Inr x \<longleftrightarrow> s = as_str x"
  using parse_print print_parse by blast

lemma rejects_iff: "(\<exists>e. from_str s = Inl e) \<longleftrightarrow> s \<notin> range as_str"
proof (cases "from_str s")
  case (Inl e)
  then show ?thesis using parse_print by force
next
  case (Inr x)
  then have "s = as_str x" by (simp add: parses_iff)
  with Inr show ?thesis by auto
qed

end

text \<open>
  A positive identifier within the signed 64-bit range, built from and read back as a
  \<open>u64\<close>.
\<close>

locale positive_id =
  fixes mk :: "u64 \<Rightarrow> 'e + 'i" and get :: "'i \<Rightarrow> u64"
  assumes mk_ok_iff: "(\<exists>i. mk v = Inr i) \<longleftrightarrow> 0 < uint v \<and> uint v < 2 ^ 63"
    and get_mk: "mk v = Inr i \<Longrightarrow> get i = v"
    and mk_get: "mk v = Inr i \<Longrightarrow> mk (get i) = Inr i"
begin

lemma get_range: "mk v = Inr i \<Longrightarrow> 0 < uint (get i) \<and> uint (get i) < 2 ^ 63"
  using mk_ok_iff get_mk by metis

lemma mk_inj: "mk v = Inr i \<Longrightarrow> mk w = Inr i \<Longrightarrow> v = w"
  using get_mk by metis

lemma get_inj: "mk v = Inr i \<Longrightarrow> mk w = Inr j \<Longrightarrow> get i = get j \<longleftrightarrow> i = j"
  using get_mk mk_get by (metis sum.inject(2))

end

section \<open>Job identifiers\<close>

datatype job_id = JobId u64

datatype job_id_error = JobIdError

definition i64_max_as_u64 :: u64 where
  "i64_max_as_u64 = 9223372036854775807"

definition job_id_new :: "u64 \<Rightarrow> job_id_error + job_id" where
  "job_id_new value =
     (if value = 0 \<or> value > i64_max_as_u64 then Inl JobIdError else Inr (JobId value))"

fun job_id_get :: "job_id \<Rightarrow> u64" where
  "job_id_get (JobId value) = value"

definition job_id_from_str :: "ustring \<Rightarrow> job_id_error + job_id" where
  "job_id_from_str value =
     (case parse_unsigned 64 value of
        None \<Rightarrow> Inl JobIdError
      | Some v \<Rightarrow> job_id_new (of_nat v))"

definition job_id_error_display :: string where
  "job_id_error_display = ''job ID must be a positive signed 64-bit integer''"

section \<open>Schedule identifiers\<close>

datatype schedule_id = ScheduleId u64

datatype schedule_id_error = ScheduleIdError

definition schedule_id_new :: "u64 \<Rightarrow> schedule_id_error + schedule_id" where
  "schedule_id_new value =
     (if value = 0 \<or> value > i64_max_as_u64 then Inl ScheduleIdError
      else Inr (ScheduleId value))"

fun schedule_id_get :: "schedule_id \<Rightarrow> u64" where
  "schedule_id_get (ScheduleId value) = value"

definition schedule_id_from_str :: "ustring \<Rightarrow> schedule_id_error + schedule_id" where
  "schedule_id_from_str value =
     (case parse_unsigned 64 value of
        None \<Rightarrow> Inl ScheduleIdError
      | Some v \<Rightarrow> schedule_id_new (of_nat v))"

definition schedule_id_error_display :: string where
  "schedule_id_error_display = ''schedule ID must be a positive signed 64-bit integer''"

lemma i64_max_le_iff: "w > i64_max_as_u64 \<longleftrightarrow> \<not> uint w < 2 ^ 63"
  by (auto simp: i64_max_as_u64_def word_less_def)

lemma word_zero_iff: "(w :: u64) = 0 \<longleftrightarrow> \<not> 0 < uint w"
  using uint_ge_0 [of w] by (auto simp: word_uint_eq_iff less_le)

interpretation job_ids: positive_id job_id_new job_id_get
  by unfold_locales
    (auto simp: job_id_new_def i64_max_le_iff word_zero_iff split: if_splits)

interpretation schedule_ids: positive_id schedule_id_new schedule_id_get
  by unfold_locales
    (auto simp: schedule_id_new_def i64_max_le_iff word_zero_iff split: if_splits)

section \<open>Job names\<close>

definition max_job_name_length :: nat where
  "max_job_name_length = 100"

datatype job_name = JobName ustring

datatype job_name_error = EmptyName | TooLong nat nat

definition job_name_new :: "ustring \<Rightarrow> job_name_error + job_name" where
  "job_name_new value =
     (if trim value = [] then Inl EmptyName
      else let actual = length value in
        if actual > max_job_name_length then Inl (TooLong max_job_name_length actual)
        else Inr (JobName value))"

fun job_name_as_str :: "job_name \<Rightarrow> ustring" where
  "job_name_as_str (JobName value) = value"

fun job_name_error_display :: "job_name_error \<Rightarrow> string" where
  "job_name_error_display EmptyName =
     ''job name must contain at least one non-whitespace character''"
| "job_name_error_display (TooLong mx actual) =
     ''job name must contain at most '' @ show_nat mx @ '' characters, but received '' @ show_nat actual"

lemma job_name_new_Inr_iff:
  "job_name_new s = Inr n \<longleftrightarrow>
     n = JobName s \<and> (\<exists>c \<in> set s. \<not> is_whitespace c) \<and> length s \<le> max_job_name_length"
  by (auto simp: job_name_new_def trim_def strip_Nil_iff Let_def)

section \<open>Enumerations\<close>

datatype job_status =
  Queued | Running | RetryWaiting | CancelRequested | Succeeded | Failed | Cancelled

datatype job_type = DemoDelay | ImageResize

datatype job_priority = High | Normal | Low

datatype job_status_parse_error = JobStatusParseError
datatype job_type_parse_error = JobTypeParseError
datatype job_priority_parse_error = JobPriorityParseError

definition job_priority_default :: job_priority where
  "job_priority_default = Normal"

fun job_priority_as_str :: "job_priority \<Rightarrow> ustring" where
  "job_priority_as_str High = lit ''high''"
| "job_priority_as_str Normal = lit ''normal''"
| "job_priority_as_str Low = lit ''low''"

definition job_priority_from_str :: "ustring \<Rightarrow> job_priority_parse_error + job_priority" where
  "job_priority_from_str value =
     (if value = lit ''high'' then Inr High
      else if value = lit ''normal'' then Inr Normal
      else if value = lit ''low'' then Inr Low
      else Inl JobPriorityParseError)"

fun job_type_as_str :: "job_type \<Rightarrow> ustring" where
  "job_type_as_str DemoDelay = lit ''demo_delay''"
| "job_type_as_str ImageResize = lit ''image_resize''"

definition job_type_from_str :: "ustring \<Rightarrow> job_type_parse_error + job_type" where
  "job_type_from_str value =
     (if value = lit ''demo_delay'' then Inr DemoDelay
      else if value = lit ''image_resize'' then Inr ImageResize
      else Inl JobTypeParseError)"

fun job_status_as_str :: "job_status \<Rightarrow> ustring" where
  "job_status_as_str Queued = lit ''queued''"
| "job_status_as_str Running = lit ''running''"
| "job_status_as_str RetryWaiting = lit ''retry_waiting''"
| "job_status_as_str CancelRequested = lit ''cancel_requested''"
| "job_status_as_str Succeeded = lit ''succeeded''"
| "job_status_as_str Failed = lit ''failed''"
| "job_status_as_str Cancelled = lit ''cancelled''"

definition job_status_from_str :: "ustring \<Rightarrow> job_status_parse_error + job_status" where
  "job_status_from_str value =
     (if value = lit ''queued'' then Inr Queued
      else if value = lit ''running'' then Inr Running
      else if value = lit ''retry_waiting'' then Inr RetryWaiting
      else if value = lit ''cancel_requested'' then Inr CancelRequested
      else if value = lit ''succeeded'' then Inr Succeeded
      else if value = lit ''failed'' then Inr Failed
      else if value = lit ''cancelled'' then Inr Cancelled
      else Inl JobStatusParseError)"

definition job_priority_error_display :: string where
  "job_priority_error_display = ''job priority is not recognized''"

definition job_type_error_display :: string where
  "job_type_error_display = ''job type is not recognized''"

definition job_status_error_display :: string where
  "job_status_error_display = ''job status is not recognized''"

interpretation priority_codec: text_codec job_priority_as_str job_priority_from_str
proof
  show "job_priority_from_str (job_priority_as_str x) = Inr x" for x
    by (cases x) (simp_all add: job_priority_from_str_def)
  show "job_priority_from_str s = Inr x \<Longrightarrow> job_priority_as_str x = s" for s x
    by (auto simp: job_priority_from_str_def split: if_splits)
qed

interpretation type_codec: text_codec job_type_as_str job_type_from_str
proof
  show "job_type_from_str (job_type_as_str x) = Inr x" for x
    by (cases x) (simp_all add: job_type_from_str_def)
  show "job_type_from_str s = Inr x \<Longrightarrow> job_type_as_str x = s" for s x
    by (auto simp: job_type_from_str_def split: if_splits)
qed

interpretation status_codec: text_codec job_status_as_str job_status_from_str
proof
  show "job_status_from_str (job_status_as_str x) = Inr x" for x
    by (cases x) (simp_all add: job_status_from_str_def)
  show "job_status_from_str s = Inr x \<Longrightarrow> job_status_as_str x = s" for s x
    by (auto simp: job_status_from_str_def split: if_splits)
qed

text \<open>
  The claim order \<open>CASE priority WHEN 'high' THEN 0 WHEN 'normal' THEN 1 ELSE 2 END\<close> as a
  linear order of the priorities, so that claim keys compare lexicographically.
\<close>

fun priority_rank :: "job_priority \<Rightarrow> nat" where
  "priority_rank High = 0"
| "priority_rank Normal = 1"
| "priority_rank Low = 2"

lemma priority_rank_inj: "priority_rank p = priority_rank q \<longleftrightarrow> p = q"
  by (cases p; cases q) auto

instantiation job_priority :: linorder
begin

definition less_eq_job_priority :: "job_priority \<Rightarrow> job_priority \<Rightarrow> bool" where
  "less_eq_job_priority p q \<longleftrightarrow> priority_rank p \<le> priority_rank q"

definition less_job_priority :: "job_priority \<Rightarrow> job_priority \<Rightarrow> bool" where
  "less_job_priority p q \<longleftrightarrow> priority_rank p < priority_rank q"

instance
  by standard
    (auto simp: less_eq_job_priority_def less_job_priority_def priority_rank_inj)

end

section \<open>Job states\<close>

text \<open>
  The groups of states the SQL statements name with \<open>state IN (...)\<close>.
\<close>

definition claimable_states :: "job_status set" where
  "claimable_states = {Queued, RetryWaiting}"

definition held_states :: "job_status set" where
  "held_states = {Running, CancelRequested}"

definition active_states :: "job_status set" where
  "active_states = {Queued, Running, RetryWaiting, CancelRequested}"

definition terminal_states :: "job_status set" where
  "terminal_states = {Succeeded, Failed, Cancelled}"

lemmas state_groups =
  claimable_states_def held_states_def active_states_def terminal_states_def

lemma terminal_iff_not_active: "s \<in> terminal_states \<longleftrightarrow> s \<notin> active_states"
  by (cases s) (auto simp: state_groups)

lemma active_split: "active_states = claimable_states \<union> held_states"
  by (auto simp: state_groups)

section \<open>The job value\<close>

record job =
  jb_id :: job_id
  jb_name :: job_name
  jb_type :: job_type
  jb_status :: job_status

definition job_new_queued :: "job_id \<Rightarrow> job_name \<Rightarrow> job_type \<Rightarrow> job" where
  "job_new_queued i n t = \<lparr>jb_id = i, jb_name = n, jb_type = t, jb_status = Queued\<rparr>"

definition job_restore :: "job_id \<Rightarrow> job_name \<Rightarrow> job_type \<Rightarrow> job_status \<Rightarrow> job" where
  "job_restore i n t s = \<lparr>jb_id = i, jb_name = n, jb_type = t, jb_status = s\<rparr>"

end
