(* ===== verification/Database.thy ===== *)
theory Database
  imports Domain
begin

text \<open>
  The PostgreSQL schema (\<open>migrations/*.sql\<close>, after the last migration) as row records and
  the constraints on them, \<open>RepositoryError\<close>, and the SQL statement forms the repositories use.
  A table is the list of its rows. Columns restricted by a \<open>CHECK (c IN (...))\<close> to a fixed set of
  spellings have the enumeration as their type; other text columns are Unicode text. A
  repository operation is a function from the database to a result and the database after it;
  \<open>transaction\<close> restores every table when its body fails, but not the identity sequences,
  which PostgreSQL does not roll back. Every statement checks the constraints of the rows it writes.
\<close>

section \<open>Errors\<close>

datatype database_error =
  RowRejected | UniqueViolation | ForeignKeyViolation | RowNotFound | ColumnDecode

datatype repository_error =
  Database database_error
| Migration
| InvalidData string
| StateConflict string
| IdempotencyConflict
| ClaimLost

section \<open>Rows\<close>

datatype attempt_status = ARunning | ASucceeded | AFailed | ACancelled

datatype artifact_kind = Input | Output

datatype schedule_occurrence_outcome = Created | SkippedOverlap

record job_row =
  j_id :: int
  j_name :: ustring
  j_type :: job_type
  j_state :: job_status
  j_available_at :: timestamp
  j_progress_completed :: int
  j_progress_total :: int
  j_delay_ms :: int
  j_max_width :: "int option"
  j_jpeg_quality :: "int option"
  j_result_message :: "ustring option"
  j_result_duration_ms :: "int option"
  j_failure_message :: "ustring option"
  j_max_attempts :: int
  j_retry_of :: "int option"
  j_cancel_requested_at :: "timestamp option"
  j_priority :: job_priority
  j_schedule_id :: "int option"
  j_scheduled_for :: "timestamp option"
  j_owner :: int
  j_idempotency_key :: "ustring option"
  j_fingerprint :: "u8 list option"
  j_outputs_expired_at :: "timestamp option"
  j_created_at :: timestamp
  j_started_at :: "timestamp option"
  j_finished_at :: "timestamp option"

record attempt_row =
  a_id :: int
  a_job :: int
  a_number :: int
  a_state :: attempt_status
  a_progress_completed :: int
  a_progress_total :: int
  a_started_at :: timestamp
  a_finished_at :: "timestamp option"
  a_duration_ms :: "int option"
  a_queue_wait_ms :: int
  a_encoding_duration_ms :: int
  a_error_kind :: "ustring option"
  a_error_message :: "ustring option"
  a_worker :: "uuid option"
  a_token :: "uuid option"
  a_lease_expires_at :: "timestamp option"

record artifact_row =
  f_id :: int
  f_job :: int
  f_attempt :: "int option"
  f_source :: "int option"
  f_kind :: artifact_kind
  f_item_index :: int
  f_storage_key :: ustring
  f_display_name :: ustring
  f_media_type :: ustring
  f_byte_size :: int
  f_width :: int
  f_height :: int
  f_created_at :: timestamp
  f_checksum :: "u8 list option"

record worker_row =
  w_id :: uuid
  w_name :: ustring
  w_concurrency_limit :: int
  w_lease_seconds :: int
  w_started_at :: timestamp
  w_last_heartbeat_at :: timestamp
  w_heartbeat_expires_at :: timestamp
  w_stopped_at :: "timestamp option"

record schedule_row =
  s_id :: int
  s_name :: ustring
  s_enabled :: bool
  s_interval_seconds :: int
  s_anchor_at :: timestamp
  s_next_run_at :: timestamp
  s_priority :: job_priority
  s_max_width :: int
  s_jpeg_quality :: int
  s_owner :: int
  s_created_at :: timestamp
  s_updated_at :: timestamp

record schedule_input_row =
  si_id :: int
  si_schedule :: int
  si_item_index :: int
  si_storage_key :: ustring
  si_display_name :: ustring
  si_media_type :: ustring
  si_byte_size :: int
  si_width :: int
  si_height :: int
  si_checksum :: "u8 list option"

record occurrence_row =
  o_id :: int
  o_schedule :: int
  o_scheduled_for :: timestamp
  o_outcome :: schedule_occurrence_outcome
  o_job :: "int option"
  o_reason :: "ustring option"
  o_coalesced_slots :: int
  o_created_at :: timestamp

record user_row =
  u_id :: int
  u_username :: ustring
  u_password_hash :: ustring
  u_is_active :: bool
  u_updated_at :: timestamp

record session_row =
  x_id :: uuid
  x_user :: int
  x_token_hash :: "u8 list"
  x_csrf_hash :: "u8 list"
  x_created_at :: timestamp
  x_last_seen_at :: timestamp
  x_expires_at :: timestamp
  x_revoked_at :: "timestamp option"

text \<open>The identity columns, one sequence each; workers and sessions are keyed by a UUID.\<close>

datatype table =
  Jobs | Attempts | Artifacts | Schedules | ScheduleInputs | Occurrences | Users

record db =
  jobs :: "job_row list"
  attempts :: "attempt_row list"
  artifacts :: "artifact_row list"
  workers :: "worker_row list"
  schedules :: "schedule_row list"
  schedule_inputs :: "schedule_input_row list"
  occurrences :: "occurrence_row list"
  users :: "user_row list"
  sessions :: "session_row list"
  seqs :: "table \<Rightarrow> int"

section \<open>Constraints\<close>

text \<open>
  A SQL \<open>CHECK\<close> also accepts a row for which its expression is \<open>NULL\<close>: a comparison with a
  null column never rejects, which is \<open>null_or\<close>.
\<close>

definition between :: "int \<Rightarrow> int \<Rightarrow> int \<Rightarrow> bool" where
  "between lo hi v \<longleftrightarrow> lo \<le> v \<and> v \<le> hi"

definition image_media_types :: "ustring set" where
  "image_media_types = {lit ''image/jpeg'', lit ''image/png''}"

definition job_ok :: "job_row \<Rightarrow> bool" where
  "job_ok r \<longleftrightarrow>
     i64_range (j_id r) \<and>
     length (j_name r) \<le> 100 \<and> btrim (j_name r) \<noteq> [] \<and>
     j_progress_total r > 0 \<and> between 0 (j_progress_total r) (j_progress_completed r) \<and>
     i32_range (j_progress_total r) \<and>
     between 1 30000 (j_delay_ms r) \<and>
     null_or (\<lambda>d. 0 \<le> d \<and> i64_range d) (j_result_duration_ms r) \<and>
     (j_type r = DemoDelay \<and> j_max_width r = None \<and> j_jpeg_quality r = None \<or>
      j_type r = ImageResize \<and> null_or (between 1 8192) (j_max_width r) \<and>
        null_or (between 1 100) (j_jpeg_quality r)) \<and>
     (j_type r = ImageResize \<longrightarrow> between 1 10 (j_progress_total r)) \<and>
     between 1 10 (j_max_attempts r) \<and>
     j_retry_of r \<noteq> Some (j_id r) \<and>
     (j_schedule_id r = None \<longleftrightarrow> j_scheduled_for r = None) \<and>
     (j_idempotency_key r = None \<and> j_fingerprint r = None \<or>
      (\<exists>k \<in> set_option (j_idempotency_key r). between 1 128 (int (length k))) \<and>
      (\<exists>b \<in> set_option (j_fingerprint r). length b = 32))"

definition attempt_ok :: "attempt_row \<Rightarrow> bool" where
  "attempt_ok r \<longleftrightarrow>
     i64_range (a_id r) \<and>
     0 < a_number r \<and> i32_range (a_number r) \<and>
     a_progress_total r > 0 \<and> between 0 (a_progress_total r) (a_progress_completed r) \<and>
     i32_range (a_progress_total r) \<and>
     null_or (\<lambda>d. 0 \<le> d \<and> i64_range d) (a_duration_ms r) \<and>
     (a_state r \<in> {ARunning, ASucceeded} \<and> a_error_kind r = None \<or>
      a_state r = AFailed \<and>
        null_or (\<lambda>k. k = lit ''transient'' \<or> k = lit ''permanent'') (a_error_kind r) \<or>
      a_state r = ACancelled \<and> null_or (\<lambda>k. k = lit ''cancelled'') (a_error_kind r)) \<and>
     (a_worker r = None \<and> a_token r = None \<and> a_lease_expires_at r = None \<or>
      a_worker r \<noteq> None \<and> a_token r \<noteq> None \<and> a_lease_expires_at r \<noteq> None) \<and>
     (a_state r = ARunning \<longrightarrow>
        a_worker r \<noteq> None \<and> a_token r \<noteq> None \<and> a_lease_expires_at r \<noteq> None) \<and>
     0 \<le> a_queue_wait_ms r \<and> i64_range (a_queue_wait_ms r) \<and>
     0 \<le> a_encoding_duration_ms r \<and> i64_range (a_encoding_duration_ms r)"

definition artifact_ok :: "artifact_row \<Rightarrow> bool" where
  "artifact_ok r \<longleftrightarrow>
     i64_range (f_id r) \<and>
     between 0 9 (f_item_index r) \<and>
     length (f_display_name r) \<le> 255 \<and> btrim (f_display_name r) \<noteq> [] \<and>
     f_media_type r \<in> image_media_types \<and>
     0 < f_byte_size r \<and> i64_range (f_byte_size r) \<and>
     0 < f_width r \<and> i32_range (f_width r) \<and> 0 < f_height r \<and> i32_range (f_height r) \<and>
     (f_kind r = Input \<and> f_attempt r = None \<and> f_source r = None \<or>
      f_kind r = Output \<and> f_attempt r \<noteq> None \<and> f_source r \<noteq> None \<and>
        f_media_type r = lit ''image/jpeg'') \<and>
     null_or (\<lambda>c. length c = 32) (f_checksum r)"

definition worker_ok :: "worker_row \<Rightarrow> bool" where
  "worker_ok r \<longleftrightarrow>
     length (w_name r) \<le> 100 \<and> btrim (w_name r) \<noteq> [] \<and>
     between 1 64 (w_concurrency_limit r) \<and> between 2 3600 (w_lease_seconds r) \<and>
     w_heartbeat_expires_at r > w_last_heartbeat_at r \<and>
     null_or (\<lambda>t. t \<ge> w_started_at r) (w_stopped_at r)"

definition schedule_ok :: "schedule_row \<Rightarrow> bool" where
  "schedule_ok r \<longleftrightarrow>
     i64_range (s_id r) \<and>
     length (s_name r) \<le> 100 \<and> btrim (s_name r) \<noteq> [] \<and>
     between 60 31536000 (s_interval_seconds r) \<and>
     between 1 8192 (s_max_width r) \<and> between 1 100 (s_jpeg_quality r)"

definition schedule_input_ok :: "schedule_input_row \<Rightarrow> bool" where
  "schedule_input_ok r \<longleftrightarrow>
     i64_range (si_id r) \<and>
     0 \<le> si_item_index r \<and> i16_range (si_item_index r) \<and> length (si_display_name r) \<le> 255 \<and>
     si_media_type r \<in> image_media_types \<and>
     0 < si_byte_size r \<and> i64_range (si_byte_size r) \<and>
     0 < si_width r \<and> i32_range (si_width r) \<and> 0 < si_height r \<and> i32_range (si_height r) \<and>
     null_or (\<lambda>c. length c = 32) (si_checksum r)"

definition occurrence_ok :: "occurrence_row \<Rightarrow> bool" where
  "occurrence_ok r \<longleftrightarrow>
     i64_range (o_id r) \<and>
     (o_outcome r = Created \<and> o_job r \<noteq> None \<and> o_reason r = None \<or>
      o_outcome r = SkippedOverlap \<and> o_job r = None \<and> o_reason r \<noteq> None) \<and>
     0 \<le> o_coalesced_slots r \<and> i64_range (o_coalesced_slots r)"

definition username_pattern :: "ustring \<Rightarrow> bool" where
  "username_pattern s \<longleftrightarrow>
     3 \<le> length s \<and> length s \<le> 32 \<and>
     (\<forall>i < length s. is_ascii_lowercase (s ! i) \<or> is_ascii_digit (s ! i) \<or>
        i > 0 \<and> (s ! i = 95 \<or> s ! i = 45))"

definition user_ok :: "user_row \<Rightarrow> bool" where
  "user_ok r \<longleftrightarrow>
     i64_range (u_id r) \<and> username_pattern (u_username r) \<and>
     between 1 512 (int (length (u_password_hash r)))"

definition session_ok :: "session_row \<Rightarrow> bool" where
  "session_ok r \<longleftrightarrow>
     length (x_token_hash r) = 32 \<and> length (x_csrf_hash r) = 32 \<and>
     x_expires_at r > x_created_at r \<and> x_last_seen_at r \<ge> x_created_at r \<and>
     null_or (\<lambda>t. t \<ge> x_created_at r) (x_revoked_at r)"

text \<open>
  What an \<open>INSERT\<close> is refused for: the row's own constraints, a duplicate key, or a reference to a
  row that does not exist.
\<close>

definition refs :: "('r \<Rightarrow> 'k) \<Rightarrow> 'r list \<Rightarrow> 'k option \<Rightarrow> bool" where
  "refs k rs x \<longleftrightarrow> null_or (\<lambda>v. v \<in> k ` set rs) x"

definition job_insert_error :: "db \<Rightarrow> job_row \<Rightarrow> database_error option" where
  "job_insert_error s r =
     (if \<not> job_ok r then Some RowRejected
      else if \<exists>q \<in> set (jobs s). j_id q = j_id r \<or>
                j_idempotency_key r \<noteq> None \<and> j_owner q = j_owner r \<and>
                j_idempotency_key q = j_idempotency_key r then Some UniqueViolation
      else if \<not> (refs j_id (jobs s) (j_retry_of r) \<and> refs s_id (schedules s) (j_schedule_id r) \<and>
                  refs u_id (users s) (Some (j_owner r))) then Some ForeignKeyViolation
      else None)"

definition attempt_insert_error :: "db \<Rightarrow> attempt_row \<Rightarrow> database_error option" where
  "attempt_insert_error s r =
     (if \<not> attempt_ok r then Some RowRejected
      else if \<exists>q \<in> set (attempts s). a_id q = a_id r \<or>
                a_job q = a_job r \<and> a_number q = a_number r \<or>
                a_token r \<noteq> None \<and> a_token q = a_token r then Some UniqueViolation
      else if \<not> (refs j_id (jobs s) (Some (a_job r)) \<and> refs w_id (workers s) (a_worker r))
      then Some ForeignKeyViolation
      else None)"

definition artifact_insert_error :: "db \<Rightarrow> artifact_row \<Rightarrow> database_error option" where
  "artifact_insert_error s r =
     (if \<not> artifact_ok r then Some RowRejected
      else if \<exists>q \<in> set (artifacts s). f_id q = f_id r \<or>
                f_job q = f_job r \<and> f_kind q = f_kind r \<and> f_item_index q = f_item_index r
      then Some UniqueViolation
      else if \<not> (refs j_id (jobs s) (Some (f_job r)) \<and> refs a_id (attempts s) (f_attempt r) \<and>
                  refs f_id (artifacts s) (f_source r)) then Some ForeignKeyViolation
      else None)"

definition worker_insert_error :: "db \<Rightarrow> worker_row \<Rightarrow> database_error option" where
  "worker_insert_error s r =
     (if \<not> worker_ok r then Some RowRejected
      else if \<exists>q \<in> set (workers s). w_id q = w_id r then Some UniqueViolation
      else None)"

definition schedule_insert_error :: "db \<Rightarrow> schedule_row \<Rightarrow> database_error option" where
  "schedule_insert_error s r =
     (if \<not> schedule_ok r then Some RowRejected
      else if \<exists>q \<in> set (schedules s). s_id q = s_id r then Some UniqueViolation
      else if \<not> refs u_id (users s) (Some (s_owner r)) then Some ForeignKeyViolation
      else None)"

definition schedule_input_insert_error :: "db \<Rightarrow> schedule_input_row \<Rightarrow> database_error option" where
  "schedule_input_insert_error s r =
     (if \<not> schedule_input_ok r then Some RowRejected
      else if \<exists>q \<in> set (schedule_inputs s). si_id q = si_id r \<or>
                si_schedule q = si_schedule r \<and> si_item_index q = si_item_index r
      then Some UniqueViolation
      else if \<not> refs s_id (schedules s) (Some (si_schedule r)) then Some ForeignKeyViolation
      else None)"

definition occurrence_insert_error :: "db \<Rightarrow> occurrence_row \<Rightarrow> database_error option" where
  "occurrence_insert_error s r =
     (if \<not> occurrence_ok r then Some RowRejected
      else if \<exists>q \<in> set (occurrences s). o_id q = o_id r \<or>
                o_schedule q = o_schedule r \<and> o_scheduled_for q = o_scheduled_for r
      then Some UniqueViolation
      else if \<not> (refs s_id (schedules s) (Some (o_schedule r)) \<and> refs j_id (jobs s) (o_job r))
      then Some ForeignKeyViolation
      else None)"

definition session_insert_error :: "db \<Rightarrow> session_row \<Rightarrow> database_error option" where
  "session_insert_error s r =
     (if \<not> session_ok r then Some RowRejected
      else if \<exists>q \<in> set (sessions s). x_id q = x_id r \<or> x_token_hash q = x_token_hash r
      then Some UniqueViolation
      else if \<not> refs u_id (users s) (Some (x_user r)) then Some ForeignKeyViolation
      else None)"

end
