(* ===== verification/Transactions.thy ===== *)
theory Transactions
  imports Database
begin

text \<open>
  Repository operations as functions on the database. \<open>'a tx\<close> is a sequence of statements:
  the result and the database after it. \<open>transaction\<close> makes it all or nothing. The statement
  forms are \<open>UPDATE ... RETURNING\<close>, \<open>INSERT ... RETURNING\<close>, \<open>DELETE ... RETURNING\<close> and
  \<open>SELECT\<close>; each statement that writes checks the constraints of the rows it writes and changes
  nothing when one is violated.
\<close>

section \<open>Sequencing\<close>

type_synonym 'a tx = "db \<Rightarrow> (repository_error + 'a) \<times> db"

named_theorems tx_simps

definition tx_return :: "'a \<Rightarrow> 'a tx" where
  "tx_return x = (\<lambda>s. (Inr x, s))"

definition tx_fail :: "repository_error \<Rightarrow> 'a tx" where
  "tx_fail e = (\<lambda>s. (Inl e, s))"

definition tx_lift :: "repository_error + 'a \<Rightarrow> 'a tx" where
  "tx_lift m = (\<lambda>s. (m, s))"

definition tx_select :: "(db \<Rightarrow> 'a) \<Rightarrow> 'a tx" where
  "tx_select q = (\<lambda>s. (Inr (q s), s))"

definition tx_bind :: "'a tx \<Rightarrow> ('a \<Rightarrow> 'b tx) \<Rightarrow> 'b tx" where
  "tx_bind m f = (\<lambda>s. case m s of (Inl e, s') \<Rightarrow> (Inl e, s') | (Inr x, s') \<Rightarrow> f x s')"

definition tx_ok_or :: "repository_error \<Rightarrow> 'a option \<Rightarrow> 'a tx" where
  "tx_ok_or e m = tx_lift (ok_or e m)"

definition tx_guard :: "bool \<Rightarrow> repository_error \<Rightarrow> unit tx" where
  "tx_guard ok e = (if ok then tx_return () else tx_fail e)"

definition tx_map_result :: "('a \<Rightarrow> repository_error + 'b) \<Rightarrow> 'a tx \<Rightarrow> 'b tx" where
  "tx_map_result f m = tx_bind m (\<lambda>x. tx_lift (f x))"

fun tx_for :: "('a \<Rightarrow> unit tx) \<Rightarrow> 'a list \<Rightarrow> unit tx" where
  "tx_for f [] = tx_return ()"
| "tx_for f (x # xs) = tx_bind (f x) (\<lambda>_. tx_for f xs)"

definition transaction :: "'a tx \<Rightarrow> 'a tx" where
  "transaction m =
     (\<lambda>s. case m s of
        (Inl e, s') \<Rightarrow> (Inl e, s\<lparr>seqs := seqs s'\<rparr>)
      | (Inr x, s') \<Rightarrow> (Inr x, s'))"

text \<open>Two databases that hold the same rows; they may differ in the identity sequences.\<close>

definition same_rows :: "db \<Rightarrow> db \<Rightarrow> bool" where
  "same_rows s t \<longleftrightarrow> t = s\<lparr>seqs := seqs t\<rparr>"

lemma same_rows_refl [simp]: "same_rows s s"
  by (simp add: same_rows_def)

lemma same_rows_seqs [simp]: "same_rows s (s\<lparr>seqs := q\<rparr>)"
  by (simp add: same_rows_def)

lemma same_rows_trans: "same_rows s t \<Longrightarrow> same_rows t u \<Longrightarrow> same_rows s u"
  by (cases s; cases t; cases u) (simp add: same_rows_def)

lemma same_rows_fields:
  assumes "same_rows s t"
  shows "jobs t = jobs s" "attempts t = attempts s" "artifacts t = artifacts s"
    "workers t = workers s" "schedules t = schedules s"
    "schedule_inputs t = schedule_inputs s" "occurrences t = occurrences s"
    "users t = users s" "sessions t = sessions s"
  using assms by (cases s; cases t; simp add: same_rows_def)+

lemma tx_returns [tx_simps]:
  "tx_return x s = (Inr x, s)" "tx_fail e s = (Inl e, s)" "tx_lift m s = (m, s)"
  "tx_select q s = (Inr (q s), s)" "tx_ok_or e m' s = (ok_or e m', s)"
  "tx_guard ok e s = (if ok then Inr () else Inl e, s)"
  by (simp_all add: tx_return_def tx_fail_def tx_lift_def tx_select_def tx_ok_or_def tx_guard_def)

lemma tx_bind_run:
  "m s = (Inr x, s') \<Longrightarrow> tx_bind m f s = f x s'"
  "m s = (Inl e, s') \<Longrightarrow> tx_bind m f s = (Inl e, s')"
  by (simp_all add: tx_bind_def)

lemma tx_bind_simps [tx_simps]:
  "tx_bind (tx_return x) f s = f x s"
  "tx_bind (tx_fail e) f s = (Inl e, s)"
  "tx_bind (tx_lift m) f s = (case m of Inl e \<Rightarrow> (Inl e, s) | Inr x \<Rightarrow> f x s)"
  "tx_bind (tx_ok_or e m') f s = (case m' of None \<Rightarrow> (Inl e, s) | Some x \<Rightarrow> f x s)"
  "tx_bind (tx_select q) f s = f (q s) s"
  "tx_bind (tx_guard ok e) g s = (if ok then g () s else (Inl e, s))"
  by (simp_all add: tx_bind_def tx_return_def tx_fail_def tx_lift_def tx_select_def tx_guard_def
      tx_ok_or_def split: sum.splits option.splits)

lemma tx_bind_InrE:
  assumes "tx_bind m f s = (Inr y, t)"
  obtains x u where "m s = (Inr x, u)" and "f x u = (Inr y, t)"
  using assms by (auto simp: tx_bind_def split: prod.splits sum.splits)

lemma tx_bind_Inr_iff:
  "tx_bind m f s = (Inr y, t) \<longleftrightarrow> (\<exists>x u. m s = (Inr x, u) \<and> f x u = (Inr y, t))"
  by (auto simp: tx_bind_def split: prod.splits sum.splits)

lemma tx_bind_Inl_iff:
  "tx_bind m f s = (Inl e, t) \<longleftrightarrow>
     m s = (Inl e, t) \<or> (\<exists>x u. m s = (Inr x, u) \<and> f x u = (Inl e, t))"
  by (auto simp: tx_bind_def split: prod.splits sum.splits)

lemma transaction_Inr_iff: "transaction m s = (Inr x, t) \<longleftrightarrow> m s = (Inr x, t)"
  by (auto simp: transaction_def split: prod.splits sum.splits)

lemma transaction_Inl_iff:
  "transaction m s = (Inl e, t) \<longleftrightarrow> (\<exists>u. m s = (Inl e, u) \<and> t = s\<lparr>seqs := seqs u\<rparr>)"
  by (auto simp: transaction_def split: prod.splits sum.splits)

lemma transaction_error_rolls_back: "transaction m s = (Inl e, t) \<Longrightarrow> same_rows s t"
  by (auto simp: transaction_Inl_iff)

section \<open>Statements\<close>

definition sql_update ::
  "('r \<Rightarrow> bool) \<Rightarrow> (db \<Rightarrow> 'r list) \<Rightarrow> ('r list \<Rightarrow> db \<Rightarrow> db) \<Rightarrow>
   ('r \<Rightarrow> bool) \<Rightarrow> ('r \<Rightarrow> 'r) \<Rightarrow> 'r list tx" where
  "sql_update ok get put P f =
     (\<lambda>s. let hits = List.map f (filter P (get s)) in
        if list_all ok hits then (Inr hits, put (update_where P f (get s)) s)
        else (Inl (Database RowRejected), s))"

definition sql_insert ::
  "table \<Rightarrow> (db \<Rightarrow> 'r \<Rightarrow> database_error option) \<Rightarrow> (db \<Rightarrow> 'r list) \<Rightarrow>
   ('r list \<Rightarrow> db \<Rightarrow> db) \<Rightarrow> (int \<Rightarrow> 'r) \<Rightarrow> 'r tx" where
  "sql_insert T err get put mk =
     (\<lambda>s. let r = mk (seqs s T); s' = s\<lparr>seqs := (seqs s)(T := seqs s T + 1)\<rparr> in
        case err s r of
          Some e \<Rightarrow> (Inl (Database e), s')
        | None \<Rightarrow> (Inr r, put (get s @ [r]) s'))"

definition sql_insert_keyed ::
  "(db \<Rightarrow> 'r \<Rightarrow> database_error option) \<Rightarrow> (db \<Rightarrow> 'r list) \<Rightarrow>
   ('r list \<Rightarrow> db \<Rightarrow> db) \<Rightarrow> 'r \<Rightarrow> 'r tx" where
  "sql_insert_keyed err get put r =
     (\<lambda>s. case err s r of
          Some e \<Rightarrow> (Inl (Database e), s)
        | None \<Rightarrow> (Inr r, put (get s @ [r]) s))"

definition sql_delete ::
  "(db \<Rightarrow> 'r list) \<Rightarrow> ('r list \<Rightarrow> db \<Rightarrow> db) \<Rightarrow> ('r \<Rightarrow> bool) \<Rightarrow> 'r list tx" where
  "sql_delete get put P =
     (\<lambda>s. (Inr (filter P (get s)), put (filter (\<lambda>r. \<not> P r) (get s)) s))"

definition set_jobs :: "job_row list \<Rightarrow> db \<Rightarrow> db" where
  "set_jobs rs s = s\<lparr>jobs := rs\<rparr>"

definition set_attempts :: "attempt_row list \<Rightarrow> db \<Rightarrow> db" where
  "set_attempts rs s = s\<lparr>attempts := rs\<rparr>"

definition set_artifacts :: "artifact_row list \<Rightarrow> db \<Rightarrow> db" where
  "set_artifacts rs s = s\<lparr>artifacts := rs\<rparr>"

definition set_workers :: "worker_row list \<Rightarrow> db \<Rightarrow> db" where
  "set_workers rs s = s\<lparr>workers := rs\<rparr>"

definition set_schedules :: "schedule_row list \<Rightarrow> db \<Rightarrow> db" where
  "set_schedules rs s = s\<lparr>schedules := rs\<rparr>"

definition set_schedule_inputs :: "schedule_input_row list \<Rightarrow> db \<Rightarrow> db" where
  "set_schedule_inputs rs s = s\<lparr>schedule_inputs := rs\<rparr>"

definition set_occurrences :: "occurrence_row list \<Rightarrow> db \<Rightarrow> db" where
  "set_occurrences rs s = s\<lparr>occurrences := rs\<rparr>"

definition set_users :: "user_row list \<Rightarrow> db \<Rightarrow> db" where
  "set_users rs s = s\<lparr>users := rs\<rparr>"

definition set_sessions :: "session_row list \<Rightarrow> db \<Rightarrow> db" where
  "set_sessions rs s = s\<lparr>sessions := rs\<rparr>"

lemmas set_table_defs =
  set_jobs_def set_attempts_def set_artifacts_def set_workers_def set_schedules_def
  set_schedule_inputs_def set_occurrences_def set_users_def set_sessions_def

definition update_jobs :: "(job_row \<Rightarrow> bool) \<Rightarrow> (job_row \<Rightarrow> job_row) \<Rightarrow> job_row list tx" where
  "update_jobs = sql_update job_ok jobs set_jobs"

definition update_attempts ::
  "(attempt_row \<Rightarrow> bool) \<Rightarrow> (attempt_row \<Rightarrow> attempt_row) \<Rightarrow> attempt_row list tx" where
  "update_attempts = sql_update attempt_ok attempts set_attempts"

definition update_workers ::
  "(worker_row \<Rightarrow> bool) \<Rightarrow> (worker_row \<Rightarrow> worker_row) \<Rightarrow> worker_row list tx" where
  "update_workers = sql_update worker_ok workers set_workers"

definition update_schedules ::
  "(schedule_row \<Rightarrow> bool) \<Rightarrow> (schedule_row \<Rightarrow> schedule_row) \<Rightarrow> schedule_row list tx" where
  "update_schedules = sql_update schedule_ok schedules set_schedules"

definition update_users :: "(user_row \<Rightarrow> bool) \<Rightarrow> (user_row \<Rightarrow> user_row) \<Rightarrow> user_row list tx" where
  "update_users = sql_update user_ok users set_users"

definition update_sessions ::
  "(session_row \<Rightarrow> bool) \<Rightarrow> (session_row \<Rightarrow> session_row) \<Rightarrow> session_row list tx" where
  "update_sessions = sql_update session_ok sessions set_sessions"

definition insert_job :: "(int \<Rightarrow> job_row) \<Rightarrow> job_row tx" where
  "insert_job = sql_insert Jobs job_insert_error jobs set_jobs"

definition insert_attempt :: "(int \<Rightarrow> attempt_row) \<Rightarrow> attempt_row tx" where
  "insert_attempt = sql_insert Attempts attempt_insert_error attempts set_attempts"

definition insert_artifact :: "(int \<Rightarrow> artifact_row) \<Rightarrow> artifact_row tx" where
  "insert_artifact = sql_insert Artifacts artifact_insert_error artifacts set_artifacts"

definition insert_schedule :: "(int \<Rightarrow> schedule_row) \<Rightarrow> schedule_row tx" where
  "insert_schedule = sql_insert Schedules schedule_insert_error schedules set_schedules"

definition insert_schedule_input_row :: "(int \<Rightarrow> schedule_input_row) \<Rightarrow> schedule_input_row tx" where
  "insert_schedule_input_row =
     sql_insert ScheduleInputs schedule_input_insert_error schedule_inputs set_schedule_inputs"

definition insert_occurrence :: "(int \<Rightarrow> occurrence_row) \<Rightarrow> occurrence_row tx" where
  "insert_occurrence = sql_insert Occurrences occurrence_insert_error occurrences set_occurrences"

definition insert_worker :: "worker_row \<Rightarrow> worker_row tx" where
  "insert_worker = sql_insert_keyed worker_insert_error workers set_workers"

definition insert_session :: "session_row \<Rightarrow> session_row tx" where
  "insert_session = sql_insert_keyed session_insert_error sessions set_sessions"

text \<open>\<open>SELECT ... WHERE P\<close> with at most one row (\<open>fetch_optional\<close>) or one row (\<open>fetch_one\<close>).\<close>

definition fetch_optional :: "'r list \<Rightarrow> 'r option" where
  "fetch_optional rs = (case rs of [] \<Rightarrow> None | r # _ \<Rightarrow> Some r)"

definition fetch_one :: "'r list \<Rightarrow> repository_error + 'r" where
  "fetch_one rs = (case rs of [] \<Rightarrow> Inl (Database RowNotFound) | r # _ \<Rightarrow> Inr r)"

lemma fetch_optional_simps [simp]:
  "fetch_optional [] = None" "fetch_optional (r # rs) = Some r"
  "fetch_one [] = Inl (Database RowNotFound)" "fetch_one (r # rs) = Inr r"
  by (simp_all add: fetch_optional_def fetch_one_def)

lemma fetch_optional_mem: "fetch_optional rs = Some r \<Longrightarrow> r \<in> set rs"
  by (cases rs) auto

lemma fetch_optional_Some_iff: "fetch_optional rs = Some r \<longleftrightarrow> (\<exists>qs. rs = r # qs)"
  by (cases rs) auto

lemma fetch_optional_None_iff [simp]: "fetch_optional rs = None \<longleftrightarrow> rs = []"
  by (cases rs) auto

lemma fetch_optional_filter_Some: "fetch_optional (filter P rs) = Some r \<Longrightarrow> r \<in> set rs \<and> P r"
  using fetch_optional_mem [of "filter P rs" r] by simp

lemma fetch_optional_filter_None: "fetch_optional (filter P rs) = None \<longleftrightarrow> (\<forall>r \<in> set rs. \<not> P r)"
  by (simp add: filter_empty_conv)

lemma fetch_optional_keyed:
  assumes "keyed k rs" and "r \<in> set rs"
  shows "fetch_optional (filter (\<lambda>q. k q = k r \<and> P q) rs) = (if P r then Some r else None)"
proof (cases "P r")
  case True
  then have "filter (\<lambda>q. k q = k r \<and> P q) rs = [r]"
    by (intro filter_keyed_hit [OF assms(1), where x = "k r"]) (use assms in auto)
  with True show ?thesis by simp
next
  case False
  have "filter (\<lambda>q. k q = k r \<and> P q) rs = []"
    using False assms keyed_unique by (fastforce simp: filter_empty_conv)
  with False show ?thesis by simp
qed

lemmas update_stmt_defs =
  update_jobs_def update_attempts_def update_workers_def update_schedules_def update_users_def
  update_sessions_def

lemmas insert_stmt_defs =
  insert_job_def insert_attempt_def insert_artifact_def insert_schedule_def
  insert_schedule_input_row_def insert_occurrence_def insert_worker_def insert_session_def

text \<open>A statement's success and failure, as rewrite rules.\<close>

lemma sql_update_Inr_iff:
  "sql_update ok get put P f s = (Inr hits, t) \<longleftrightarrow>
     hits = List.map f (filter P (get s)) \<and> list_all ok hits \<and> t = put (update_where P f (get s)) s"
  by (auto simp: sql_update_def Let_def)

lemma sql_update_Inl_iff:
  "sql_update ok get put P f s = (Inl e, t) \<longleftrightarrow>
     \<not> list_all ok (List.map f (filter P (get s))) \<and> e = Database RowRejected \<and> t = s"
  by (auto simp: sql_update_def Let_def)

lemma sql_insert_Inr_iff:
  "sql_insert T err get put mk s = (Inr r, t) \<longleftrightarrow>
     r = mk (seqs s T) \<and> err s r = None \<and>
     t = put (get s @ [r]) (s\<lparr>seqs := (seqs s)(T := seqs s T + 1)\<rparr>)"
  by (auto simp: sql_insert_def Let_def split: option.splits)

lemma sql_insert_Inl_iff:
  "sql_insert T err get put mk s = (Inl e, t) \<longleftrightarrow>
     (\<exists>d. err s (mk (seqs s T)) = Some d \<and> e = Database d \<and>
        t = s\<lparr>seqs := (seqs s)(T := seqs s T + 1)\<rparr>)"
  by (auto simp: sql_insert_def Let_def split: option.splits)

lemma sql_insert_keyed_Inr_iff:
  "sql_insert_keyed err get put r s = (Inr q, t) \<longleftrightarrow>
     q = r \<and> err s r = None \<and> t = put (get s @ [r]) s"
  by (auto simp: sql_insert_keyed_def split: option.splits)

lemma sql_insert_keyed_Inl_iff:
  "sql_insert_keyed err get put r s = (Inl e, t) \<longleftrightarrow>
     (\<exists>d. err s r = Some d \<and> e = Database d \<and> t = s)"
  by (auto simp: sql_insert_keyed_def split: option.splits)

lemmas statement_iffs =
  sql_update_Inr_iff sql_update_Inl_iff sql_insert_Inr_iff sql_insert_Inl_iff
  sql_insert_keyed_Inr_iff sql_insert_keyed_Inl_iff

section \<open>Interface: an invariant of the database\<close>

text \<open>
  No operation moves an identity sequence back, and an invariant that survives the advance of the
  sequences holds again after a transaction has rolled back. For such an invariant it is enough to look
  at the runs of a transaction that commit.
\<close>

definition advances :: "'a tx \<Rightarrow> bool" where
  "advances m \<longleftrightarrow> (\<forall>s T. seqs s T \<le> seqs (snd (m s)) T)"

definition keeps :: "(db \<Rightarrow> bool) \<Rightarrow> 'a tx \<Rightarrow> bool" where
  "keeps I m \<longleftrightarrow> (\<forall>s. I s \<longrightarrow> I (snd (m s)))"

named_theorems advances_rules

lemma advances_simple [advances_rules]:
  "advances (tx_return x)" "advances (tx_fail e)" "advances (tx_lift m)" "advances (tx_select q)"
  "advances (tx_ok_or e v)" "advances (tx_guard ok e)" "advances (\<lambda>s. (r s, s))"
  by (simp_all add: advances_def tx_simps)

lemma advances_bind [advances_rules]:
  "advances m \<Longrightarrow> (\<And>x. advances (f x)) \<Longrightarrow> advances (tx_bind m f)"
  unfolding advances_def tx_bind_def
  by (auto split: prod.splits sum.splits) (metis order_trans snd_conv)+

lemma advances_for [advances_rules]: "(\<And>x. advances (f x)) \<Longrightarrow> advances (tx_for f xs)"
  by (induction xs) (auto intro!: advances_rules)

lemma advances_transaction [advances_rules]: "advances m \<Longrightarrow> advances (transaction m)"
  unfolding advances_def transaction_def
  by (auto split: prod.splits sum.splits) (metis snd_conv)+

lemma advances_update [advances_rules]:
  "(\<And>rs s. seqs (put rs s) = seqs s) \<Longrightarrow> advances (sql_update ok get put P f)"
  by (simp add: advances_def sql_update_def Let_def)

lemma advances_delete [advances_rules]:
  "(\<And>rs s. seqs (put rs s) = seqs s) \<Longrightarrow> advances (sql_delete get put P)"
  by (simp add: advances_def sql_delete_def)

lemma advances_insert [advances_rules]:
  "(\<And>rs s. seqs (put rs s) = seqs s) \<Longrightarrow> advances (sql_insert T err get put mk)"
  by (simp add: advances_def sql_insert_def Let_def split: option.splits)

lemma advances_insert_keyed [advances_rules]:
  "(\<And>rs s. seqs (put rs s) = seqs s) \<Longrightarrow> advances (sql_insert_keyed err get put r)"
  by (simp add: advances_def sql_insert_keyed_def split: option.splits)

lemma seqs_set_table [simp]:
  "seqs (set_jobs a s) = seqs s" "seqs (set_attempts b s) = seqs s"
  "seqs (set_artifacts c s) = seqs s" "seqs (set_workers d s) = seqs s"
  "seqs (set_schedules e s) = seqs s" "seqs (set_schedule_inputs f s) = seqs s"
  "seqs (set_occurrences g s) = seqs s" "seqs (set_users h s) = seqs s"
  "seqs (set_sessions k s) = seqs s"
  by (simp_all add: set_table_defs)

lemma advances_statements [advances_rules]:
  "advances (update_jobs P f)" "advances (update_attempts P' f')" "advances (update_workers Q g)"
  "advances (update_schedules Q' g')" "advances (update_users R h)" "advances (update_sessions R' h')"
  "advances (insert_job mk)" "advances (insert_attempt mk')" "advances (insert_artifact mf)"
  "advances (insert_schedule ms)" "advances (insert_schedule_input_row mi)"
  "advances (insert_occurrence mo)" "advances (insert_worker w)" "advances (insert_session x)"
  by (simp_all add: update_stmt_defs insert_stmt_defs advances_rules)

lemma keeps_simple [simp]:
  "keeps I (tx_return x)" "keeps I (tx_fail e)" "keeps I (tx_lift m)" "keeps I (tx_select q)"
  "keeps I (tx_ok_or e v)" "keeps I (tx_guard ok e)" "keeps I (\<lambda>s. (r s, s))"
  by (simp_all add: keeps_def tx_simps)

lemma keeps_bind: "keeps I m \<Longrightarrow> (\<And>x. keeps I (f x)) \<Longrightarrow> keeps I (tx_bind m f)"
  unfolding keeps_def tx_bind_def
  by (fastforce split: prod.splits sum.splits)

lemma keepsD: "keeps I m \<Longrightarrow> I s \<Longrightarrow> m s = (r, t) \<Longrightarrow> I t"
  unfolding keeps_def by (metis snd_conv)

locale tx_invariant =
  fixes I :: "db \<Rightarrow> bool"
  assumes seqs_advance: "I s \<Longrightarrow> (\<And>T. seqs s T \<le> q T) \<Longrightarrow> I (s\<lparr>seqs := q\<rparr>)"
begin

lemma transaction_at:
  assumes "advances m" and "I s" and "\<And>x t. m s = (Inr x, t) \<Longrightarrow> I t"
  shows "I (snd (transaction m s))"
proof (cases "m s")
  case (Pair r t)
  have "seqs s T \<le> seqs t T" for T using assms(1) Pair by (metis advances_def snd_conv)
  with assms(2,3) Pair show ?thesis
    by (cases r) (auto simp: transaction_def intro: seqs_advance)
qed

lemma keeps_transaction:
  assumes "advances m" and "\<And>s x t. I s \<Longrightarrow> m s = (Inr x, t) \<Longrightarrow> I t"
  shows "keeps I (transaction m)"
  using transaction_at [OF assms(1)] assms(2) unfolding keeps_def by blast

lemma keeps_update:
  assumes "\<And>s hits t. I s \<Longrightarrow> sql_update ok get put P f s = (Inr hits, t) \<Longrightarrow> I t"
  shows "keeps I (sql_update ok get put P f)"
  unfolding keeps_def
proof (intro allI impI)
  fix s assume s: "I s"
  show "I (snd (sql_update ok get put P f s))"
    using s assms [OF s] by (auto simp: sql_update_def Let_def)
qed

lemma keeps_insert:
  assumes "\<And>s r t. I s \<Longrightarrow> sql_insert T err get put mk s = (Inr r, t) \<Longrightarrow> I t"
  shows "keeps I (sql_insert T err get put mk)"
  unfolding keeps_def
proof (intro allI impI)
  fix s assume s: "I s"
  show "I (snd (sql_insert T err get put mk s))"
    using s assms [OF s]
    by (auto simp: sql_insert_def Let_def intro!: seqs_advance split: option.splits)
qed

end

section \<open>Interface: a relation between the database before and after\<close>

text \<open>
  What an operation may do to the rows, as a preorder on databases that holds between databases with the
  same rows: sequences of statements and transactions stay within it when each statement does.
\<close>

definition obeys :: "(db \<Rightarrow> db \<Rightarrow> bool) \<Rightarrow> 'a tx \<Rightarrow> bool" where
  "obeys R m \<longleftrightarrow> (\<forall>s. R s (snd (m s)))"

lemma obeysD: "obeys R m \<Longrightarrow> m s = (r, t) \<Longrightarrow> R s t"
  unfolding obeys_def by (metis snd_conv)

locale frame_relation =
  fixes R :: "db \<Rightarrow> db \<Rightarrow> bool"
  assumes same: "same_rows s t \<Longrightarrow> R s t"
    and trans: "R s t \<Longrightarrow> R t u \<Longrightarrow> R s u"
begin

lemma refl: "R s s"
  by (simp add: same)

lemma simple:
  "obeys R (tx_return x)" "obeys R (tx_fail e)" "obeys R (tx_lift m)"
  "obeys R (tx_select q)" "obeys R (tx_ok_or e v)" "obeys R (tx_guard ok e)"
  "obeys R (\<lambda>s. (r s, s))"
  by (simp_all add: obeys_def tx_simps refl)

lemma bind: "obeys R m \<Longrightarrow> (\<And>x. obeys R (f x)) \<Longrightarrow> obeys R (tx_bind m f)"
  unfolding obeys_def tx_bind_def
  by (auto split: prod.splits sum.splits) (metis snd_conv trans)+

lemma each: "(\<And>x. obeys R (f x)) \<Longrightarrow> obeys R (tx_for f xs)"
  by (induction xs) (auto intro!: bind simple)

lemma committed:
  assumes "obeys R m"
  shows "obeys R (transaction m)"
  unfolding obeys_def
proof
  fix s
  show "R s (snd (transaction m s))"
  proof (cases "m s")
    case (Pair r t)
    with assms have "R s t" by (rule obeysD)
    with Pair show ?thesis by (cases r) (simp_all add: transaction_def same)
  qed
qed

lemma update:
  "(\<And>s. R s (put (update_where P f (get s)) s)) \<Longrightarrow> obeys R (sql_update ok get put P f)"
  by (simp add: obeys_def sql_update_def Let_def refl)

lemma delete:
  "(\<And>s. R s (put (filter (\<lambda>r. \<not> P r) (get s)) s)) \<Longrightarrow> obeys R (sql_delete get put P)"
  by (simp add: obeys_def sql_delete_def)

lemma insert:
  "(\<And>s r q. R s (put (get s @ [r]) (s\<lparr>seqs := q\<rparr>))) \<Longrightarrow> obeys R (sql_insert T err get put mk)"
  by (simp add: obeys_def sql_insert_def Let_def same split: option.splits)

lemma insert_keyed:
  "(\<And>s. R s (put (get s @ [r]) s)) \<Longrightarrow> obeys R (sql_insert_keyed err get put r)"
  by (simp add: obeys_def sql_insert_keyed_def refl split: option.splits)

end

end
