(* ===== verification/Rows.thy ===== *)
theory Rows
  imports Transactions
begin

text \<open>
  Reading rows: the integer conversions of \<open>postgres.rs\<close>, the row structures sqlx fills
  (\<open>JobRow\<close>, \<open>AttemptRow\<close>, \<open>ArtifactRow\<close>, with text for the enumerated columns), the records
  the repositories return, and the fallible conversions between them. The lemmas at the end say
  which stored rows always convert.
\<close>

section \<open>Integer conversions\<close>

definition decode_u32 :: "int \<Rightarrow> string \<Rightarrow> repository_error + u32" where
  "decode_u32 value field = ok_or (InvalidData (field @ '' cannot be negative'')) (to_word value)"

definition decode_u64 :: "int \<Rightarrow> string \<Rightarrow> repository_error + u64" where
  "decode_u64 value field = ok_or (InvalidData (field @ '' cannot be negative'')) (to_word value)"

definition decode_u8 :: "int \<Rightarrow> string \<Rightarrow> repository_error + u8" where
  "decode_u8 value message = ok_or (InvalidData message) (to_word value)"

definition decode_u16 :: "int \<Rightarrow> string \<Rightarrow> repository_error + u16" where
  "decode_u16 value message = ok_or (InvalidData message) (to_word value)"

definition decode_job_id :: "int \<Rightarrow> repository_error + job_id" where
  "decode_job_id value =
     try_bind (decode_u64 value ''job ID'') (\<lambda>v.
     map_err (\<lambda>_. InvalidData job_id_error_display) (job_id_new v))"

definition decode_schedule_id :: "int \<Rightarrow> repository_error + schedule_id" where
  "decode_schedule_id value =
     try_bind (decode_u64 value ''schedule ID'') (\<lambda>v.
     map_err (\<lambda>_. InvalidData schedule_id_error_display) (schedule_id_new v))"

definition encode_schedule_id :: "schedule_id \<Rightarrow> repository_error + int" where
  "encode_schedule_id value =
     ok_or (InvalidData ''schedule ID exceeds BIGINT'')
       (to_signed i64_range (uint (schedule_id_get value)))"

definition encode_job_id :: "job_id \<Rightarrow> repository_error + int" where
  "encode_job_id i =
     ok_or (InvalidData ''job ID exceeds BIGINT range'')
       (to_signed i64_range (uint (job_id_get i)))"

definition encode_u64 :: "u64 \<Rightarrow> string \<Rightarrow> repository_error + int" where
  "encode_u64 value field =
     ok_or (InvalidData (field @ '' exceeds BIGINT'')) (to_signed i64_range (uint value))"

definition encode_u32 :: "u32 \<Rightarrow> string \<Rightarrow> repository_error + int" where
  "encode_u32 value field =
     ok_or (InvalidData (field @ '' exceeds INTEGER'')) (to_signed i32_range (uint value))"

definition encode_duration :: "duration \<Rightarrow> repository_error + int" where
  "encode_duration value =
     ok_or (InvalidData ''worker duration exceeds BIGINT'') (to_signed i64_range (as_millis value))"

definition decode_duration :: "int \<Rightarrow> repository_error + duration" where
  "decode_duration value =
     try_bind (decode_u64 value ''delay_ms'') (\<lambda>v. Inr (from_millis (unat v)))"

definition ensure_one_row :: "nat \<Rightarrow> string \<Rightarrow> repository_error + unit" where
  "ensure_one_row rows_affected operation =
     (if rows_affected = 1 then Inr () else Inl (StateConflict operation))"

definition ensure_claim_row :: "nat \<Rightarrow> repository_error + unit" where
  "ensure_claim_row rows_affected = (if rows_affected = 1 then Inr () else Inl ClaimLost)"

lemma ensure_one_row_Inr_iff [simp]: "ensure_one_row n opn = Inr u \<longleftrightarrow> n = 1"
  by (simp add: ensure_one_row_def)

lemma ensure_claim_row_Inr_iff [simp]: "ensure_claim_row n = Inr u \<longleftrightarrow> n = 1"
  by (simp add: ensure_claim_row_def)

lemma decode_u32_Inr_iff: "decode_u32 v field = Inr w \<longleftrightarrow> 0 \<le> v \<and> v < 2 ^ 32 \<and> w = word_of_int v"
  by (auto simp: decode_u32_def to_word_Some_iff)

lemma decode_u64_Inr_iff: "decode_u64 v field = Inr w \<longleftrightarrow> 0 \<le> v \<and> v < 2 ^ 64 \<and> w = word_of_int v"
  by (auto simp: decode_u64_def to_word_Some_iff)

lemma decode_u8_Inr_iff: "decode_u8 v m = Inr w \<longleftrightarrow> 0 \<le> v \<and> v < 2 ^ 8 \<and> w = word_of_int v"
  by (auto simp: decode_u8_def to_word_Some_iff)

lemma decode_u16_Inr_iff: "decode_u16 v m = Inr w \<longleftrightarrow> 0 \<le> v \<and> v < 2 ^ 16 \<and> w = word_of_int v"
  by (auto simp: decode_u16_def to_word_Some_iff)

lemmas decode_iffs = decode_u32_Inr_iff decode_u64_Inr_iff decode_u8_Inr_iff decode_u16_Inr_iff

lemma decode_u32_uint: "decode_u32 v field = Inr w \<Longrightarrow> uint w = v"
  by (auto simp: decode_u32_def dest: uint_of_to_word)

lemma decode_u64_uint: "decode_u64 v field = Inr w \<Longrightarrow> uint w = v"
  by (auto simp: decode_u64_def dest: uint_of_to_word)

text \<open>Identifiers that pass \<open>JobId::new\<close> encode, and encoding and decoding are inverse.\<close>

lemma decode_job_id_Inr_iff:
  "decode_job_id v = Inr i \<longleftrightarrow> 0 < v \<and> v < 2 ^ 63 \<and> i = JobId (word_of_int v)"
proof -
  have "0 < v \<and> v < 2 ^ 63 \<Longrightarrow> uint (word_of_int v :: u64) = v"
    by (simp add: uint_word_of_int take_bit_int_eq_self)
  moreover have "0 \<le> v \<and> v < 2 ^ 64 \<Longrightarrow> uint (word_of_int v :: u64) = v"
    by (simp add: uint_word_of_int take_bit_int_eq_self)
  ultimately show ?thesis
    by (auto simp: decode_job_id_def try_bind_Inr_iff decode_u64_Inr_iff job_id_new_def
        i64_max_le_iff word_zero_iff split: if_splits)
qed

lemma decode_schedule_id_Inr_iff:
  "decode_schedule_id v = Inr i \<longleftrightarrow> 0 < v \<and> v < 2 ^ 63 \<and> i = ScheduleId (word_of_int v)"
proof -
  have "0 < v \<and> v < 2 ^ 63 \<Longrightarrow> uint (word_of_int v :: u64) = v"
    by (simp add: uint_word_of_int take_bit_int_eq_self)
  moreover have "0 \<le> v \<and> v < 2 ^ 64 \<Longrightarrow> uint (word_of_int v :: u64) = v"
    by (simp add: uint_word_of_int take_bit_int_eq_self)
  ultimately show ?thesis
    by (auto simp: decode_schedule_id_def try_bind_Inr_iff decode_u64_Inr_iff schedule_id_new_def
        i64_max_le_iff word_zero_iff split: if_splits)
qed

lemma encode_decode_job_id: "decode_job_id v = Inr i \<Longrightarrow> encode_job_id i = Inr v"
  by (auto simp: decode_job_id_Inr_iff encode_job_id_def i64_range_def uint_word_of_int
      take_bit_int_eq_self)

lemma encode_decode_schedule_id: "decode_schedule_id v = Inr i \<Longrightarrow> encode_schedule_id i = Inr v"
  by (auto simp: decode_schedule_id_Inr_iff encode_schedule_id_def i64_range_def uint_word_of_int
      take_bit_int_eq_self)

lemma encode_job_id_Inr_iff: "encode_job_id i = Inr v \<longleftrightarrow> i64_range v \<and> v = uint (job_id_get i)"
  by (auto simp: encode_job_id_def)

lemma decode_encode_job_id:
  assumes "job_id_new v = Inr i" and "encode_job_id i = Inr n"
  shows "decode_job_id n = Inr i"
  using assms
  by (auto simp: job_id_new_def encode_job_id_Inr_iff decode_job_id_Inr_iff i64_max_le_iff
      word_zero_iff i64_range_def split: if_splits)

section \<open>Users\<close>

text \<open>\<open>UserId\<close> (\<open>auth_repository.rs\<close>): a positive \<open>BIGINT\<close>.\<close>

datatype user_id = UserId int

definition user_id_new :: "int \<Rightarrow> repository_error + user_id" where
  "user_id_new value =
     (if value \<le> 0 then Inl (InvalidData ''user ID must be a positive BIGINT'')
      else Inr (UserId value))"

fun user_id_get :: "user_id \<Rightarrow> int" where
  "user_id_get (UserId value) = value"

definition owner_user_id :: user_id where
  "owner_user_id = UserId 1"

text \<open>\<open>$n::BIGINT IS NULL OR owner_user_id = $n\<close>, the optional filter of the queries by owner.\<close>

definition owned_by :: "user_id option \<Rightarrow> int \<Rightarrow> bool" where
  "owned_by owner row_owner \<longleftrightarrow> null_or (\<lambda>u. row_owner = user_id_get u) owner"

section \<open>Artifacts\<close>

fun artifact_kind_as_str :: "artifact_kind \<Rightarrow> ustring" where
  "artifact_kind_as_str Input = lit ''input''"
| "artifact_kind_as_str Output = lit ''output''"

text \<open>The match on the kind column in \<open>TryFrom<ArtifactRow>\<close>.\<close>

definition artifact_kind_from_str :: "ustring \<Rightarrow> repository_error + artifact_kind" where
  "artifact_kind_from_str s =
     (if s = lit ''input'' then Inr Input
      else if s = lit ''output'' then Inr Output
      else Inl (InvalidData ''artifact kind is not recognized''))"

record artifact_record =
  art_id :: u64
  art_job_id :: job_id
  art_attempt_id :: "int option"
  art_source_id :: "u64 option"
  art_kind :: artifact_kind
  art_item_index :: u16
  art_storage_key :: ustring
  art_display_name :: ustring
  art_media_type :: ustring
  art_byte_size :: u64
  art_width :: u32
  art_height :: u32
  art_created_at :: timestamp

record artifact_sql_row =
  fr_id :: int
  fr_job_id :: int
  fr_attempt_id :: "int option"
  fr_source_artifact_id :: "int option"
  fr_kind :: ustring
  fr_item_index :: int
  fr_storage_key :: ustring
  fr_display_name :: ustring
  fr_media_type :: ustring
  fr_byte_size :: int
  fr_width :: int
  fr_height :: int
  fr_created_at :: timestamp

definition select_artifact :: "artifact_row \<Rightarrow> artifact_sql_row" where
  "select_artifact r =
     \<lparr>fr_id = f_id r, fr_job_id = f_job r, fr_attempt_id = f_attempt r,
      fr_source_artifact_id = f_source r, fr_kind = artifact_kind_as_str (f_kind r),
      fr_item_index = f_item_index r, fr_storage_key = f_storage_key r,
      fr_display_name = f_display_name r, fr_media_type = f_media_type r,
      fr_byte_size = f_byte_size r, fr_width = f_width r, fr_height = f_height r,
      fr_created_at = f_created_at r\<rparr>"

definition artifact_try_from :: "artifact_sql_row \<Rightarrow> repository_error + artifact_record" where
  "artifact_try_from row =
     try_bind (artifact_kind_from_str (fr_kind row)) (\<lambda>kind.
     if fr_media_type row \<notin> image_media_types
     then Inl (InvalidData ''artifact media type is not recognized'')
     else
     try_bind (decode_u64 (fr_id row) ''artifact ID'') (\<lambda>i.
     try_bind (decode_job_id (fr_job_id row)) (\<lambda>job.
     try_bind (opt_try (\<lambda>v. decode_u64 v ''source artifact ID'') (fr_source_artifact_id row)) (\<lambda>src.
     try_bind (decode_u16 (fr_item_index row) ''invalid item index'') (\<lambda>idx.
     try_bind (decode_u64 (fr_byte_size row) ''artifact byte size'') (\<lambda>size.
     try_bind (decode_u32 (fr_width row) ''artifact width'') (\<lambda>w.
     try_bind (decode_u32 (fr_height row) ''artifact height'') (\<lambda>h.
     Inr \<lparr>art_id = i, art_job_id = job, art_attempt_id = fr_attempt_id row, art_source_id = src,
          art_kind = kind, art_item_index = idx, art_storage_key = fr_storage_key row,
          art_display_name = fr_display_name row, art_media_type = fr_media_type row,
          art_byte_size = size, art_width = w, art_height = h,
          art_created_at = fr_created_at row\<rparr>))))))))"

text \<open>\<open>ORDER BY kind, item_index\<close>: the kind column is text, and \<open>'input' < 'output'\<close>.\<close>

definition artifact_order :: "artifact_row \<Rightarrow> bool \<times> int" where
  "artifact_order r = (f_kind r = Output, f_item_index r)"

definition load_artifacts :: "db \<Rightarrow> int \<Rightarrow> repository_error + artifact_record list" where
  "load_artifacts s job =
     collect_results (\<lambda>r. artifact_try_from (select_artifact r))
       (sort_key artifact_order (filter (\<lambda>r. f_job r = job) (artifacts s)))"

definition load_input_artifacts :: "db \<Rightarrow> int \<Rightarrow> repository_error + artifact_record list" where
  "load_input_artifacts s job =
     collect_results (\<lambda>r. artifact_try_from (select_artifact r))
       (sort_key f_item_index (filter (\<lambda>r. f_job r = job \<and> f_kind r = Input) (artifacts s)))"

section \<open>Attempts\<close>

fun attempt_status_as_str :: "attempt_status \<Rightarrow> ustring" where
  "attempt_status_as_str ARunning = lit ''running''"
| "attempt_status_as_str ASucceeded = lit ''succeeded''"
| "attempt_status_as_str AFailed = lit ''failed''"
| "attempt_status_as_str ACancelled = lit ''cancelled''"

text \<open>The match on the state column in \<open>TryFrom<AttemptRow>\<close>.\<close>

definition attempt_status_from_str :: "ustring \<Rightarrow> repository_error + attempt_status" where
  "attempt_status_from_str s =
     (if s = lit ''running'' then Inr ARunning
      else if s = lit ''succeeded'' then Inr ASucceeded
      else if s = lit ''failed'' then Inr AFailed
      else if s = lit ''cancelled'' then Inr ACancelled
      else Inl (InvalidData ''attempt state is not recognized''))"

record attempt_record =
  at_id :: int
  at_number :: u32
  at_status :: attempt_status
  at_progress_completed :: u32
  at_progress_total :: u32
  at_started_at :: timestamp
  at_finished_at :: "timestamp option"
  at_duration_ms :: "u64 option"
  at_queue_wait_ms :: u64
  at_encoding_duration_ms :: u64
  at_error_kind :: "ustring option"
  at_error_message :: "ustring option"
  at_worker_id :: "uuid option"
  at_worker_name :: "ustring option"
  at_lease_expires_at :: "timestamp option"

record attempt_sql_row =
  ar_id :: int
  ar_attempt_number :: int
  ar_state :: ustring
  ar_progress_completed :: int
  ar_progress_total :: int
  ar_started_at :: timestamp
  ar_finished_at :: "timestamp option"
  ar_duration_ms :: "int option"
  ar_queue_wait_ms :: int
  ar_encoding_duration_ms :: int
  ar_error_kind :: "ustring option"
  ar_error_message :: "ustring option"
  ar_worker_id :: "uuid option"
  ar_worker_name :: "ustring option"
  ar_lease_expires_at :: "timestamp option"

text \<open>The attempt joined with the name of its worker, if there is one (\<open>LEFT JOIN workers\<close>).\<close>

definition select_attempt :: "worker_row list \<Rightarrow> attempt_row \<Rightarrow> attempt_sql_row" where
  "select_attempt ws r =
     \<lparr>ar_id = a_id r, ar_attempt_number = a_number r,
      ar_state = attempt_status_as_str (a_state r),
      ar_progress_completed = a_progress_completed r, ar_progress_total = a_progress_total r,
      ar_started_at = a_started_at r, ar_finished_at = a_finished_at r,
      ar_duration_ms = a_duration_ms r, ar_queue_wait_ms = a_queue_wait_ms r,
      ar_encoding_duration_ms = a_encoding_duration_ms r, ar_error_kind = a_error_kind r,
      ar_error_message = a_error_message r, ar_worker_id = a_worker r,
      ar_worker_name = map_option w_name (fetch_optional (filter (\<lambda>w. Some (w_id w) = a_worker r) ws)),
      ar_lease_expires_at = a_lease_expires_at r\<rparr>"

definition attempt_try_from :: "attempt_sql_row \<Rightarrow> repository_error + attempt_record" where
  "attempt_try_from row =
     try_bind (attempt_status_from_str (ar_state row)) (\<lambda>status.
     try_bind (decode_u32 (ar_progress_completed row) ''attempt progress completed'') (\<lambda>completed.
     try_bind (decode_u32 (ar_progress_total row) ''attempt progress total'') (\<lambda>total.
     if total = 0 \<or> completed > total
     then Inl (InvalidData ''attempt progress violates its invariant'')
     else
     try_bind (decode_u32 (ar_attempt_number row) ''attempt number'') (\<lambda>number.
     try_bind (opt_try (\<lambda>v. decode_u64 v ''attempt duration'') (ar_duration_ms row)) (\<lambda>dur.
     try_bind (decode_u64 (ar_queue_wait_ms row) ''attempt queue wait'') (\<lambda>wait.
     try_bind (decode_u64 (ar_encoding_duration_ms row) ''attempt encoding duration'') (\<lambda>enc.
     Inr \<lparr>at_id = ar_id row, at_number = number, at_status = status,
          at_progress_completed = completed, at_progress_total = total,
          at_started_at = ar_started_at row, at_finished_at = ar_finished_at row,
          at_duration_ms = dur, at_queue_wait_ms = wait, at_encoding_duration_ms = enc,
          at_error_kind = ar_error_kind row, at_error_message = ar_error_message row,
          at_worker_id = ar_worker_id row, at_worker_name = ar_worker_name row,
          at_lease_expires_at = ar_lease_expires_at row\<rparr>)))))))"

definition load_attempts :: "db \<Rightarrow> int \<Rightarrow> repository_error + attempt_record list" where
  "load_attempts s job =
     collect_results (\<lambda>r. attempt_try_from (select_attempt (workers s) r))
       (sort_key a_number (filter (\<lambda>r. a_job r = job) (attempts s)))"

section \<open>Jobs\<close>

datatype job_settings = SDemoDelay u64 | SImageResize u32 u8

record job_record =
  rec_job :: job
  rec_settings :: job_settings
  rec_progress_completed :: u32
  rec_progress_total :: u32
  rec_result_message :: "ustring option"
  rec_result_duration_ms :: "u64 option"
  rec_failure_message :: "ustring option"
  rec_artifacts :: "artifact_record list"
  rec_attempts :: "attempt_record list"
  rec_available_at :: timestamp
  rec_max_attempts :: u32
  rec_retry_of :: "job_id option"
  rec_cancel_requested_at :: "timestamp option"
  rec_priority :: job_priority
  rec_schedule_id :: "schedule_id option"
  rec_scheduled_for :: "timestamp option"
  rec_created_at :: timestamp
  rec_started_at :: "timestamp option"
  rec_finished_at :: "timestamp option"

definition rec_inputs :: "job_record \<Rightarrow> artifact_record list" where
  "rec_inputs r = filter (\<lambda>f. art_kind f = Input) (rec_artifacts r)"

definition rec_outputs :: "job_record \<Rightarrow> artifact_record list" where
  "rec_outputs r = filter (\<lambda>f. art_kind f = Output) (rec_artifacts r)"

record job_sql_row =
  jr_id :: int
  jr_name :: ustring
  jr_job_type :: ustring
  jr_state :: ustring
  jr_progress_completed :: int
  jr_progress_total :: int
  jr_delay_ms :: int
  jr_max_width :: "int option"
  jr_jpeg_quality :: "int option"
  jr_result_message :: "ustring option"
  jr_result_duration_ms :: "int option"
  jr_failure_message :: "ustring option"
  jr_available_at :: timestamp
  jr_max_attempts :: int
  jr_retry_of_job_id :: "int option"
  jr_cancel_requested_at :: "timestamp option"
  jr_priority :: ustring
  jr_schedule_id :: "int option"
  jr_scheduled_for :: "timestamp option"
  jr_created_at :: timestamp
  jr_started_at :: "timestamp option"
  jr_finished_at :: "timestamp option"

definition select_job :: "job_row \<Rightarrow> job_sql_row" where
  "select_job r =
     \<lparr>jr_id = j_id r, jr_name = j_name r, jr_job_type = job_type_as_str (j_type r),
      jr_state = job_status_as_str (j_state r), jr_progress_completed = j_progress_completed r,
      jr_progress_total = j_progress_total r, jr_delay_ms = j_delay_ms r,
      jr_max_width = j_max_width r, jr_jpeg_quality = j_jpeg_quality r,
      jr_result_message = j_result_message r, jr_result_duration_ms = j_result_duration_ms r,
      jr_failure_message = j_failure_message r, jr_available_at = j_available_at r,
      jr_max_attempts = j_max_attempts r, jr_retry_of_job_id = j_retry_of r,
      jr_cancel_requested_at = j_cancel_requested_at r,
      jr_priority = job_priority_as_str (j_priority r), jr_schedule_id = j_schedule_id r,
      jr_scheduled_for = j_scheduled_for r, jr_created_at = j_created_at r,
      jr_started_at = j_started_at r, jr_finished_at = j_finished_at r\<rparr>"

definition max_attempts_limit :: u32 where
  "max_attempts_limit = 10"

definition job_settings_of :: "job_type \<Rightarrow> job_sql_row \<Rightarrow> repository_error + job_settings" where
  "job_settings_of ty row =
     (case ty of
        DemoDelay \<Rightarrow> try_bind (decode_u64 (jr_delay_ms row) ''delay_ms'') (\<lambda>d. Inr (SDemoDelay d))
      | ImageResize \<Rightarrow>
          try_bind (ok_or (InvalidData ''image job has no max width'') (jr_max_width row)) (\<lambda>w.
          try_bind (decode_u32 w ''max_width'') (\<lambda>w.
          try_bind (ok_or (InvalidData ''image job has no JPEG quality'') (jr_jpeg_quality row)) (\<lambda>q.
          try_bind (decode_u8 q ''invalid JPEG quality'') (\<lambda>q.
          Inr (SImageResize w q))))))"

definition try_into_record ::
  "job_sql_row \<Rightarrow> artifact_record list \<Rightarrow> attempt_record list \<Rightarrow> repository_error + job_record" where
  "try_into_record row arts atts =
     try_bind (decode_job_id (jr_id row)) (\<lambda>i.
     try_bind (map_err (\<lambda>e. InvalidData (job_name_error_display e)) (job_name_new (jr_name row))) (\<lambda>name.
     try_bind (map_err (\<lambda>_. InvalidData job_type_error_display) (job_type_from_str (jr_job_type row))) (\<lambda>ty.
     try_bind (map_err (\<lambda>_. InvalidData job_status_error_display) (job_status_from_str (jr_state row))) (\<lambda>status.
     try_bind (decode_u32 (jr_progress_completed row) ''progress_completed'') (\<lambda>completed.
     try_bind (decode_u32 (jr_progress_total row) ''progress_total'') (\<lambda>total.
     if total = 0 \<or> completed > total
     then Inl (InvalidData ''job progress violates its invariant'')
     else
     try_bind (decode_u32 (jr_max_attempts row) ''max_attempts'') (\<lambda>mx.
     if mx = 0 \<or> mx > max_attempts_limit
     then Inl (InvalidData ''max attempts violates its invariant'')
     else
     try_bind (map_err (\<lambda>_. InvalidData job_priority_error_display)
                 (job_priority_from_str (jr_priority row))) (\<lambda>priority.
     try_bind (opt_try decode_schedule_id (jr_schedule_id row)) (\<lambda>sched.
     if (sched = None) \<noteq> (jr_scheduled_for row = None)
     then Inl (InvalidData ''job schedule origin violates its invariant'')
     else
     try_bind (job_settings_of ty row) (\<lambda>settings.
     try_bind (opt_try (\<lambda>v. decode_u64 v ''result_duration_ms'') (jr_result_duration_ms row)) (\<lambda>dur.
     try_bind (opt_try decode_job_id (jr_retry_of_job_id row)) (\<lambda>retry.
     Inr \<lparr>rec_job = job_restore i name ty status, rec_settings = settings,
          rec_progress_completed = completed, rec_progress_total = total,
          rec_result_message = jr_result_message row, rec_result_duration_ms = dur,
          rec_failure_message = jr_failure_message row, rec_artifacts = arts, rec_attempts = atts,
          rec_available_at = jr_available_at row, rec_max_attempts = mx, rec_retry_of = retry,
          rec_cancel_requested_at = jr_cancel_requested_at row, rec_priority = priority,
          rec_schedule_id = sched, rec_scheduled_for = jr_scheduled_for row,
          rec_created_at = jr_created_at row, rec_started_at = jr_started_at row,
          rec_finished_at = jr_finished_at row\<rparr>))))))))))))"

section \<open>Stored rows convert\<close>

interpretation artifact_kind_codec: text_codec artifact_kind_as_str artifact_kind_from_str
proof
  show "artifact_kind_from_str (artifact_kind_as_str x) = Inr x" for x
    by (cases x) (simp_all add: artifact_kind_from_str_def)
  show "artifact_kind_from_str s = Inr x \<Longrightarrow> artifact_kind_as_str x = s" for s x
    by (auto simp: artifact_kind_from_str_def split: if_splits)
qed

interpretation attempt_status_codec: text_codec attempt_status_as_str attempt_status_from_str
proof
  show "attempt_status_from_str (attempt_status_as_str x) = Inr x" for x
    by (cases x) (simp_all add: attempt_status_from_str_def)
  show "attempt_status_from_str s = Inr x \<Longrightarrow> attempt_status_as_str x = s" for s x
    by (auto simp: attempt_status_from_str_def split: if_splits)
qed

text \<open>
  What the constraints of the table do not say and the repositories maintain: a job's name has
  a character that is not whitespace (the database only trims spaces), an image job has its
  settings (a null column passes the check), and references are positive.
\<close>

definition job_readable :: "job_row \<Rightarrow> bool" where
  "job_readable r \<longleftrightarrow>
     job_ok r \<and> 0 < j_id r \<and> (\<exists>c \<in> set (j_name r). \<not> is_whitespace c) \<and>
     (j_type r = ImageResize \<longrightarrow> j_max_width r \<noteq> None \<and> j_jpeg_quality r \<noteq> None) \<and>
     null_or (\<lambda>v. 0 < v \<and> i64_range v) (j_retry_of r) \<and>
     null_or (\<lambda>v. 0 < v \<and> i64_range v) (j_schedule_id r)"

definition artifact_readable :: "artifact_row \<Rightarrow> bool" where
  "artifact_readable r \<longleftrightarrow>
     artifact_ok r \<and> 0 < f_id r \<and> 0 < f_job r \<and> i64_range (f_job r) \<and>
     null_or (\<lambda>v. 0 < v \<and> i64_range v) (f_source r)"

lemma opt_try_total:
  "null_or (\<lambda>v. \<exists>y. f v = Inr y) m \<Longrightarrow> \<exists>r. opt_try f m = Inr r \<and> (r = None \<longleftrightarrow> m = None)"
  by (cases m) auto

lemma word32_le: "0 \<le> a \<Longrightarrow> a < 2 ^ 32 \<Longrightarrow> 0 \<le> b \<Longrightarrow> b < 2 ^ 32 \<Longrightarrow>
    ((word_of_int a :: u32) < word_of_int b) = (a < b)"
  by (simp add: word_less_def uint_word_of_int take_bit_int_eq_self)

lemma word32_eq0: "0 \<le> a \<Longrightarrow> a < 2 ^ 32 \<Longrightarrow> ((word_of_int a :: u32) = 0) = (a = 0)"
  by (simp add: word_uint_eq_iff uint_word_of_int take_bit_int_eq_self)

lemma artifact_try_from_total:
  assumes "artifact_readable r"
  shows "\<exists>x. artifact_try_from (select_artifact r) = Inr x"
proof -
  from assms obtain src where
    "opt_try (\<lambda>v. decode_u64 v ''source artifact ID'') (f_source r) = Inr src"
    using opt_try_total [of "\<lambda>v. decode_u64 v ''source artifact ID''" "f_source r"]
    by (cases "f_source r") (auto simp: artifact_readable_def decode_u64_Inr_iff i64_range_def)
  with assms show ?thesis
    by (auto simp: artifact_try_from_def select_artifact_def try_bind_Inr_iff decode_iffs
        artifact_kind_codec.parse_print decode_job_id_Inr_iff artifact_readable_def artifact_ok_def
        i64_range_def i32_range_def between_def)
qed

lemma attempt_try_from_total:
  assumes "attempt_ok r"
  shows "\<exists>x. attempt_try_from (select_attempt ws r) = Inr x"
proof -
  from assms obtain dur where
    "opt_try (\<lambda>v. decode_u64 v ''attempt duration'') (a_duration_ms r) = Inr dur"
    using opt_try_total [of "\<lambda>v. decode_u64 v ''attempt duration''" "a_duration_ms r"]
    by (cases "a_duration_ms r") (auto simp: attempt_ok_def decode_u64_Inr_iff i64_range_def)
  with assms show ?thesis
    by (auto simp: attempt_try_from_def select_attempt_def try_bind_Inr_iff decode_iffs
        attempt_status_codec.parse_print attempt_ok_def i64_range_def i32_range_def between_def
        word32_le word32_eq0)
qed

lemma job_settings_total:
  assumes "job_readable r"
  shows "\<exists>x. job_settings_of (j_type r) (select_job r) = Inr x"
  using assms
  by (cases "j_type r"; cases "j_max_width r"; cases "j_jpeg_quality r")
    (auto simp: job_settings_of_def select_job_def try_bind_Inr_iff decode_iffs job_readable_def
      job_ok_def between_def)

lemma try_into_record_total:
  assumes "job_readable r"
  shows "\<exists>x. try_into_record (select_job r) arts atts = Inr x \<and> rec_artifacts x = arts \<and>
     rec_attempts x = atts \<and> job_id_get (jb_id (rec_job x)) = word_of_int (j_id r) \<and>
     jb_status (rec_job x) = j_state r \<and> jb_type (rec_job x) = j_type r \<and>
     jb_name (rec_job x) = JobName (j_name r)"
proof -
  note r = assms [unfolded job_readable_def]
  from r have i: "decode_job_id (j_id r) = Inr (JobId (word_of_int (j_id r)))"
    by (simp add: decode_job_id_Inr_iff job_ok_def i64_range_def)
  from r have n: "job_name_new (j_name r) = Inr (JobName (j_name r))"
    by (simp add: job_name_new_Inr_iff job_ok_def max_job_name_length_def)
  from r obtain sched where
    sched: "opt_try decode_schedule_id (j_schedule_id r) = Inr sched" "sched = None \<longleftrightarrow> j_schedule_id r = None"
    using opt_try_total [of decode_schedule_id "j_schedule_id r"]
    by (cases "j_schedule_id r") (auto simp: decode_schedule_id_Inr_iff i64_range_def)
  from r obtain retry where retry: "opt_try decode_job_id (j_retry_of r) = Inr retry"
    using opt_try_total [of decode_job_id "j_retry_of r"]
    by (cases "j_retry_of r") (auto simp: decode_job_id_Inr_iff i64_range_def)
  from r obtain dur where
    dur: "opt_try (\<lambda>v. decode_u64 v ''result_duration_ms'') (j_result_duration_ms r) = Inr dur"
    using opt_try_total [of "\<lambda>v. decode_u64 v ''result_duration_ms''" "j_result_duration_ms r"]
    by (cases "j_result_duration_ms r") (auto simp: job_ok_def decode_u64_Inr_iff i64_range_def)
  from job_settings_total [OF assms] obtain st where
    st: "job_settings_of (j_type r) (select_job r) = Inr st" by blast
  have mx: "decode_u32 (j_max_attempts r) ''max_attempts'' = Inr (word_of_int (j_max_attempts r))"
    "(word_of_int (j_max_attempts r) :: u32) \<noteq> 0"
    "\<not> (word_of_int (j_max_attempts r) :: u32) > max_attempts_limit"
    using r by (auto simp: job_ok_def between_def decode_u32_Inr_iff max_attempts_limit_def
        word_less_def word_uint_eq_iff uint_word_of_int take_bit_int_eq_self)
  have pr: "decode_u32 (j_progress_completed r) ''progress_completed'' =
      Inr (word_of_int (j_progress_completed r))"
    "decode_u32 (j_progress_total r) ''progress_total'' = Inr (word_of_int (j_progress_total r))"
    "(word_of_int (j_progress_total r) :: u32) \<noteq> 0"
    "\<not> (word_of_int (j_progress_completed r) :: u32) > word_of_int (j_progress_total r)"
    using r by (auto simp: job_ok_def between_def decode_u32_Inr_iff i32_range_def word32_le word32_eq0)
  from r have origin: "(sched = None) = (j_scheduled_for r = None)"
    using sched(2) by (simp add: job_ok_def)
  show ?thesis
    using st
    by (simp add: try_into_record_def select_job_def i n sched(1) retry dur mx pr origin
        type_codec.parse_print status_codec.parse_print priority_codec.parse_print job_restore_def)
qed

end
