(* ===== verification/Queue.thy ===== *)
theory Queue
  imports Rows
begin

text \<open>
  The durable queue (\<open>crates/adapters/src/postgres.rs\<close>): creating and reading jobs, claiming the next
  one, and completing a demo job. \<open>CURRENT_TIMESTAMP\<close> is the argument \<open>now\<close>, the random fencing
  token an argument \<open>token\<close>, and the rows that \<open>FOR UPDATE SKIP LOCKED\<close> passes over because
  another transaction holds them a predicate \<open>locked\<close> on job identifiers. Operations that read several
  tables outside a transaction read one snapshot.
\<close>

section \<open>Creating and reading\<close>

definition demo_delay_ms :: int where
  "demo_delay_ms = 500"

definition result_message :: ustring where
  "result_message = lit ''demo delay completed''"

text \<open>The columns an \<open>INSERT INTO jobs\<close> leaves to their defaults.\<close>

definition default_job :: "timestamp \<Rightarrow> int \<Rightarrow> ustring \<Rightarrow> job_row" where
  "default_job now i name =
     \<lparr>j_id = i, j_name = name, j_type = DemoDelay, j_state = Queued, j_available_at = now,
      j_progress_completed = 0, j_progress_total = 1, j_delay_ms = 500, j_max_width = None,
      j_jpeg_quality = None, j_result_message = None, j_result_duration_ms = None,
      j_failure_message = None, j_max_attempts = 3, j_retry_of = None,
      j_cancel_requested_at = None, j_priority = Normal, j_schedule_id = None,
      j_scheduled_for = None, j_owner = 1, j_idempotency_key = None, j_fingerprint = None,
      j_outputs_expired_at = None, j_created_at = now, j_started_at = None,
      j_finished_at = None\<rparr>"

definition create :: "timestamp \<Rightarrow> job_name \<Rightarrow> job_record tx" where
  "create now name =
     tx_bind (insert_job (\<lambda>i. default_job now i (job_name_as_str name)\<lparr>j_delay_ms := demo_delay_ms\<rparr>)) (\<lambda>row.
     tx_lift (try_into_record (select_job row) [] []))"

definition read_job :: "db \<Rightarrow> job_row \<Rightarrow> repository_error + job_record" where
  "read_job s row =
     try_bind (load_artifacts s (j_id row)) (\<lambda>arts.
     try_bind (load_attempts s (j_id row)) (\<lambda>atts.
     try_into_record (select_job row) arts atts))"

definition list_with_owner :: "user_id option \<Rightarrow> job_record list tx" where
  "list_with_owner owner =
     (\<lambda>s. (collect_results (read_job s)
             (sort_key j_id (filter (\<lambda>r. owned_by owner (j_owner r)) (jobs s))), s))"

definition get_with_owner :: "job_id \<Rightarrow> user_id option \<Rightarrow> job_record option tx" where
  "get_with_owner i owner =
     tx_bind (tx_lift (encode_job_id i)) (\<lambda>raw.
     tx_bind (tx_select (\<lambda>s. fetch_optional
                 (filter (\<lambda>r. j_id r = raw \<and> owned_by owner (j_owner r)) (jobs s)))) (\<lambda>row.
     case row of
       None \<Rightarrow> tx_return None
     | Some row \<Rightarrow> (\<lambda>s. (try_bind (read_job s row) (\<lambda>r. Inr (Some r)), s))))"

section \<open>Claims\<close>

datatype claimed_work =
  WDemoDelay duration
| WImageResize u32 u8 "artifact_record list"

record claimed_job =
  cj_job_id :: job_id
  cj_attempt_id :: int
  cj_attempt_number :: u32
  cj_max_attempts :: u32
  cj_worker_id :: uuid
  cj_claim_token :: uuid
  cj_lease_expires_at :: timestamp
  cj_queue_wait :: duration
  cj_work :: claimed_work

text \<open>\<open>WHERE state IN ('queued', 'retry_waiting') AND available_at <= $1\<close> and the claim order.\<close>

definition claimable_at :: "timestamp \<Rightarrow> job_row \<Rightarrow> bool" where
  "claimable_at t r \<longleftrightarrow> j_state r \<in> claimable_states \<and> j_available_at r \<le> t"

definition claim_key :: "job_row \<Rightarrow> job_priority \<times> timestamp \<times> int" where
  "claim_key r = (j_priority r, j_available_at r, j_id r)"

text \<open>\<open>COALESCE(MAX(attempt_number), 0) + 1\<close>.\<close>

definition attempt_numbers :: "db \<Rightarrow> int \<Rightarrow> int list" where
  "attempt_numbers s job = List.map a_number (filter (\<lambda>a. a_job a = job) (attempts s))"

definition next_attempt_number :: "db \<Rightarrow> int \<Rightarrow> int" where
  "next_attempt_number s job =
     (let ns = attempt_numbers s job in (if ns = [] then 0 else Max (set ns)) + 1)"

definition claimed_work_of :: "db \<Rightarrow> job_row \<Rightarrow> repository_error + claimed_work" where
  "claimed_work_of s cand =
     (case j_type cand of
        DemoDelay \<Rightarrow> try_bind (decode_duration (j_delay_ms cand)) (\<lambda>d. Inr (WDemoDelay d))
      | ImageResize \<Rightarrow>
          try_bind (ok_or (InvalidData ''image job has no max width'') (j_max_width cand)) (\<lambda>w.
          try_bind (ok_or (InvalidData ''image job has no JPEG quality'') (j_jpeg_quality cand)) (\<lambda>q.
          try_bind (load_input_artifacts s (j_id cand)) (\<lambda>inputs.
          try_bind (ok_or (InvalidData ''image progress total is negative'')
                      (to_word (j_progress_total cand) :: u64 option)) (\<lambda>expected.
          if length inputs \<noteq> unat expected
          then Inl (InvalidData ''image input count does not match progress total'')
          else
          try_bind (decode_u32 w ''max_width'') (\<lambda>w.
          try_bind (decode_u8 q ''invalid JPEG quality'') (\<lambda>q.
          Inr (WImageResize w q inputs))))))))"

definition start_job :: "timestamp \<Rightarrow> job_row \<Rightarrow> job_row" where
  "start_job t r =
     r\<lparr>j_state := Running,
       j_started_at := (case j_started_at r of None \<Rightarrow> Some t | Some u \<Rightarrow> Some u),
       j_progress_completed := 0, j_result_message := None, j_result_duration_ms := None,
       j_failure_message := None, j_finished_at := None\<rparr>"

definition new_attempt ::
  "int \<Rightarrow> job_row \<Rightarrow> int \<Rightarrow> timestamp \<Rightarrow> worker_row \<Rightarrow> uuid \<Rightarrow> int \<Rightarrow> attempt_row" where
  "new_attempt i cand number t w token wait =
     \<lparr>a_id = i, a_job = j_id cand, a_number = number, a_state = ARunning,
      a_progress_completed = 0, a_progress_total = j_progress_total cand, a_started_at = t,
      a_finished_at = None, a_duration_ms = None, a_queue_wait_ms = wait,
      a_encoding_duration_ms = 0, a_error_kind = None, a_error_message = None,
      a_worker = Some (w_id w), a_token = Some token,
      a_lease_expires_at = Some (t + seconds (w_lease_seconds w))\<rparr>"

text \<open>A worker that may claim: registered, not stopped, and its heartbeat not expired.\<close>

definition worker_live :: "timestamp \<Rightarrow> worker_row \<Rightarrow> bool" where
  "worker_live t w \<longleftrightarrow> w_stopped_at w = None \<and> w_heartbeat_expires_at w > t"

definition claim_body ::
  "(int \<Rightarrow> bool) \<Rightarrow> uuid \<Rightarrow> uuid \<Rightarrow> timestamp \<Rightarrow>
   (job_id \<times> job_row \<times> int \<times> u64 \<times> attempt_row \<times> claimed_work) option tx" where
  "claim_body locked token worker_id claim_time =
     tx_bind (tx_select (\<lambda>s. first_by claim_key
                (filter (\<lambda>r. claimable_at claim_time r \<and> \<not> locked (j_id r)) (jobs s)))) (\<lambda>candidate.
     case candidate of
       None \<Rightarrow> tx_return None
     | Some cand \<Rightarrow>
     tx_bind (tx_lift (decode_job_id (j_id cand))) (\<lambda>job_id.
     tx_bind (tx_select (\<lambda>s. next_attempt_number s (j_id cand))) (\<lambda>number.
     tx_bind (tx_guard (number \<le> j_max_attempts cand) (InvalidData ''job has no remaining attempts'')) (\<lambda>_.
     tx_bind (tx_ok_or (InvalidData ''queue wait exceeds u64'')
                (to_word (max 0 (whole_milliseconds (claim_time - j_available_at cand))))) (\<lambda>wait.
     tx_bind (tx_ok_or (InvalidData ''queue wait exceeds BIGINT'') (to_signed i64_range (uint (wait :: u64)))) (\<lambda>wait_db.
     tx_bind (update_jobs (\<lambda>r. j_id r = j_id cand \<and> j_state r \<in> claimable_states) (start_job claim_time)) (\<lambda>updated.
     tx_bind (tx_lift (ensure_one_row (length updated) ''claim job'')) (\<lambda>_.
     tx_bind (tx_select (\<lambda>s. fetch_optional
                (filter (\<lambda>w. w_id w = worker_id \<and> worker_live claim_time w) (workers s)))) (\<lambda>worker.
     tx_bind (tx_ok_or (StateConflict ''claim job for inactive worker'') worker) (\<lambda>w.
     tx_bind (insert_attempt (\<lambda>i. new_attempt i cand number claim_time w token wait_db)) (\<lambda>attempt.
     tx_bind (\<lambda>s. (claimed_work_of s cand, s)) (\<lambda>work.
     tx_return (Some (job_id, cand, number, wait, attempt, work))))))))))))))"

definition claim_next_with_time ::
  "(int \<Rightarrow> bool) \<Rightarrow> timestamp \<Rightarrow> uuid \<Rightarrow> uuid \<Rightarrow> timestamp option \<Rightarrow> claimed_job option tx" where
  "claim_next_with_time locked now token worker_id as_of =
     (let claim_time = (case as_of of None \<Rightarrow> now | Some t \<Rightarrow> t) in
      tx_bind (transaction (claim_body locked token worker_id claim_time)) (\<lambda>claimed.
      case claimed of
        None \<Rightarrow> tx_return None
      | Some (job_id, cand, number, wait, attempt, work) \<Rightarrow>
        tx_bind (tx_lift (decode_u32 number ''attempt number'')) (\<lambda>n.
        tx_bind (tx_lift (decode_u32 (j_max_attempts cand) ''max attempts'')) (\<lambda>mx.
        tx_return (Some
          \<lparr>cj_job_id = job_id, cj_attempt_id = a_id attempt, cj_attempt_number = n,
           cj_max_attempts = mx, cj_worker_id = worker_id, cj_claim_token = token,
           cj_lease_expires_at = (case a_lease_expires_at attempt of Some l \<Rightarrow> l | None \<Rightarrow> claim_time),
           cj_queue_wait = from_millis (unat wait), cj_work = work\<rparr>)))))"

text \<open>
  The fencing condition of every write under a claim: \<open>id = $1 AND job_id = $2 AND state = 'running'
  AND worker_id = $3 AND claim_token = $4 AND lease_expires_at > CURRENT_TIMESTAMP\<close>.
\<close>

definition attempt_held :: "timestamp \<Rightarrow> claimed_job \<Rightarrow> int \<Rightarrow> attempt_row \<Rightarrow> bool" where
  "attempt_held now c job_id a \<longleftrightarrow>
     a_id a = cj_attempt_id c \<and> a_job a = job_id \<and> a_state a = ARunning \<and>
     a_worker a = Some (cj_worker_id c) \<and> a_token a = Some (cj_claim_token c) \<and>
     (\<exists>l \<in> set_option (a_lease_expires_at a). l > now)"

definition succeed_attempt :: "timestamp \<Rightarrow> int \<Rightarrow> attempt_row \<Rightarrow> attempt_row" where
  "succeed_attempt now duration_ms a =
     a\<lparr>a_state := ASucceeded, a_progress_completed := a_progress_total a,
       a_finished_at := Some now, a_duration_ms := Some duration_ms\<rparr>"

definition succeed_job :: "timestamp \<Rightarrow> int \<Rightarrow> ustring \<Rightarrow> job_row \<Rightarrow> job_row" where
  "succeed_job now duration_ms message r =
     r\<lparr>j_state := Succeeded, j_progress_completed := j_progress_total r,
       j_result_message := Some message, j_result_duration_ms := Some duration_ms,
       j_failure_message := None, j_finished_at := Some now\<rparr>"

definition is_demo_work :: "claimed_work \<Rightarrow> bool" where
  "is_demo_work w = (case w of WDemoDelay _ \<Rightarrow> True | WImageResize _ _ _ \<Rightarrow> False)"

definition complete :: "timestamp \<Rightarrow> claimed_job \<Rightarrow> duration \<Rightarrow> unit tx" where
  "complete now c dur =
     tx_bind (tx_guard (is_demo_work (cj_work c)) (InvalidData ''image job cannot use demo completion'')) (\<lambda>_.
     tx_bind (tx_ok_or (InvalidData ''worker duration exceeds BIGINT range'') (to_signed i64_range (as_millis dur))) (\<lambda>duration_ms.
     tx_bind (tx_lift (encode_job_id (cj_job_id c))) (\<lambda>job_id.
     transaction (
       tx_bind (update_attempts (attempt_held now c job_id) (succeed_attempt now duration_ms)) (\<lambda>attempt.
       tx_bind (tx_lift (ensure_claim_row (length attempt))) (\<lambda>_.
       tx_bind (update_jobs (\<lambda>r. j_id r = job_id \<and> j_state r = Running \<and> j_type r = DemoDelay)
                  (succeed_job now duration_ms result_message)) (\<lambda>job.
       tx_lift (ensure_one_row (length job) ''complete job''))))))))"

end
