(* ===== verification/QueueInv.thy ===== *)
theory QueueInv
  imports Queue
begin

text \<open>
  The invariant of the queue tables: what holds of every job row and the attempt rows that belong to
  it, beyond the constraints the database itself enforces. One predicate speaks of a job and its
  attempts; the lemmas lift a change of one job (and one of its attempts) to the whole database, so
  that each operation is shown to keep the invariant by looking at the rows it writes.
\<close>

section \<open>Replacing the row with a given key\<close>

definition put_row :: "('r \<Rightarrow> 'k) \<Rightarrow> 'r \<Rightarrow> 'r list \<Rightarrow> 'r list" where
  "put_row k r' rs = List.map (\<lambda>r. if k r = k r' then r' else r) rs"

lemma map_key_put_row [simp]: "List.map k (put_row k r' rs) = List.map k rs"
  by (simp add: put_row_def)

lemma keyed_put_row [simp]: "keyed k (put_row k r' rs) = keyed k rs"
  by (simp add: keyed_def)

lemma set_put_row:
  assumes "keyed k rs" and "r \<in> set rs" and "k r' = k r"
  shows "set (put_row k r' rs) = insert r' (set rs - {r})"
  using assms keyed_unique [OF assms(1)] by (auto simp: put_row_def)

lemma put_row_mem: "q \<in> set (put_row k r' rs) \<Longrightarrow> q = r' \<or> q \<in> set rs \<and> k q \<noteq> k r'"
  by (auto simp: put_row_def split: if_splits)

lemma put_row_mem_other: "q \<in> set rs \<Longrightarrow> k q \<noteq> k r' \<Longrightarrow> q \<in> set (put_row k r' rs)"
  by (auto simp: put_row_def)

lemma put_row_mem_self: "r \<in> set rs \<Longrightarrow> k r' = k r \<Longrightarrow> r' \<in> set (put_row k r' rs)"
  by (force simp: put_row_def)

lemma image_key_put_row [simp]: "k ` set (put_row k r' rs) = k ` set rs"
  by (metis map_key_put_row list.set_map)

text \<open>Another column that the replacement keeps is kept throughout the table.\<close>

lemma map_put_row_same:
  assumes "keyed k rs" and "r \<in> set rs" and "k r' = k r" and "g r' = g r"
  shows "List.map g (put_row k r' rs) = List.map g rs"
  using assms keyed_unique [OF assms(1)] by (auto simp: put_row_def)

lemma filter_put_row:
  assumes "keyed k rs" and "r \<in> set rs" and "k r' = k r" and "P r' = P r"
  shows "filter P (put_row k r' rs) = put_row k r' (filter P rs)"
proof -
  have "P (if k q = k r' then r' else q) = P q" if "q \<in> set rs" for q
    using that assms keyed_unique [OF assms(1)] by metis
  then have "filter (\<lambda>q. P (if k q = k r' then r' else q)) rs = filter P rs"
    by (rule filter_cong [OF refl])
  then show ?thesis by (simp add: put_row_def filter_map o_def)
qed

lemma put_row_absent: "k r' \<notin> k ` set rs \<Longrightarrow> put_row k r' rs = rs"
  unfolding put_row_def by (rule map_idI) (metis image_eqI)

text \<open>An \<open>UPDATE\<close> whose condition fixes the key, and that writes one row, replaces that row.\<close>

lemma update_where_put_row:
  assumes "keyed k rs" and "filter P rs = [r]" and "k (f r) = k r"
  shows "update_where P f rs = put_row k (f r) rs"
proof -
  from assms(2) have r: "r \<in> set rs" "P r" and only: "\<And>q. q \<in> set rs \<Longrightarrow> P q \<Longrightarrow> q = r"
    by (auto dest!: arg_cong [where f = set])
  have "(if P q then f q else q) = (if k q = k (f r) then f r else q)" if "q \<in> set rs" for q
    using that r only assms(3) keyed_unique [OF assms(1)] by metis
  then show ?thesis by (simp add: update_where_def put_row_def)
qed

lemma sql_update_one:
  assumes "sql_update ok get put P f s = (Inr hits, t)" and "length hits = 1"
    and "keyed k (get s)" and "\<And>r. P r \<Longrightarrow> k (f r) = k r"
  obtains r where "r \<in> set (get s)" and "P r" and "hits = [f r]" and "ok (f r)"
    and "t = put (put_row k (f r) (get s)) s"
proof -
  from assms(1,2) obtain r where r: "filter P (get s) = [r]" "hits = [f r]" "ok (f r)"
    by (auto simp: sql_update_Inr_iff length_Suc_conv)
  from r(1) have "r \<in> set (get s)" "P r"
    by (auto dest!: arg_cong [where f = set])
  moreover have "update_where P f (get s) = put_row k (f r) (get s)"
    using assms(3,4) r(1) \<open>P r\<close> by (intro update_where_put_row) auto
  ultimately show thesis
    using that r assms(1) by (auto simp: sql_update_Inr_iff)
qed

section \<open>A job and its attempts\<close>

definition attempts_of :: "db \<Rightarrow> int \<Rightarrow> attempt_row list" where
  "attempts_of s i = filter (\<lambda>a. a_job a = i) (attempts s)"

definition running :: "attempt_row \<Rightarrow> bool" where
  "running a \<longleftrightarrow> a_state a = ARunning"

text \<open>
  A job is readable; its attempts are numbered up to its limit, and below it while the job waits to be
  claimed; it is held exactly while one of its attempts runs, and then only one runs, the last one, with
  the job's progress; it is finished exactly in a terminal state; a cancelled job, or one whose
  cancellation is pending, has the time of the request; it has succeeded exactly when one of its
  attempts has, with its progress complete; a queued job has not been attempted.
\<close>

definition job_inv :: "job_row \<Rightarrow> attempt_row list \<Rightarrow> bool" where
  "job_inv j as \<longleftrightarrow>
     job_readable j \<and>
     (\<forall>a \<in> set as. attempt_ok a \<and> a_number a \<le> j_max_attempts j) \<and>
     (j_state j \<in> claimable_states \<longrightarrow> (\<forall>a \<in> set as. a_number a < j_max_attempts j)) \<and>
     (j_state j \<in> held_states \<longleftrightarrow> (\<exists>a \<in> set as. running a)) \<and>
     (\<forall>a \<in> set as. \<forall>b \<in> set as. running a \<and> running b \<longrightarrow> a = b) \<and>
     (\<forall>a \<in> set as. running a \<longrightarrow>
        a_progress_total a = j_progress_total j \<and> a_progress_completed a = j_progress_completed j \<and>
        (\<forall>b \<in> set as. a_number b \<le> a_number a)) \<and>
     (j_state j \<in> terminal_states \<longleftrightarrow> j_finished_at j \<noteq> None) \<and>
     (j_state j \<in> {CancelRequested, Cancelled} \<longrightarrow> j_cancel_requested_at j \<noteq> None) \<and>
     (j_state j = Succeeded \<longleftrightarrow> (\<exists>a \<in> set as. a_state a = ASucceeded)) \<and>
     (j_state j = Succeeded \<longrightarrow> j_progress_completed j = j_progress_total j) \<and>
     (j_state j = Queued \<longrightarrow> as = [])"

text \<open>Its parts, one at a time.\<close>

lemma job_inv_readable: "job_inv j as \<Longrightarrow> job_readable j"
  unfolding job_inv_def by blast

lemma job_inv_ok: "job_inv j as \<Longrightarrow> job_ok j"
  using job_inv_readable by (simp add: job_readable_def)

lemma job_inv_attempts: "job_inv j as \<Longrightarrow> \<forall>a \<in> set as. attempt_ok a \<and> a_number a \<le> j_max_attempts j"
  unfolding job_inv_def by blast

lemma job_inv_claimable:
  "job_inv j as \<Longrightarrow> j_state j \<in> claimable_states \<Longrightarrow> \<forall>a \<in> set as. a_number a < j_max_attempts j"
  unfolding job_inv_def by blast

lemma job_inv_held: "job_inv j as \<Longrightarrow> j_state j \<in> held_states \<longleftrightarrow> (\<exists>a \<in> set as. running a)"
  unfolding job_inv_def by blast

lemma job_inv_not_running:
  "job_inv j as \<Longrightarrow> j_state j \<notin> held_states \<Longrightarrow> a \<in> set as \<Longrightarrow> \<not> running a"
  unfolding job_inv_def by blast

lemma job_inv_one_running:
  "job_inv j as \<Longrightarrow> a \<in> set as \<Longrightarrow> b \<in> set as \<Longrightarrow> running a \<Longrightarrow> running b \<Longrightarrow> a = b"
  unfolding job_inv_def by blast

lemma job_inv_running:
  assumes "job_inv j as" and "a \<in> set as" and "running a"
  shows "j_state j \<in> held_states" and "a_progress_total a = j_progress_total j"
    and "a_progress_completed a = j_progress_completed j"
    and "\<forall>b \<in> set as. a_number b \<le> a_number a"
  using assms unfolding job_inv_def by blast+

lemma job_inv_terminal: "job_inv j as \<Longrightarrow> j_state j \<in> terminal_states \<longleftrightarrow> j_finished_at j \<noteq> None"
  unfolding job_inv_def by blast

lemma job_inv_cancel:
  "job_inv j as \<Longrightarrow> j_state j \<in> {CancelRequested, Cancelled} \<Longrightarrow> j_cancel_requested_at j \<noteq> None"
  unfolding job_inv_def by blast

lemma job_inv_succeeded:
  "job_inv j as \<Longrightarrow> j_state j = Succeeded \<longleftrightarrow> (\<exists>a \<in> set as. a_state a = ASucceeded)"
  unfolding job_inv_def by blast

lemma job_inv_complete: "job_inv j as \<Longrightarrow> j_state j = Succeeded \<Longrightarrow> j_progress_completed j = j_progress_total j"
  unfolding job_inv_def by blast

lemma job_inv_queued: "job_inv j as \<Longrightarrow> j_state j = Queued \<Longrightarrow> as = []"
  unfolding job_inv_def by blast

definition unique_tokens :: "attempt_row set \<Rightarrow> bool" where
  "unique_tokens A \<longleftrightarrow> (\<forall>x \<in> A. \<forall>y \<in> A. a_token x \<noteq> None \<longrightarrow> a_token x = a_token y \<longrightarrow> x = y)"

lemma unique_tokens_insert:
  "unique_tokens A \<Longrightarrow> \<forall>b \<in> A. a_token a \<noteq> None \<longrightarrow> a_token b \<noteq> a_token a \<Longrightarrow> unique_tokens (insert a A)"
  unfolding unique_tokens_def by (metis insert_iff)

lemma unique_tokens_replace:
  assumes "unique_tokens A" and "a \<in> A" and "a_token a' = a_token a"
  shows "unique_tokens (insert a' (A - {a}))"
proof (rule unique_tokens_insert)
  show "unique_tokens (A - {a})" using assms(1) by (auto simp: unique_tokens_def)
  show "\<forall>b \<in> A - {a}. a_token a' \<noteq> None \<longrightarrow> a_token b \<noteq> a_token a'"
    using assms unfolding unique_tokens_def by (metis Diff_iff insertI1)
qed

definition tables_inv :: "db \<Rightarrow> bool" where
  "tables_inv s \<longleftrightarrow>
     keyed j_id (jobs s) \<and> keyed a_id (attempts s) \<and>
     keyed (\<lambda>a. (a_job a, a_number a)) (attempts s) \<and>
     unique_tokens (set (attempts s)) \<and>
     (\<forall>i \<in> j_id ` set (jobs s). i < seqs s Jobs) \<and> 0 < seqs s Jobs \<and>
     (\<forall>i \<in> a_id ` set (attempts s). i < seqs s Attempts) \<and> 0 < seqs s Attempts \<and>
     a_job ` set (attempts s) \<subseteq> j_id ` set (jobs s)"

definition queue_inv :: "db \<Rightarrow> bool" where
  "queue_inv s \<longleftrightarrow> tables_inv s \<and> (\<forall>j \<in> set (jobs s). job_inv j (attempts_of s (j_id j)))"

lemma queue_inv_job: "queue_inv s \<Longrightarrow> j \<in> set (jobs s) \<Longrightarrow> job_inv j (attempts_of s (j_id j))"
  by (simp add: queue_inv_def)

lemma queue_inv_keyed:
  "queue_inv s \<Longrightarrow> keyed j_id (jobs s)" "queue_inv s \<Longrightarrow> keyed a_id (attempts s)"
  by (simp_all add: queue_inv_def tables_inv_def)

lemma queue_inv_same_rows:
  assumes "queue_inv s" and "same_rows s t" and "seqs s Jobs \<le> seqs t Jobs"
    and "seqs s Attempts \<le> seqs t Attempts"
  shows "queue_inv t"
  using assms same_rows_fields(1,2) [OF assms(2)]
  by (force simp: queue_inv_def tables_inv_def attempts_of_def)

text \<open>The attempt's job exists, and the attempt is among that job's.\<close>

lemma attempt_job:
  assumes "queue_inv s" and "a \<in> set (attempts s)"
  obtains j where "j \<in> set (jobs s)" and "j_id j = a_job a" and "a \<in> set (attempts_of s (j_id j))"
  using assms by (auto simp: queue_inv_def tables_inv_def attempts_of_def)

lemma keyed_attempts_of: "queue_inv s \<Longrightarrow> keyed a_id (attempts_of s i)"
  by (simp add: attempts_of_def keyed_filter queue_inv_keyed)

section \<open>Changing one job\<close>

lemma queue_inv_put:
  assumes inv: "queue_inv s"
    and j: "j \<in> set (jobs s)" "j_id j' = j_id j"
    and a: "a \<in> set (attempts s)" "a_job a = j_id j" "a_id a' = a_id a" "a_job a' = a_job a"
      "a_number a' = a_number a" "a_token a' = a_token a"
    and t: "jobs t = put_row j_id j' (jobs s)" "attempts t = put_row a_id a' (attempts s)"
      "seqs t = seqs s"
    and new: "job_inv j' (put_row a_id a' (attempts_of s (j_id j)))"
  shows "queue_inv t"
proof -
  have kj: "keyed j_id (jobs s)" and ka: "keyed a_id (attempts s)"
    using inv by (simp_all add: queue_inv_keyed)
  have tab: "tables_inv s" using inv by (simp add: queue_inv_def)
  have sa: "set (attempts t) = insert a' (set (attempts s) - {a})"
    using set_put_row [OF ka a(1) a(3)] t(2) by simp
  have numbers: "keyed (\<lambda>a. (a_job a, a_number a)) (attempts t)"
    using map_put_row_same [OF ka a(1) a(3), of "\<lambda>a. (a_job a, a_number a)"] a t(2) tab
    by (simp add: keyed_def tables_inv_def)
  have owners: "a_job ` set (attempts t) = a_job ` set (attempts s)"
    using map_put_row_same [OF ka a(1) a(3), of a_job] a t(2) by (metis list.set_map)
  have tokens: "unique_tokens (set (attempts t))"
    unfolding sa using tab a(1,6) by (intro unique_tokens_replace) (simp_all add: tables_inv_def)
  have "tables_inv t"
    using tab numbers tokens owners t by (simp add: tables_inv_def)
  moreover have "job_inv r (attempts_of t (j_id r))" if r: "r \<in> set (jobs t)" for r
  proof (cases "j_id r = j_id j")
    case True
    with r t(1) j kj have "r = j'" by (auto simp: put_row_def split: if_splits)
    moreover have "attempts_of t (j_id j) = put_row a_id a' (attempts_of s (j_id j))"
      using filter_put_row [OF ka a(1) a(3), of "\<lambda>x. a_job x = j_id j"] a t(2)
      by (simp add: attempts_of_def)
    ultimately show ?thesis using new j(2) by simp
  next
    case False
    with r t(1) j have mem: "r \<in> set (jobs s)" by (auto simp: put_row_def split: if_splits)
    have "a_id b \<noteq> a_id a'" if "b \<in> set (attempts_of s (j_id r))" for b
    proof
      assume "a_id b = a_id a'"
      moreover from that have "b \<in> set (attempts s)" "a_job b = j_id r"
        by (simp_all add: attempts_of_def)
      ultimately have "b = a" using keyed_unique [OF ka _ a(1)] a(3) by metis
      with \<open>a_job b = j_id r\<close> a(2) False show False by simp
    qed
    then have "a_id a' \<notin> a_id ` set (attempts_of s (j_id r))" by (metis imageE)
    then have "attempts_of t (j_id r) = attempts_of s (j_id r)"
      using filter_put_row [OF ka a(1) a(3), of "\<lambda>x. a_job x = j_id r"] a t(2)
      by (simp add: attempts_of_def put_row_absent)
    with queue_inv_job [OF inv mem] show ?thesis by simp
  qed
  ultimately show ?thesis by (simp add: queue_inv_def)
qed

text \<open>Special cases: only the job row changes, or only the attempt row.\<close>

lemma queue_inv_put_job:
  assumes inv: "queue_inv s" and j: "j \<in> set (jobs s)" "j_id j' = j_id j"
    and t: "jobs t = put_row j_id j' (jobs s)" "attempts t = attempts s" "seqs t = seqs s"
    and new: "job_inv j' (attempts_of s (j_id j))"
  shows "queue_inv t"
proof -
  have kj: "keyed j_id (jobs s)" using inv by (simp add: queue_inv_keyed)
  have "tables_inv t"
    using inv t by (simp add: queue_inv_def tables_inv_def)
  moreover have "job_inv r (attempts_of t (j_id r))" if r: "r \<in> set (jobs t)" for r
  proof -
    have ats: "attempts_of t i = attempts_of s i" for i
      using t(2) by (simp add: attempts_of_def)
    from r t(1) have "r \<in> set (put_row j_id j' (jobs s))" by simp
    then consider "r = j'" | "r \<in> set (jobs s)" by (auto dest: put_row_mem)
    then show ?thesis
    proof cases
      case 1
      with new j(2) show ?thesis by (simp add: ats)
    next
      case 2
      with queue_inv_job [OF inv] show ?thesis by (simp add: ats)
    qed
  qed
  ultimately show ?thesis by (simp add: queue_inv_def)
qed

lemma put_row_self:
  assumes "keyed k rs" and "r \<in> set rs"
  shows "put_row k r rs = rs"
  using assms keyed_unique [OF assms(1)] by (auto simp: put_row_def intro!: map_idI)

lemma queue_inv_put_attempt:
  assumes inv: "queue_inv s" and j: "j \<in> set (jobs s)"
    and a: "a \<in> set (attempts s)" "a_job a = j_id j" "a_id a' = a_id a" "a_job a' = a_job a"
      "a_number a' = a_number a" "a_token a' = a_token a"
    and t: "jobs t = jobs s" "attempts t = put_row a_id a' (attempts s)" "seqs t = seqs s"
    and new: "job_inv j (put_row a_id a' (attempts_of s (j_id j)))"
  shows "queue_inv t"
  by (rule queue_inv_put [OF inv j refl a _ t(2,3) new])
    (use inv j t in \<open>simp add: put_row_self queue_inv_keyed\<close>)

text \<open>A new job without attempts, and a new attempt of a job that changes with it.\<close>

lemma queue_inv_add_job:
  assumes inv: "queue_inv s" and id: "j_id j = seqs s Jobs"
    and t: "jobs t = jobs s @ [j]" "attempts t = attempts s" "seqs t Jobs = seqs s Jobs + 1"
      "seqs t Attempts = seqs s Attempts"
    and new: "job_inv j []"
  shows "queue_inv t"
proof -
  have "attempts_of s (seqs s Jobs) = []"
    using inv by (fastforce simp: queue_inv_def tables_inv_def attempts_of_def filter_empty_conv)
  then show ?thesis
    using inv t new id
    by (auto simp: queue_inv_def tables_inv_def attempts_of_def keyed_append1)
qed

lemma queue_inv_add_attempt:
  assumes inv: "queue_inv s"
    and j: "j \<in> set (jobs s)" "j_id j' = j_id j"
    and a: "a_job a = j_id j" "a_id a = seqs s Attempts"
      "\<forall>b \<in> set (attempts_of s (j_id j)). a_number b \<noteq> a_number a"
      "\<forall>b \<in> set (attempts s). a_token a \<noteq> None \<longrightarrow> a_token b \<noteq> a_token a"
    and t: "jobs t = put_row j_id j' (jobs s)" "attempts t = attempts s @ [a]"
      "seqs t Jobs = seqs s Jobs" "seqs t Attempts = seqs s Attempts + 1"
    and new: "job_inv j' (attempts_of s (j_id j) @ [a])"
  shows "queue_inv t"
proof -
  have kj: "keyed j_id (jobs s)" and tab: "tables_inv s"
    using inv by (simp_all add: queue_inv_keyed queue_inv_def)
  have tokens: "unique_tokens (set (attempts t))"
    using unique_tokens_insert [of "set (attempts s)" a] tab a(4) t(2) by (simp add: tables_inv_def)
  have jid: "j_id j \<in> j_id ` set (jobs s)" using j(1) by simp
  have ids: "\<forall>b \<in> set (attempts s). a_id b \<noteq> a_id a"
    using tab a(2) by (auto simp: tables_inv_def)
  have nums: "\<forall>b \<in> set (attempts s). (a_job b, a_number b) \<noteq> (a_job a, a_number a)"
    using a(1,3) by (auto simp: attempts_of_def)
  have "tables_inv t"
    using tab tokens t jid ids nums a(1,2)
    unfolding tables_inv_def by (auto simp: keyed_append1)
  moreover have "job_inv r (attempts_of t (j_id r))" if r: "r \<in> set (jobs t)" for r
  proof -
    from r t(1) have "r \<in> set (put_row j_id j' (jobs s))" by simp
    then consider "r = j'" | "r \<in> set (jobs s)" "j_id r \<noteq> j_id j"
      using j(2) by (auto dest: put_row_mem)
    then show ?thesis
    proof cases
      case 1
      have "attempts_of t (j_id j) = attempts_of s (j_id j) @ [a]"
        using t(2) a(1) by (simp add: attempts_of_def)
      with 1 new j(2) show ?thesis by simp
    next
      case 2
      then have "attempts_of t (j_id r) = attempts_of s (j_id r)"
        using t(2) a(1) by (simp add: attempts_of_def)
      with queue_inv_job [OF inv 2(1)] show ?thesis by simp
    qed
  qed
  ultimately show ?thesis by (simp add: queue_inv_def)
qed

section \<open>How a held job moves on\<close>

text \<open>
  The running attempt closes and the job leaves the held states: this is completion, failure,
  retry, cancellation and reclamation. What the new rows must satisfy is local to them.
\<close>

lemma job_inv_close:
  assumes inv: "job_inv j as" and k: "keyed a_id as" and a: "a \<in> set as" "running a"
    and a': "a_id a' = a_id a" "a_number a' = a_number a" "\<not> running a'" "attempt_ok a'"
    and j': "job_readable j'" "j_max_attempts j' = j_max_attempts j"
      "j_state j' \<notin> held_states" "j_state j' \<noteq> Queued"
      "j_state j' = RetryWaiting \<longrightarrow> a_number a < j_max_attempts j"
      "j_state j' \<in> terminal_states \<longleftrightarrow> j_finished_at j' \<noteq> None"
      "j_state j' = Cancelled \<longrightarrow> j_cancel_requested_at j' \<noteq> None"
      "j_state j' = Succeeded \<longleftrightarrow> a_state a' = ASucceeded"
      "j_state j' = Succeeded \<longrightarrow> j_progress_completed j' = j_progress_total j'"
  shows "job_inv j' (put_row a_id a' as)"
proof -
  have s: "set (put_row a_id a' as) = insert a' (set as - {a})"
    by (rule set_put_row [OF k a(1) a'(1)])
  have last: "\<forall>b \<in> set as. a_number b \<le> a_number a"
    and only: "\<forall>b \<in> set as. running b \<longrightarrow> b = a"
    using inv a unfolding job_inv_def by blast+
  have held: "j_state j \<in> held_states"
    using inv a unfolding job_inv_def by blast
  then have nosucc: "\<forall>b \<in> set as. a_state b \<noteq> ASucceeded"
    using inv unfolding job_inv_def by (auto simp: held_states_def)
  have nums: "\<forall>b \<in> set (put_row a_id a' as). attempt_ok b \<and> a_number b \<le> j_max_attempts j'"
    using inv a a' j'(2) unfolding s job_inv_def by auto
  have "j_state j' \<in> claimable_states \<Longrightarrow> \<forall>b \<in> set (put_row a_id a' as). a_number b < j_max_attempts j'"
    using j' last a'(2) unfolding s by (auto simp: claimable_states_def)
  then show ?thesis
    using nums j' a' only nosucc held
    unfolding job_inv_def s held_states_def by (cases "j_state j'") auto
qed

text \<open>A job row rewritten without changing what the invariant speaks of.\<close>

lemma job_inv_rewrite:
  assumes "job_inv j as" and "job_readable j'" and "j_max_attempts j' = j_max_attempts j"
    and "j_state j' = j_state j" and "j_progress_total j' = j_progress_total j"
    and "j_progress_completed j' = j_progress_completed j"
    and "(j_finished_at j' = None) = (j_finished_at j = None)"
    and "j_cancel_requested_at j \<noteq> None \<longrightarrow> j_cancel_requested_at j' \<noteq> None"
  shows "job_inv j' as"
  using assms unfolding job_inv_def by auto

lemma job_readable_frame:
  assumes "job_readable r" and "job_ok r'" and "j_id r' = j_id r" and "j_name r' = j_name r"
    and "j_type r' = j_type r" and "j_max_width r' = j_max_width r"
    and "j_jpeg_quality r' = j_jpeg_quality r" and "j_retry_of r' = j_retry_of r"
    and "j_schedule_id r' = j_schedule_id r"
  shows "job_readable r'"
  using assms by (simp add: job_readable_def)

section \<open>The writes of an operation under a claim\<close>

interpretation queue: tx_invariant queue_inv
  by unfold_locales
    (rule queue_inv_same_rows [OF _ same_rows_seqs], simp_all)

lemma attempt_held_running: "attempt_held now c i a \<Longrightarrow> running a"
  by (simp add: attempt_held_def running_def)

lemma held_attempt_update:
  assumes inv: "queue_inv s"
    and upd: "update_attempts P F s = (Inr hits, u)" "length hits = 1"
    and P: "\<And>a. P a \<Longrightarrow> a_job a = i" and F: "\<And>a. a_id (F a) = a_id a"
  obtains a j where "a \<in> set (attempts s)" and "P a" and "a_job a = i"
    and "a \<in> set (attempts_of s i)" and "j \<in> set (jobs s)" and "j_id j = i"
    and "job_inv j (attempts_of s i)" and "attempt_ok (F a)" and "hits = [F a]"
    and "u = set_attempts (put_row a_id (F a) (attempts s)) s"
proof -
  from upd inv F obtain a where a: "a \<in> set (attempts s)" "P a" "hits = [F a]" "attempt_ok (F a)"
      "u = set_attempts (put_row a_id (F a) (attempts s)) s"
    unfolding update_attempts_def
    by (elim sql_update_one [where k = a_id]) (auto simp: queue_inv_keyed)
  from attempt_job [OF inv a(1)] obtain j where
    "j \<in> set (jobs s)" "j_id j = a_job a" "a \<in> set (attempts_of s (j_id j))" .
  with a that P [OF a(2)] queue_inv_job [OF inv] show thesis by metis
qed

lemma job_row_update:
  assumes k: "keyed j_id (jobs s)"
    and upd: "update_jobs P G s = (Inr hits, t)" "length hits = 1"
    and P: "\<And>r. P r \<Longrightarrow> j_id r = i" and G: "\<And>r. j_id (G r) = j_id r"
    and j: "j \<in> set (jobs s)" "j_id j = i"
  shows "P j" and "hits = [G j]" and "job_ok (G j)"
    and "t = set_jobs (put_row j_id (G j) (jobs s)) s"
proof -
  from upd k G obtain r where r: "r \<in> set (jobs s)" "P r" "hits = [G r]" "job_ok (G r)"
      "t = set_jobs (put_row j_id (G r) (jobs s)) s"
    unfolding update_jobs_def by (elim sql_update_one [where k = j_id]) auto
  with keyed_unique [OF k r(1) j(1)] P [OF r(2)] j(2) have "r = j" by simp
  with r show "P j" "hits = [G j]" "job_ok (G j)"
    "t = set_jobs (put_row j_id (G j) (jobs s)) s" by simp_all
qed

lemma update_jobs_by_id:
  assumes "keyed j_id (jobs s)" and "update_jobs P G s = (Inr hits, t)" and "\<And>r. P r \<Longrightarrow> j_id r = i"
    and "hits \<noteq> []"
  shows "length hits = 1"
proof -
  have hits: "hits = List.map G (filter P (jobs s))"
    using assms(2) by (simp add: update_jobs_def sql_update_Inr_iff)
  from assms(1,3) show ?thesis
    by (rule filter_keyed_cases [where P = P]) (use hits assms(4) in simp_all)
qed

lemma update_attempts_jobs: "update_attempts P F s = (Inr hits, t) \<Longrightarrow> jobs t = jobs s"
  by (auto simp: update_attempts_def sql_update_Inr_iff set_table_defs)

lemma claim_write:
  assumes inv: "queue_inv s"
    and att: "update_attempts P F s = (Inr as, u)" "length as = 1"
    and job: "update_jobs Q G u = (Inr js, t)" "length js = 1"
    and P: "\<And>a. P a \<Longrightarrow> a_job a = i" and Q: "\<And>r. Q r \<Longrightarrow> j_id r = i"
    and F: "\<And>a. a_id (F a) = a_id a" "\<And>a. a_job (F a) = a_job a"
      "\<And>a. a_number (F a) = a_number a" "\<And>a. a_token (F a) = a_token a"
    and G: "\<And>r. j_id (G r) = j_id r"
    and new: "\<And>a j. \<lbrakk>job_inv j (attempts_of s i); keyed a_id (attempts_of s i); P a;
        a \<in> set (attempts_of s i); Q j; attempt_ok (F a); job_ok (G j); j_id j = i;
        j \<in> set (jobs s)\<rbrakk>
      \<Longrightarrow> job_inv (G j) (put_row a_id (F a) (attempts_of s i))"
  shows "queue_inv t"
proof -
  from held_attempt_update [OF inv att P F(1)] obtain a j where
    a: "a \<in> set (attempts s)" "P a" "a_job a = i" "a \<in> set (attempts_of s i)" "attempt_ok (F a)"
    and j: "j \<in> set (jobs s)" "j_id j = i" "job_inv j (attempts_of s i)"
    and u: "u = set_attempts (put_row a_id (F a) (attempts s)) s" by metis
  have ju: "jobs u = jobs s" using u by (simp add: set_table_defs)
  note row = job_row_update [where s = u and j = j, unfolded ju, OF queue_inv_keyed(1) [OF inv] job Q G j(1,2)]
  have "job_inv (G j) (put_row a_id (F a) (attempts_of s (j_id j)))"
    using new [OF j(3) keyed_attempts_of [OF inv] a(2,4) row(1) a(5) row(3) j(2,1)] j(2) by simp
  then show ?thesis
    using row(4) u by (intro queue_inv_put [OF inv j(1) G a(1)])
      (simp_all add: F a(3) j(2) set_table_defs)
qed

section \<open>Creating, claiming and completing keep the invariant\<close>

lemma insert_job_Inr:
  assumes "insert_job mk s = (Inr r, t)"
  shows "r = mk (seqs s Jobs)" and "job_ok r" and "job_insert_error s r = None"
    and "jobs t = jobs s @ [r]" and "attempts t = attempts s" and "artifacts t = artifacts s"
    and "workers t = workers s" and "schedules t = schedules s" and "occurrences t = occurrences s"
    and "seqs t = (seqs s)(Jobs := seqs s Jobs + 1)" and "schedule_inputs t = schedule_inputs s"
  using assms
  by (auto simp: insert_job_def sql_insert_Inr_iff set_table_defs job_insert_error_def split: if_splits)

lemma insert_attempt_Inr:
  assumes "insert_attempt mk s = (Inr r, t)"
  shows "r = mk (seqs s Attempts)" and "attempt_ok r"
    and "\<forall>q \<in> set (attempts s). a_token r \<noteq> None \<longrightarrow> a_token q \<noteq> a_token r"
    and "\<forall>q \<in> set (attempts s). a_job q = a_job r \<longrightarrow> a_number q \<noteq> a_number r"
    and "t = s\<lparr>attempts := attempts s @ [r], seqs := (seqs s)(Attempts := seqs s Attempts + 1)\<rparr>"
  using assms
  by (auto simp: insert_attempt_def sql_insert_Inr_iff set_table_defs attempt_insert_error_def
      split: if_splits)

lemma keeps_insert_job:
  assumes "\<And>i. j_id (mk i) = i"
    and "\<And>i. 0 < i \<Longrightarrow> job_ok (mk i) \<Longrightarrow> job_inv (mk i) []"
  shows "keeps queue_inv (insert_job mk)"
  unfolding insert_job_def
proof (rule queue.keeps_insert, fold insert_job_def)
  fix s r t assume inv: "queue_inv s" and ins: "insert_job mk s = (Inr r, t)"
  note r = insert_job_Inr [OF ins]
  have "0 < seqs s Jobs" using inv by (simp add: queue_inv_def tables_inv_def)
  then have "job_inv r []" using assms(2) r(1,2) by simp
  then show "queue_inv t"
    using r assms(1) by (intro queue_inv_add_job [OF inv]) simp_all
qed

lemma job_inv_new:
  assumes "job_readable j" and "j_state j = Queued" and "j_finished_at j = None"
  shows "job_inv j []"
  using assms by (simp add: job_inv_def state_groups)

lemma create_keeps:
  assumes "job_name_new n = Inr name"
  shows "keeps queue_inv (create now name)"
  unfolding create_def
proof (intro keeps_bind keeps_insert_job)
  fix i :: int assume i: "0 < i"
    and ok: "job_ok (default_job now i (job_name_as_str name)\<lparr>j_delay_ms := demo_delay_ms\<rparr>)"
  have "job_name_as_str name = n" "\<exists>c \<in> set n. \<not> is_whitespace c"
    using assms by (simp_all add: job_name_new_Inr_iff)
  with ok i show "job_inv (default_job now i (job_name_as_str name)\<lparr>j_delay_ms := demo_delay_ms\<rparr>) []"
    by (intro job_inv_new) (simp_all add: default_job_def job_readable_def)
qed (simp_all add: default_job_def)

text \<open>The next number is above every number of the job's attempts.\<close>

lemma next_attempt_number_gt:
  assumes "a \<in> set (attempts_of s i)"
  shows "a_number a < next_attempt_number s i"
proof -
  have "a_number a \<in> set (attempt_numbers s i)"
    using assms by (simp add: attempt_numbers_def attempts_of_def)
  then have "attempt_numbers s i \<noteq> []" "a_number a \<le> Max (set (attempt_numbers s i))" by auto
  then show ?thesis by (simp add: next_attempt_number_def Let_def)
qed

lemma claim_body_Some:
  assumes k: "keyed j_id (jobs s)"
    and run: "claim_body locked token worker ct s = (Inr (Some (jid, cand, number, wait, att, work)), t)"
  obtains wk where
    "first_by claim_key (filter (\<lambda>r. claimable_at ct r \<and> \<not> locked (j_id r)) (jobs s)) = Some cand"
    and "cand \<in> set (jobs s)" and "claimable_at ct cand" and "\<not> locked (j_id cand)"
    and "decode_job_id (j_id cand) = Inr jid"
    and "number = next_attempt_number s (j_id cand)" and "number \<le> j_max_attempts cand"
    and "wk \<in> set (workers s)" and "w_id wk = worker" and "worker_live ct wk"
    and "att = new_attempt (seqs s Attempts) cand number ct wk token (uint wait)"
    and "job_ok (start_job ct cand)" and "attempt_ok att"
    and "\<forall>q \<in> set (attempts s). a_token q \<noteq> Some token"
    and "t = s\<lparr>jobs := put_row j_id (start_job ct cand) (jobs s), attempts := attempts s @ [att],
             seqs := (seqs s)(Attempts := seqs s Attempts + 1)\<rparr>"
    and "claimed_work_of t cand = Inr work"
proof -
  from run obtain u wk updated where
    cand: "first_by claim_key (filter (\<lambda>r. claimable_at ct r \<and> \<not> locked (j_id r)) (jobs s)) = Some cand"
    and jid: "decode_job_id (j_id cand) = Inr jid"
    and number: "number = next_attempt_number s (j_id cand)" "number \<le> j_max_attempts cand"
    and upd: "update_jobs (\<lambda>r. j_id r = j_id cand \<and> j_state r \<in> claimable_states) (start_job ct) s
      = (Inr updated, u)" "length updated = 1"
    and wk: "fetch_optional (filter (\<lambda>w. w_id w = worker \<and> worker_live ct w) (workers u)) = Some wk"
    and att: "insert_attempt (\<lambda>i. new_attempt i cand number ct wk token (uint wait)) u = (Inr att, t)"
    and work: "claimed_work_of t cand = Inr work"
    unfolding claim_body_def
    by (auto simp: tx_bind_Inr_iff tx_returns split: option.splits if_splits)
  from first_by_Some_mem [OF cand] have mem: "cand \<in> set (jobs s)" "claimable_at ct cand" "\<not> locked (j_id cand)"
    by simp_all
  note row = job_row_update [OF k upd _ _ mem(1) refl]
  have ok: "job_ok (start_job ct cand)"
    and u: "u = set_jobs (put_row j_id (start_job ct cand) (jobs s)) s"
    using row(3,4) by (simp_all add: start_job_def)
  note a = insert_attempt_Inr [OF att]
  from wk u have w: "wk \<in> set (workers s)" "w_id wk = worker" "worker_live ct wk"
    by (auto dest: fetch_optional_filter_Some simp: set_table_defs)
  show thesis
    by (rule that [OF cand mem jid number w _ ok a(2) _ _ work])
      (use a u in \<open>simp_all add: new_attempt_def set_table_defs\<close>)
qed

lemma job_inv_claim:
  assumes inv: "job_inv j as" and st: "j_state j \<in> claimable_states"
    and ok: "job_ok (start_job ct j)" "attempt_ok a"
    and a: "a = new_attempt i j number ct w token wait" "number \<le> j_max_attempts j"
      "\<forall>b \<in> set as. a_number b < number"
  shows "job_inv (start_job ct j) (as @ [a])"
proof -
  have readable: "job_readable (start_job ct j)"
    by (rule job_readable_frame [OF job_inv_readable [OF inv] ok(1)]) (simp_all add: start_job_def)
  have "j_state j \<notin> held_states" "j_state j \<noteq> Succeeded" using st by (auto simp: state_groups)
  then have none: "\<forall>b \<in> set as. \<not> running b \<and> a_state b \<noteq> ASucceeded"
    using job_inv_held [OF inv] job_inv_succeeded [OF inv] by blast
  note max = job_inv_attempts [OF inv]
  have j': "j_state (start_job ct j) = Running" "j_finished_at (start_job ct j) = None"
      "j_max_attempts (start_job ct j) = j_max_attempts j"
      "j_progress_completed (start_job ct j) = 0"
      "j_progress_total (start_job ct j) = j_progress_total j"
    by (simp_all add: start_job_def)
  have new: "running a" "a_state a \<noteq> ASucceeded" "a_number a = number" "a_progress_completed a = 0"
      "a_progress_total a = j_progress_total j"
    using a(1) by (simp_all add: new_attempt_def running_def)
  have le: "\<forall>b \<in> set as. a_number b \<le> number" using a(3) by auto
  show ?thesis
    unfolding job_inv_def j' using readable none max ok(2) new a(2) le
    by (auto simp: state_groups)
qed

lemma claim_body_keeps:
  assumes inv: "queue_inv s"
    and run: "claim_body locked token worker ct s = (Inr x, t)"
  shows "queue_inv t"
proof (cases x)
  case None
  with run have "t = s"
    by (auto simp: claim_body_def tx_bind_Inr_iff tx_returns split: option.splits)
  with inv show ?thesis by simp
next
  case (Some r)
  obtain jid cand number wait att work where r: "r = (jid, cand, number, wait, att, work)"
    by (cases r)
  show ?thesis
  proof (rule claim_body_Some [OF queue_inv_keyed(1) [OF inv] run [unfolded Some r]])
  fix wk
  assume c: "cand \<in> set (jobs s)" "claimable_at ct cand"
    and n: "number = next_attempt_number s (j_id cand)" "number \<le> j_max_attempts cand"
    and a: "att = new_attempt (seqs s Attempts) cand number ct wk token (uint wait)"
    and ok: "job_ok (start_job ct cand)" "attempt_ok att"
    and token: "\<forall>q \<in> set (attempts s). a_token q \<noteq> Some token"
    and t: "t = s\<lparr>jobs := put_row j_id (start_job ct cand) (jobs s), attempts := attempts s @ [att],
             seqs := (seqs s)(Attempts := seqs s Attempts + 1)\<rparr>"
  have nums: "\<forall>b \<in> set (attempts_of s (j_id cand)). a_number b < number"
    using n(1) next_attempt_number_gt by blast
  have "job_inv (start_job ct cand) (attempts_of s (j_id cand) @ [att])"
    using c(2) by (intro job_inv_claim [OF queue_inv_job [OF inv c(1)] _ ok a n(2) nums])
      (simp add: claimable_at_def)
  moreover have "j_id (start_job ct cand) = j_id cand" by (simp add: start_job_def)
  moreover have "a_job att = j_id cand" "a_id att = seqs s Attempts" "a_number att = number"
      "a_token att = Some token"
    using a by (simp_all add: new_attempt_def)
  ultimately show ?thesis
    using nums token by (intro queue_inv_add_attempt [OF inv c(1), of "start_job ct cand" att t])
      (simp_all add: t order_less_imp_not_eq)
  qed
qed

lemma claim_next_keeps: "keeps queue_inv (claim_next_with_time locked now token worker as_of)"
  unfolding claim_next_with_time_def Let_def
proof (intro keeps_bind queue.keeps_transaction)
  show "advances (claim_body locked token worker ct)" for ct
    unfolding claim_body_def by (auto intro!: advances_rules split: option.split)
qed (auto intro: claim_body_keeps split: option.split intro!: keeps_bind)

text \<open>Completing a demo job.\<close>

lemma complete_keeps: "keeps queue_inv (complete now c dur)"
  unfolding complete_def
proof (intro keeps_bind keeps_simple queue.keeps_transaction, goal_cases)
  case (1 _ duration_ms i)
  then show ?case by (auto intro!: advances_rules)
next
  case (2 _ duration_ms i s x t)
  then obtain as u js where
    att: "update_attempts (attempt_held now c i) (succeed_attempt now duration_ms) s = (Inr as, u)"
      "length as = 1"
    and job: "update_jobs (\<lambda>r. j_id r = i \<and> j_state r = Running \<and> j_type r = DemoDelay)
        (succeed_job now duration_ms result_message) u = (Inr js, t)" "length js = 1"
    by (auto simp: tx_bind_Inr_iff tx_returns)
  show ?case
  proof (rule claim_write [where i = i, OF 2(1) att job], goal_cases)
    case (8 a j)
    have "job_readable (succeed_job now duration_ms result_message j)"
      by (rule job_readable_frame [OF job_inv_readable [OF 8(1)] 8(7)]) (simp_all add: succeed_job_def)
    then show ?case
      by (intro job_inv_close [OF 8(1,2,4) attempt_held_running [OF 8(3)]] 8(6))
        (simp_all add: succeed_attempt_def succeed_job_def state_groups running_def)
  qed (simp_all add: attempt_held_def succeed_attempt_def succeed_job_def)
qed

end
