(* ===== verification/History.thy ===== *)
theory History
  imports QueueInv
begin

text \<open>
  What no operation undoes: a job keeps the columns it was created with and, once finished, its
  outcome; an attempt keeps its identity (number, worker, token) and, once closed, never changes; no job
  and no attempt is removed. \<open>evolves s t\<close> says that of the databases before and after; the rules
  reduce it to the rows a statement writes.
\<close>

definition job_step :: "job_row \<Rightarrow> job_row \<Rightarrow> bool" where
  "job_step j j' \<longleftrightarrow>
     j_id j' = j_id j \<and> j_name j' = j_name j \<and> j_type j' = j_type j \<and>
     j_progress_total j' = j_progress_total j \<and> j_delay_ms j' = j_delay_ms j \<and>
     j_max_width j' = j_max_width j \<and> j_jpeg_quality j' = j_jpeg_quality j \<and>
     j_max_attempts j' = j_max_attempts j \<and> j_retry_of j' = j_retry_of j \<and>
     j_priority j' = j_priority j \<and> j_schedule_id j' = j_schedule_id j \<and>
     j_scheduled_for j' = j_scheduled_for j \<and> j_owner j' = j_owner j \<and>
     j_idempotency_key j' = j_idempotency_key j \<and> j_fingerprint j' = j_fingerprint j \<and>
     j_created_at j' = j_created_at j \<and>
     (j_cancel_requested_at j \<noteq> None \<longrightarrow> j_cancel_requested_at j' = j_cancel_requested_at j) \<and>
     (j_started_at j \<noteq> None \<longrightarrow> j_started_at j' = j_started_at j) \<and>
     (j_state j \<in> terminal_states \<longrightarrow>
        j_state j' = j_state j \<and> j_finished_at j' = j_finished_at j \<and>
        j_result_message j' = j_result_message j \<and> j_result_duration_ms j' = j_result_duration_ms j \<and>
        j_failure_message j' = j_failure_message j \<and>
        j_progress_completed j' = j_progress_completed j)"

definition attempt_step :: "attempt_row \<Rightarrow> attempt_row \<Rightarrow> bool" where
  "attempt_step a a' \<longleftrightarrow>
     a_id a' = a_id a \<and> a_job a' = a_job a \<and> a_number a' = a_number a \<and>
     a_progress_total a' = a_progress_total a \<and> a_started_at a' = a_started_at a \<and>
     a_queue_wait_ms a' = a_queue_wait_ms a \<and> a_worker a' = a_worker a \<and> a_token a' = a_token a \<and>
     (\<not> running a \<longrightarrow> a' = a)"

definition evolves_by :: "(int option \<Rightarrow> bool) \<Rightarrow> db \<Rightarrow> db \<Rightarrow> bool" where
  "evolves_by A s t \<longleftrightarrow>
     (\<forall>j \<in> set (jobs s). \<exists>j' \<in> set (jobs t). job_step j j') \<and>
     (\<forall>a \<in> set (attempts s). \<exists>a' \<in> set (attempts t). attempt_step a a') \<and>
     (\<forall>j' \<in> set (jobs t). A (j_schedule_id j') \<or> (\<exists>j \<in> set (jobs s). job_step j j'))"

text \<open>
  \<open>A\<close> is what holds of the schedule of the jobs an operation adds: there is none, unless the scheduler
  adds them.
\<close>

abbreviation evolves :: "db \<Rightarrow> db \<Rightarrow> bool" where
  "evolves \<equiv> evolves_by (\<lambda>i. i = None)"

lemma job_step_refl [simp]: "job_step j j"
  by (simp add: job_step_def)

lemma attempt_step_refl [simp]: "attempt_step a a"
  by (simp add: attempt_step_def)

lemma job_step_trans: "job_step j k \<Longrightarrow> job_step k l \<Longrightarrow> job_step j l"
  unfolding job_step_def by (intro conjI impI) simp_all

lemma attempt_step_trans: "attempt_step a b \<Longrightarrow> attempt_step b c \<Longrightarrow> attempt_step a c"
  unfolding attempt_step_def by (intro conjI impI) simp_all

lemma evolves_trans:
  assumes st: "evolves_by A s t" and tu: "evolves_by A t u"
  shows "evolves_by A s u"
proof -
  have "A (j_schedule_id j) \<or> (\<exists>i \<in> set (jobs s). job_step i j)" if j: "j \<in> set (jobs u)" for j
  proof -
    from tu j consider "A (j_schedule_id j)" | k where "k \<in> set (jobs t)" "job_step k j"
      unfolding evolves_by_def by blast
    then show ?thesis
    proof cases
      case 2
      then have "A (j_schedule_id k) \<or> (\<exists>i \<in> set (jobs s). job_step i k)"
        using st unfolding evolves_by_def by blast
      moreover have "j_schedule_id j = j_schedule_id k" using 2(2) by (simp add: job_step_def)
      ultimately show ?thesis using job_step_trans [OF _ 2(2)] by auto
    qed simp
  qed
  then show ?thesis using st tu unfolding evolves_by_def
    by (meson job_step_trans attempt_step_trans)
qed

lemma evolves_weaken: "evolves_by A s t \<Longrightarrow> evolves_by (\<lambda>_. True) s t"
  unfolding evolves_by_def by blast

interpretation history: frame_relation "evolves_by A" for A
proof
  show "same_rows s t \<Longrightarrow> evolves_by A s t" for s t
    using same_rows_fields(1,2) [of s t]
    by (auto simp: evolves_by_def intro: job_step_refl attempt_step_refl)
qed (rule evolves_trans)

named_theorems history_rules

lemmas [history_rules] = history.simple history.bind history.each history.committed

text \<open>Statements on the other tables leave jobs and attempts alone.\<close>

lemma evolves_grow:
  assumes "set (jobs t) = set (jobs s) \<union> N" and "\<And>j. j \<in> N \<Longrightarrow> A (j_schedule_id j)"
    and "set (attempts s) \<subseteq> set (attempts t)"
  shows "evolves_by A s t"
  unfolding evolves_by_def
proof (intro conjI ballI)
  show "\<exists>j' \<in> set (jobs t). job_step j j'" if "j \<in> set (jobs s)" for j
    using that assms(1) by (intro bexI [of _ j]) simp_all
  show "\<exists>a' \<in> set (attempts t). attempt_step a a'" if "a \<in> set (attempts s)" for a
    using that assms(3) by (intro bexI [of _ a]) auto
  show "A (j_schedule_id j) \<or> (\<exists>i \<in> set (jobs s). job_step i j)" if "j \<in> set (jobs t)" for j
  proof (cases "j \<in> set (jobs s)")
    case True
    then show ?thesis using job_step_refl by blast
  next
    case False
    with that assms(1,2) show ?thesis by simp
  qed
qed

lemma evolves_same_jobs_attempts:
  "jobs t = jobs s \<Longrightarrow> attempts t = attempts s \<Longrightarrow> evolves_by A s t"
  by (rule evolves_grow [where N = "{}"]) simp_all

lemma history_other_tables [history_rules]:
  "obeys (evolves_by A) (update_workers Q g)" "obeys (evolves_by A) (update_schedules Q' g')"
  "obeys (evolves_by A) (update_users U u)" "obeys (evolves_by A) (update_sessions X x)"
  "obeys (evolves_by A) (insert_artifact mf)" "obeys (evolves_by A) (insert_schedule ms)"
  "obeys (evolves_by A) (insert_schedule_input_row mi)" "obeys (evolves_by A) (insert_occurrence mo)"
  "obeys (evolves_by A) (insert_worker w)" "obeys (evolves_by A) (insert_session ss)"
  unfolding update_stmt_defs insert_stmt_defs
  by (rule history.update history.insert history.insert_keyed,
      rule evolves_same_jobs_attempts; simp add: set_table_defs)+

lemma history_insert_job [history_rules]:
  assumes "\<And>i. A (j_schedule_id (mk i))"
  shows "obeys (evolves_by A) (insert_job mk)"
  unfolding obeys_def
proof
  fix s :: db
  show "evolves_by A s (snd (insert_job mk s))"
  proof (cases "insert_job mk s")
    case (Pair r t)
    show ?thesis
    proof (cases r)
      case (Inl e)
      with Pair have "evolves_by A s t"
        by (auto simp: insert_job_def sql_insert_Inl_iff intro!: evolves_same_jobs_attempts)
      with Pair show ?thesis by simp
    next
      case (Inr j)
      note new = insert_job_Inr [OF Pair [unfolded Inr]]
      have "evolves_by A s t"
        by (rule evolves_grow [where N = "{j}"]) (use new assms in simp_all)
      with Pair show ?thesis by simp
    qed
  qed
qed

lemma history_insert_attempt [history_rules]: "obeys (evolves_by A) (insert_attempt mk)"
  unfolding insert_attempt_def
proof (rule history.insert)
  show "evolves_by A s (set_attempts (attempts s @ [r]) (s\<lparr>seqs := q\<rparr>))" for s r q
    by (rule evolves_grow [where N = "{}"]) (simp_all add: set_attempts_def subset_insertI)
qed

lemma update_where_step:
  assumes "r \<in> set rs" and "\<And>q. P q \<Longrightarrow> R q (f q)" and "\<And>q. R q q"
  shows "\<exists>q \<in> set (update_where P f rs). R r q"
proof (rule bexI)
  show "R r (if P r then f r else r)" using assms(2,3) by simp
  show "(if P r then f r else r) \<in> set (update_where P f rs)"
    unfolding set_update_where using assms(1) by (rule imageI)
qed

lemma update_where_source:
  assumes "q \<in> set (update_where P f rs)" and "\<And>r. P r \<Longrightarrow> R r (f r)" and "\<And>r. R r r"
  shows "\<exists>r \<in> set rs. R r q"
  using assms unfolding set_update_where by (auto split: if_splits)

lemma history_update_jobs [history_rules]:
  assumes "\<And>r. P r \<Longrightarrow> job_step r (f r)"
  shows "obeys (evolves_by A) (update_jobs P f)"
  unfolding update_jobs_def
proof (rule history.update)
  fix s :: db
  have "\<exists>j' \<in> set (update_where P f (jobs s)). job_step j j'" if "j \<in> set (jobs s)" for j
    by (rule update_where_step [OF that]) (use assms in simp_all)
  moreover have "\<exists>j \<in> set (jobs s). job_step j j'" if "j' \<in> set (update_where P f (jobs s))" for j'
    by (rule update_where_source [OF that]) (use assms in simp_all)
  ultimately show "evolves_by A s (set_jobs (update_where P f (jobs s)) s)"
    by (auto simp: evolves_by_def set_table_defs intro: attempt_step_refl)
qed

lemma history_update_attempts [history_rules]:
  assumes "\<And>r. P r \<Longrightarrow> attempt_step r (f r)"
  shows "obeys (evolves_by A) (update_attempts P f)"
  unfolding update_attempts_def
proof (rule history.update)
  fix s :: db
  have "\<exists>a' \<in> set (update_where P f (attempts s)). attempt_step a a'" if "a \<in> set (attempts s)" for a
    by (rule update_where_step [OF that]) (use assms in simp_all)
  then show "evolves_by A s (set_attempts (update_where P f (attempts s)) s)"
    by (auto simp: evolves_by_def set_table_defs intro: job_step_refl)
qed

section \<open>The operations of the queue\<close>

lemma create_history: "obeys evolves (create now name)"
  unfolding create_def by (intro history_rules) (simp add: default_job_def)

lemma claim_next_history: "obeys evolves (claim_next_with_time locked now token worker as_of)"
  unfolding claim_next_with_time_def claim_body_def Let_def
  by (auto intro!: history_rules simp: job_step_def start_job_def state_groups
      split: option.splits)

lemma complete_history: "obeys evolves (complete now c dur)"
  unfolding complete_def
  by (auto intro!: history_rules simp: job_step_def attempt_step_def succeed_job_def
      succeed_attempt_def attempt_held_def running_def state_groups)

text \<open>The attempt an operation found by its claim, among the rows it was issued with.\<close>

definition issued :: "db \<Rightarrow> claimed_job \<Rightarrow> bool" where
  "issued s c \<longleftrightarrow>
     (\<exists>a \<in> set (attempts s). \<exists>j \<in> set (jobs s).
        a_id a = cj_attempt_id c \<and> a_job a = j_id j \<and> a_token a = Some (cj_claim_token c) \<and>
        a_worker a = Some (cj_worker_id c) \<and> a_number a = uint (cj_attempt_number c) \<and>
        j_id j = uint (job_id_get (cj_job_id c)) \<and> j_max_attempts j = uint (cj_max_attempts c))"

lemma evolves_issued:
  assumes "evolves_by A s t" and "issued s c"
  shows "issued t c"
proof -
  from assms(2) obtain a j where
    a: "a \<in> set (attempts s)" "j \<in> set (jobs s)"
       "a_id a = cj_attempt_id c" "a_job a = j_id j" "a_token a = Some (cj_claim_token c)"
       "a_worker a = Some (cj_worker_id c)" "a_number a = uint (cj_attempt_number c)"
       "j_id j = uint (job_id_get (cj_job_id c))" "j_max_attempts j = uint (cj_max_attempts c)"
    unfolding issued_def by blast
  with assms(1) obtain a' j' where "a' \<in> set (attempts t)" "attempt_step a a'"
      "j' \<in> set (jobs t)" "job_step j j'"
    unfolding evolves_by_def by blast
  with a show ?thesis
    unfolding issued_def attempt_step_def job_step_def by metis
qed

end
