(* ===== verification/Example.thy ===== *)
theory Example
  imports History
begin

text \<open>
  A small database on which the witnesses evaluate the operations: one user, one live worker and one
  stopped, and jobs in the states that matter (waiting, running, being cancelled, failed), with the
  claims their running attempts were issued under.
\<close>

definition ex_user :: user_row where
  "ex_user = \<lparr>u_id = 1, u_username = lit ''owner'', u_password_hash = lit ''hash'',
     u_is_active = True, u_updated_at = 0\<rparr>"

definition ex_worker :: "uuid \<Rightarrow> timestamp option \<Rightarrow> worker_row" where
  "ex_worker i stopped = \<lparr>w_id = i, w_name = lit ''worker'', w_concurrency_limit = 2,
     w_lease_seconds = 30, w_started_at = 0, w_last_heartbeat_at = 0,
     w_heartbeat_expires_at = seconds 1000, w_stopped_at = stopped\<rparr>"

definition ex_attempt :: "int \<Rightarrow> int \<Rightarrow> attempt_status \<Rightarrow> uuid \<Rightarrow> attempt_row" where
  "ex_attempt i job state token =
     \<lparr>a_id = i, a_job = job, a_number = 1, a_state = state, a_progress_completed = 0,
      a_progress_total = 1, a_started_at = 0,
      a_finished_at = (if state = ARunning then None else Some 5),
      a_duration_ms = (if state = ARunning then None else Some 5), a_queue_wait_ms = 0,
      a_encoding_duration_ms = 0,
      a_error_kind = (if state = AFailed then Some (lit ''permanent'') else None),
      a_error_message = None, a_worker = Some 7, a_token = Some token,
      a_lease_expires_at = Some (seconds 30)\<rparr>"

definition ex_db :: db where
  "ex_db =
     \<lparr>jobs =
        [default_job 0 1 (lit ''waiting''),
         default_job 0 2 (lit ''running'')\<lparr>j_state := Running, j_started_at := Some 0\<rparr>,
         default_job 0 3 (lit ''failed'')
           \<lparr>j_state := Failed, j_started_at := Some 0, j_finished_at := Some 5,
            j_failure_message := Some (lit ''broken'')\<rparr>,
         default_job 0 4 (lit ''cancelling'')
           \<lparr>j_state := CancelRequested, j_started_at := Some 0, j_cancel_requested_at := Some 3\<rparr>,
         default_job 1 5 (lit ''urgent'')\<lparr>j_priority := High\<rparr>],
      attempts =
        [ex_attempt 1 2 ARunning 42, ex_attempt 2 3 AFailed 43, ex_attempt 3 4 ARunning 44],
      artifacts = [], workers = [ex_worker 7 None, ex_worker 8 (Some 9)], schedules = [],
      schedule_inputs = [], occurrences = [], users = [ex_user], sessions = [],
      seqs = (\<lambda>_. 10)\<rparr>"

definition ex_claim :: "u64 \<Rightarrow> int \<Rightarrow> uuid \<Rightarrow> claimed_job" where
  "ex_claim job attempt token =
     \<lparr>cj_job_id = JobId job, cj_attempt_id = attempt, cj_attempt_number = 1, cj_max_attempts = 3,
      cj_worker_id = 7, cj_claim_token = token, cj_lease_expires_at = seconds 30,
      cj_queue_wait = 0, cj_work = WDemoDelay 500000000\<rparr>"

lemmas [evaluate] =
  ex_db_def ex_attempt_def ex_worker_def ex_user_def ex_claim_def default_job_def
  job_ok_def attempt_ok_def artifact_ok_def worker_ok_def
  i64_range_def i32_range_def i16_range_def between_def btrim_def trim_def strip_def lit_def
  is_whitespace_def state_groups running_def to_word_def to_signed_def
  tx_bind_def tx_returns transaction_def update_stmt_defs insert_stmt_defs sql_update_def
  sql_insert_def sql_insert_keyed_def update_where_def set_table_defs
  job_insert_error_def attempt_insert_error_def artifact_insert_error_def worker_insert_error_def
  refs_def encode_job_id_def as_millis_def as_secs_def seconds_def ensure_one_row_def
  ensure_claim_row_def attempt_held_def

lemmas [evaluate] =
  queue_inv_def tables_inv_def keyed_def unique_tokens_def job_inv_def job_readable_def
  attempts_of_def issued_def

lemmas [evaluate] =
  create_def demo_delay_ms_def complete_def is_demo_work_def succeed_attempt_def succeed_job_def
  result_message_def claimable_at_def claim_key_def

lemma ex_db_inv: "queue_inv ex_db"
  by (simp add: evaluate)

lemma ex_issued: "issued ex_db (ex_claim 2 1 42)" "issued ex_db (ex_claim 4 3 44)"
  by (simp_all add: evaluate)

end
