(* ===== verification/Lifecycle.thy ===== *)
theory Lifecycle
  imports Example
begin

text \<open>
  Failure, retry and cancellation (\<open>crates/adapters/src/lifecycle_repository.rs\<close>): the worker asks
  whether its job is being cancelled, finishes it as cancelled, or records a failure that either
  schedules another attempt or ends the job; a client requests cancellation or retries a finished job
  as a new one. The lemmas show that each keeps the queue invariant and what each decides.
\<close>

section \<open>Backoff\<close>

definition default_max_attempts :: u32 where
  "default_max_attempts = 3"

definition max_backoff_seconds :: u32 where
  "max_backoff_seconds = 60"

definition cancelled_message :: ustring where
  "cancelled_message = lit ''cancelled by user''"

text \<open>\<open>u32::saturating_sub\<close> and \<open>u32::checked_shl\<close>.\<close>

definition saturating_sub_u32 :: "u32 \<Rightarrow> u32 \<Rightarrow> u32" where
  "saturating_sub_u32 a b = (if a < b then 0 else a - b)"

definition checked_shl_u32 :: "u32 \<Rightarrow> u32 \<Rightarrow> u32 option" where
  "checked_shl_u32 a n = (if n < 32 then Some (push_bit (unat n) a) else None)"

definition retry_backoff_seconds :: "u32 \<Rightarrow> u32" where
  "retry_backoff_seconds attempt_number =
     (let shift = min (saturating_sub_u32 attempt_number 1) 31 in
      min (case checked_shl_u32 1 shift of None \<Rightarrow> - 1 | Some v \<Rightarrow> v) max_backoff_seconds)"

section \<open>Operations of the worker\<close>

datatype failure_kind = Transient | Permanent

fun failure_kind_as_str :: "failure_kind \<Rightarrow> ustring" where
  "failure_kind_as_str Transient = lit ''transient''"
| "failure_kind_as_str Permanent = lit ''permanent''"

datatype failure_disposition = RetryScheduled timestamp | FailedFinally

definition cancellation_requested :: "timestamp \<Rightarrow> claimed_job \<Rightarrow> bool tx" where
  "cancellation_requested now c =
     tx_bind (tx_lift (encode_job_id (cj_job_id c))) (\<lambda>job_id.
     tx_bind (tx_select (\<lambda>s. fetch_optional
        (filter (\<lambda>j. j_id j = job_id \<and> list_ex (attempt_held now c job_id) (attempts s)) (jobs s)))) (\<lambda>row.
     case row of
       None \<Rightarrow> tx_fail ClaimLost
     | Some j \<Rightarrow>
         (case j_state j of
            Running \<Rightarrow> tx_return False
          | CancelRequested \<Rightarrow> tx_return True
          | _ \<Rightarrow> tx_fail ClaimLost)))"

definition cancel_attempt :: "timestamp \<Rightarrow> int \<Rightarrow> attempt_row \<Rightarrow> attempt_row" where
  "cancel_attempt now duration_ms a =
     a\<lparr>a_state := ACancelled, a_finished_at := Some now, a_duration_ms := Some duration_ms,
       a_error_kind := Some (lit ''cancelled''), a_error_message := Some cancelled_message\<rparr>"

definition cancel_job :: "timestamp \<Rightarrow> job_row \<Rightarrow> job_row" where
  "cancel_job now r =
     r\<lparr>j_state := Cancelled, j_result_message := None, j_result_duration_ms := None,
       j_failure_message := None, j_finished_at := Some now\<rparr>"

definition finish_cancelled :: "timestamp \<Rightarrow> claimed_job \<Rightarrow> duration \<Rightarrow> unit tx" where
  "finish_cancelled now c dur =
     tx_bind (tx_lift (encode_duration dur)) (\<lambda>duration_ms.
     tx_bind (tx_lift (encode_job_id (cj_job_id c))) (\<lambda>job_id.
     transaction (
       tx_bind (update_attempts (attempt_held now c job_id) (cancel_attempt now duration_ms)) (\<lambda>attempt.
       tx_bind (tx_lift (ensure_claim_row (length attempt))) (\<lambda>_.
       tx_bind (update_jobs (\<lambda>r. j_id r = job_id \<and> j_state r = CancelRequested) (cancel_job now)) (\<lambda>job.
       tx_lift (ensure_one_row (length job) ''cancel job'')))))))"

definition fail_attempt :: "timestamp \<Rightarrow> int \<Rightarrow> failure_kind \<Rightarrow> ustring \<Rightarrow> attempt_row \<Rightarrow> attempt_row" where
  "fail_attempt now duration_ms kind message a =
     a\<lparr>a_state := AFailed, a_finished_at := Some now, a_duration_ms := Some duration_ms,
       a_error_kind := Some (failure_kind_as_str kind), a_error_message := Some message\<rparr>"

definition retry_job :: "timestamp \<Rightarrow> ustring \<Rightarrow> job_row \<Rightarrow> job_row" where
  "retry_job available_at message r =
     r\<lparr>j_state := RetryWaiting, j_available_at := available_at, j_progress_completed := 0,
       j_failure_message := Some message, j_result_message := None, j_result_duration_ms := None,
       j_finished_at := None\<rparr>"

definition fail_job :: "timestamp \<Rightarrow> ustring \<Rightarrow> job_row \<Rightarrow> job_row" where
  "fail_job now message r =
     r\<lparr>j_state := Failed, j_failure_message := Some message, j_result_message := None,
       j_result_duration_ms := None, j_finished_at := Some now\<rparr>"

definition failure_writes ::
  "timestamp \<Rightarrow> claimed_job \<Rightarrow> int \<Rightarrow> int \<Rightarrow> failure_kind \<Rightarrow> ustring \<Rightarrow> failure_disposition tx" where
  "failure_writes now c job_id duration_ms kind message =
     tx_bind (update_attempts (attempt_held now c job_id) (fail_attempt now duration_ms kind message)) (\<lambda>attempt.
     tx_bind (tx_lift (ensure_claim_row (length attempt))) (\<lambda>_.
     if kind = Transient \<and> cj_attempt_number c < cj_max_attempts c
     then
       tx_bind (tx_ok_or (InvalidData ''retry backoff exceeds INTEGER'')
                  (to_signed i32_range (uint (retry_backoff_seconds (cj_attempt_number c))))) (\<lambda>backoff.
       tx_bind (update_jobs (\<lambda>r. j_id r = job_id \<and> j_state r = Running)
                  (retry_job (now + seconds backoff) message)) (\<lambda>job.
       tx_bind (tx_ok_or (StateConflict ''schedule retry'') (fetch_optional job)) (\<lambda>j.
       tx_return (RetryScheduled (j_available_at j)))))
     else
       tx_bind (update_jobs (\<lambda>r. j_id r = job_id \<and> j_state r = Running) (fail_job now message)) (\<lambda>job.
       tx_bind (tx_lift (ensure_one_row (length job) ''fail job'')) (\<lambda>_.
       tx_return FailedFinally))))"

definition record_failure ::
  "timestamp \<Rightarrow> claimed_job \<Rightarrow> duration \<Rightarrow> failure_kind \<Rightarrow> ustring \<Rightarrow> failure_disposition tx" where
  "record_failure now c dur kind message =
     tx_bind (tx_lift (encode_duration dur)) (\<lambda>duration_ms.
     tx_bind (tx_lift (encode_job_id (cj_job_id c))) (\<lambda>job_id.
     transaction (failure_writes now c job_id duration_ms kind message)))"

section \<open>Operations of the client\<close>

definition cancellable_states :: "job_status set" where
  "cancellable_states = {Queued, RetryWaiting, Running, CancelRequested, Cancelled}"

definition request_cancel_row :: "timestamp \<Rightarrow> job_row \<Rightarrow> job_row" where
  "request_cancel_row now r =
     r\<lparr>j_state := (if j_state r \<in> claimable_states then Cancelled
                    else if j_state r = Running then CancelRequested
                    else j_state r),
       j_cancel_requested_at :=
         (case j_cancel_requested_at r of Some t \<Rightarrow> Some t | None \<Rightarrow> Some now),
       j_finished_at := (if j_state r \<in> claimable_states then Some now else j_finished_at r),
       j_failure_message := (if j_state r \<in> claimable_states then None else j_failure_message r)\<rparr>"

definition request_cancel_with_owner ::
  "timestamp \<Rightarrow> job_id \<Rightarrow> user_id option \<Rightarrow> job_record option tx" where
  "request_cancel_with_owner now i owner =
     tx_bind (tx_lift (encode_job_id i)) (\<lambda>job_id.
     tx_bind (update_jobs
                (\<lambda>r. j_id r = job_id \<and> owned_by owner (j_owner r) \<and> j_state r \<in> cancellable_states)
                (request_cancel_row now)) (\<lambda>updated.
     case fetch_optional updated of
       None \<Rightarrow>
         tx_bind (get_with_owner i owner) (\<lambda>found.
         if found \<noteq> None then tx_fail (StateConflict ''cancel terminal job'') else tx_return None)
     | Some _ \<Rightarrow> get_with_owner i owner))"

definition manual_retry_job :: "timestamp \<Rightarrow> job_row \<Rightarrow> int \<Rightarrow> job_row" where
  "manual_retry_job now src i =
     default_job now i (j_name src)
       \<lparr>j_type := j_type src, j_state := Queued, j_available_at := now,
        j_progress_total := j_progress_total src, j_delay_ms := j_delay_ms src,
        j_max_width := j_max_width src, j_jpeg_quality := j_jpeg_quality src,
        j_max_attempts := j_max_attempts src, j_priority := j_priority src,
        j_retry_of := Some (j_id src), j_owner := j_owner src\<rparr>"

text \<open>An artifact row written with the columns of the \<open>INSERT\<close> only; the rest are null.\<close>

definition copied_input :: "timestamp \<Rightarrow> int \<Rightarrow> artifact_row \<Rightarrow> int \<Rightarrow> artifact_row" where
  "copied_input now job f i =
     \<lparr>f_id = i, f_job = job, f_attempt = None, f_source = None, f_kind = f_kind f,
      f_item_index = f_item_index f, f_storage_key = f_storage_key f,
      f_display_name = f_display_name f, f_media_type = f_media_type f,
      f_byte_size = f_byte_size f, f_width = f_width f, f_height = f_height f,
      f_created_at = now, f_checksum = None\<rparr>"

definition manual_retry_body :: "timestamp \<Rightarrow> int \<Rightarrow> user_id option \<Rightarrow> int option tx" where
  "manual_retry_body now source_id owner =
     tx_bind (tx_select (\<lambda>s. fetch_optional
        (filter (\<lambda>r. j_id r = source_id \<and> owned_by owner (j_owner r)) (jobs s)))) (\<lambda>source.
     case source of
       None \<Rightarrow> tx_return None
     | Some src \<Rightarrow>
     tx_bind (tx_guard (j_state src \<in> {Failed, Cancelled}) (StateConflict ''manually retry job'')) (\<lambda>_.
     tx_bind (insert_job (manual_retry_job now src)) (\<lambda>new.
     tx_bind (tx_select (\<lambda>s. filter (\<lambda>f. f_job f = source_id \<and> f_kind f = Input) (artifacts s))) (\<lambda>inputs.
     tx_bind (tx_for (\<lambda>f. tx_bind (insert_artifact (copied_input now (j_id new) f)) (\<lambda>_. tx_return ())) inputs) (\<lambda>_.
     tx_return (Some (j_id new)))))))"

definition manual_retry_with_owner ::
  "timestamp \<Rightarrow> job_id \<Rightarrow> user_id option \<Rightarrow> job_record option tx" where
  "manual_retry_with_owner now i owner =
     tx_bind (tx_lift (encode_job_id i)) (\<lambda>source_id.
     tx_bind (transaction (manual_retry_body now source_id owner)) (\<lambda>new.
     case new of
       None \<Rightarrow> tx_return None
     | Some new_id \<Rightarrow>
         tx_bind (tx_lift (decode_job_id new_id)) (\<lambda>new_id.
         get_with_owner new_id owner)))"

section \<open>Backoff values\<close>

lemma checked_shl_one:
  assumes "n < 32"
  shows "checked_shl_u32 1 n = Some (push_bit (unat n) 1)" and "uint ((2 :: u32) ^ unat n) = 2 ^ unat n"
proof -
  show "checked_shl_u32 1 n = Some (push_bit (unat n) 1)" using assms by (simp add: checked_shl_u32_def)
  have "unat n < 32" using assms by (simp add: word_less_nat_alt)
  then have "(2::int) ^ unat n < 2 ^ 32" by (intro power_strict_increasing) simp_all
  moreover have "(2 :: u32) ^ unat n = word_of_int (2 ^ unat n)" by simp
  ultimately show "uint ((2 :: u32) ^ unat n) = 2 ^ unat n"
    by (simp only: uint_word_of_int) (simp add: take_bit_int_eq_self)
qed

text \<open>The delay before attempt \<open>n + 1\<close> doubles from one second and stops at a minute.\<close>

lemma retry_backoff_value:
  assumes "0 < n"
  shows "uint (retry_backoff_seconds n) = min (2 ^ (unat n - 1)) 60"
proof -
  define shift where "shift = min (saturating_sub_u32 n 1) 31"
  have one: "1 \<le> n" using assms by (simp add: word_le_nat_alt word_less_nat_alt)
  then have sub: "unat (saturating_sub_u32 n 1) = unat n - 1"
    by (simp add: saturating_sub_u32_def unat_sub not_less)
  have small: "shift < 32" by (simp add: shift_def min_def word_less_nat_alt word_le_nat_alt)
  have us: "unat shift = min (unat n - 1) 31"
    unfolding shift_def min_def word_le_nat_alt sub by (simp add: sub)
  have "uint (retry_backoff_seconds n) = min (2 ^ unat shift) 60"
    unfolding retry_backoff_seconds_def Let_def shift_def [symmetric] checked_shl_one(1) [OF small]
    by (simp add: min_def word_le_def checked_shl_one(2) [OF small] max_backoff_seconds_def)
  also have "\<dots> = min (2 ^ (unat n - 1)) 60"
  proof (cases "unat n - 1 \<le> 31")
    case True
    then show ?thesis by (simp add: us)
  next
    case False
    then have "(2::int) ^ 31 \<le> 2 ^ (unat n - 1)" by (intro power_increasing) simp_all
    with False show ?thesis by (simp add: us min_def)
  qed
  finally show ?thesis .
qed

lemma retry_backoff_range: "uint (retry_backoff_seconds n) \<le> 60"
  by (simp add: retry_backoff_seconds_def Let_def max_backoff_seconds_def min_def word_le_def
      split: option.split)

section \<open>The invariant and the history\<close>

lemma cancellation_requested_keeps: "keeps I (cancellation_requested now c)"
  unfolding cancellation_requested_def
  by (intro keeps_bind) (simp_all split: option.split job_status.split)

lemma finish_cancelled_keeps: "keeps queue_inv (finish_cancelled now c dur)"
  unfolding finish_cancelled_def
proof (intro keeps_bind keeps_simple queue.keeps_transaction, goal_cases)
  case (1 duration_ms i)
  then show ?case by (auto intro!: advances_rules)
next
  case (2 duration_ms i s x t)
  then obtain as u js where
    att: "update_attempts (attempt_held now c i) (cancel_attempt now duration_ms) s = (Inr as, u)"
      "length as = 1"
    and job: "update_jobs (\<lambda>r. j_id r = i \<and> j_state r = CancelRequested) (cancel_job now) u = (Inr js, t)"
      "length js = 1"
    by (auto simp: tx_bind_Inr_iff tx_returns)
  show ?case
  proof (rule claim_write [where i = i, OF 2(1) att job], goal_cases)
    case (8 a j)
    have "job_readable (cancel_job now j)"
      by (rule job_readable_frame [OF job_inv_readable [OF 8(1)] 8(7)]) (simp_all add: cancel_job_def)
    moreover have "j_cancel_requested_at j \<noteq> None" using job_inv_cancel [OF 8(1)] 8(5) by simp
    ultimately show ?case
      by (intro job_inv_close [OF 8(1,2,4) attempt_held_running [OF 8(3)]] 8(6))
        (simp_all add: cancel_attempt_def cancel_job_def state_groups running_def)
  qed (simp_all add: attempt_held_def cancel_attempt_def cancel_job_def)
qed

text \<open>
  A failure under a claim that was issued for the attempt: the retry is only scheduled while attempts
  remain, since the claim carries the attempt's number and the job's limit.
\<close>

lemma issued_attempt:
  assumes inv: "queue_inv s" and iss: "issued s c"
    and a: "a \<in> set (attempts s)" "a_id a = cj_attempt_id c"
    and j: "j \<in> set (jobs s)" "j_id j = a_job a"
  shows "a_number a = uint (cj_attempt_number c)" and "j_max_attempts j = uint (cj_max_attempts c)"
    and "a_job a = uint (job_id_get (cj_job_id c))"
proof -
  from iss obtain b k where b: "b \<in> set (attempts s)" "k \<in> set (jobs s)" "a_id b = cj_attempt_id c"
      "a_job b = j_id k" "a_number b = uint (cj_attempt_number c)"
      "j_id k = uint (job_id_get (cj_job_id c))" "j_max_attempts k = uint (cj_max_attempts c)"
    unfolding issued_def by blast
  have "b = a" by (rule keyed_unique [OF queue_inv_keyed(2) [OF inv] b(1) a(1)]) (simp add: b a)
  moreover from this have "k = j"
    by (intro keyed_unique [OF queue_inv_keyed(1) [OF inv] b(2) j(1)]) (simp add: b(4) [symmetric] j(2))
  ultimately show "a_number a = uint (cj_attempt_number c)" "j_max_attempts j = uint (cj_max_attempts c)"
    "a_job a = uint (job_id_get (cj_job_id c))" using b by simp_all
qed

lemma failure_writes_keeps:
  assumes inv: "queue_inv s" and iss: "issued s c"
    and run: "failure_writes now c i ms kind message s = (Inr d, t)"
  shows "queue_inv t"
proof -
  from run obtain as u where
    att: "update_attempts (attempt_held now c i) (fail_attempt now ms kind message) s = (Inr as, u)"
      "length as = 1"
    by (auto simp: failure_writes_def tx_bind_Inr_iff tx_returns)
  show ?thesis
  proof (cases "kind = Transient \<and> cj_attempt_number c < cj_max_attempts c")
    case True
    from run [unfolded failure_writes_def] True att obtain b js where
      job: "update_jobs (\<lambda>r. j_id r = i \<and> j_state r = Running) (retry_job (now + seconds b) message) u = (Inr js, t)"
      and hit: "js \<noteq> []"
      by (force simp: tx_bind_Inr_iff tx_returns fetch_optional_Some_iff)
    have "keyed j_id (jobs u)" using queue_inv_keyed(1) [OF inv] update_attempts_jobs [OF att(1)] by simp
    then have one: "length js = 1" by (rule update_jobs_by_id [OF _ job _ hit]) simp
    show ?thesis
    proof (rule claim_write [where i = i, OF inv att job one], goal_cases)
      case (8 a j)
      have "job_readable (retry_job (now + seconds b) message j)"
        by (rule job_readable_frame [OF job_inv_readable [OF 8(1)] 8(7)]) (simp_all add: retry_job_def)
      moreover have "a_number a < j_max_attempts j"
        using issued_attempt(1,2) [OF inv iss _ _ 8(9)] 8(3,4,8) True
        by (simp add: attempts_of_def attempt_held_def word_less_def)
      ultimately show ?case
        by (intro job_inv_close [OF 8(1,2,4) attempt_held_running [OF 8(3)]] 8(6))
          (simp_all add: fail_attempt_def retry_job_def state_groups running_def)
    qed (simp_all add: attempt_held_def fail_attempt_def retry_job_def)
  next
    case False
    with run att obtain js where
      job: "update_jobs (\<lambda>r. j_id r = i \<and> j_state r = Running) (fail_job now message) u = (Inr js, t)"
        "length js = 1"
      by (auto simp: failure_writes_def tx_bind_Inr_iff tx_returns)
    show ?thesis
    proof (rule claim_write [where i = i, OF inv att job], goal_cases)
      case (8 a j)
      have "job_readable (fail_job now message j)"
        by (rule job_readable_frame [OF job_inv_readable [OF 8(1)] 8(7)]) (simp_all add: fail_job_def)
      then show ?case
        by (intro job_inv_close [OF 8(1,2,4) attempt_held_running [OF 8(3)]] 8(6))
          (simp_all add: fail_attempt_def fail_job_def state_groups running_def)
    qed (simp_all add: attempt_held_def fail_attempt_def fail_job_def)
  qed
qed

lemma failure_writes_advances: "advances (failure_writes now c i ms kind message)"
  unfolding failure_writes_def by (intro advances_rules) (auto intro!: advances_rules)

lemma record_failure_keeps:
  assumes "queue_inv s" and "issued s c" and "record_failure now c dur kind message s = (r, t)"
  shows "queue_inv t"
proof -
  have "queue_inv (snd (transaction (failure_writes now c i ms kind message) s))" for i ms
    by (rule queue.transaction_at [OF failure_writes_advances assms(1)])
      (rule failure_writes_keeps [OF assms(1,2)])
  then show ?thesis
    using assms(1,3)
    by (auto simp: record_failure_def tx_simps split: sum.splits) (metis snd_conv)
qed

text \<open>A cancellation request.\<close>

lemma job_inv_request_cancel:
  assumes inv: "job_inv j as" and ok: "job_ok (request_cancel_row now j)"
    and st: "j_state j \<in> cancellable_states"
  shows "job_inv (request_cancel_row now j) as"
proof -
  have readable: "job_readable (request_cancel_row now j)"
    by (rule job_readable_frame [OF job_inv_readable [OF inv] ok]) (simp_all add: request_cancel_row_def)
  have frame: "j_max_attempts (request_cancel_row now j) = j_max_attempts j"
      "j_progress_completed (request_cancel_row now j) = j_progress_completed j"
      "j_progress_total (request_cancel_row now j) = j_progress_total j"
      "j_cancel_requested_at (request_cancel_row now j) \<noteq> None"
    by (simp_all add: request_cancel_row_def split: option.split)
  consider (waiting) "j_state j \<in> claimable_states" | (running) "j_state j = Running"
    | (same) "j_state j \<in> {CancelRequested, Cancelled}"
    using st by (auto simp: cancellable_states_def claimable_states_def)
  then show ?thesis
  proof cases
    case waiting
    then have new: "j_state (request_cancel_row now j) = Cancelled"
        "j_finished_at (request_cancel_row now j) = Some now"
      by (simp_all add: request_cancel_row_def)
    have "j_state j \<notin> held_states" "j_state j \<noteq> Succeeded" using waiting by (auto simp: state_groups)
    then have "\<forall>a \<in> set as. \<not> running a \<and> a_state a \<noteq> ASucceeded"
      using job_inv_held [OF inv] job_inv_succeeded [OF inv] by blast
    then show ?thesis
      unfolding job_inv_def frame new
      using readable job_inv_attempts [OF inv] frame(4) by (auto simp: state_groups)
  next
    case running
    then have new: "j_state (request_cancel_row now j) = CancelRequested"
        "j_finished_at (request_cancel_row now j) = j_finished_at j"
      by (simp_all add: request_cancel_row_def claimable_states_def)
    have "\<exists>a \<in> set as. running a" "\<not> (\<exists>a \<in> set as. a_state a = ASucceeded)" "j_finished_at j = None"
      using job_inv_held [OF inv] job_inv_succeeded [OF inv] job_inv_terminal [OF inv] running
      by (auto simp: state_groups)
    then show ?thesis
      unfolding job_inv_def frame new
      using readable job_inv_attempts [OF inv] frame(4) job_inv_one_running [OF inv]
        job_inv_running(2,3,4) [OF inv]
      by (auto simp: state_groups)
  next
    case same
    then have new: "j_state (request_cancel_row now j) = j_state j"
        "j_finished_at (request_cancel_row now j) = j_finished_at j"
      by (auto simp: request_cancel_row_def claimable_states_def)
    show ?thesis
      by (rule job_inv_rewrite [OF inv readable frame(1) new(1) frame(3,2)]) (simp_all add: new frame)
  qed
qed

lemma get_with_owner_simple:
  "keeps I (get_with_owner i owner)" "obeys (evolves_by A) (get_with_owner i owner)"
  "advances (get_with_owner i owner)"
  unfolding get_with_owner_def
  by (intro keeps_bind history_rules advances_rules,
      simp_all add: history_rules advances_rules split: option.split)+

lemma update_one_job_keeps:
  assumes P: "\<And>r. P r \<Longrightarrow> j_id r = i" and G: "\<And>r. j_id (G r) = j_id r"
    and new: "\<And>j as. job_inv j as \<Longrightarrow> P j \<Longrightarrow> job_ok (G j) \<Longrightarrow> job_inv (G j) as"
  shows "keeps queue_inv (update_jobs P G)"
  unfolding update_jobs_def
proof (rule queue.keeps_update, fold update_jobs_def)
  fix s hits t
  assume inv: "queue_inv s" and upd: "update_jobs P G s = (Inr hits, t)"
  show "queue_inv t"
  proof (cases "hits = []")
    case True
    with upd have "\<forall>r \<in> set (jobs s). \<not> P r"
      by (auto simp: update_jobs_def sql_update_Inr_iff filter_empty_conv)
    with upd have "t = s"
      by (auto simp: update_jobs_def sql_update_Inr_iff update_where_none set_table_defs)
    with inv show ?thesis by simp
  next
    case False
    note k = queue_inv_keyed(1) [OF inv]
    have one: "length hits = 1" by (rule update_jobs_by_id [OF k upd P False])
    from upd False obtain j where j: "j \<in> set (jobs s)" "P j"
      by (auto simp: update_jobs_def sql_update_Inr_iff filter_empty_conv)
    note row = job_row_update [OF k upd one P G j(1) P [OF j(2)]]
    from row(4) show ?thesis
      by (intro queue_inv_put_job [OF inv j(1) G])
        (simp_all add: set_table_defs new [OF queue_inv_job [OF inv j(1)] j(2) row(3)])
  qed
qed

lemma request_cancel_keeps: "keeps queue_inv (request_cancel_with_owner now i owner)"
  unfolding request_cancel_with_owner_def
proof (intro keeps_bind keeps_simple, goal_cases)
  case (1 job_id)
  show ?case
  proof (rule update_one_job_keeps [where i = job_id])
    show "j_id (request_cancel_row now r) = j_id r" for r by (simp add: request_cancel_row_def)
  qed (auto intro: job_inv_request_cancel)
next
  case (2 job_id updated)
  show ?case
    by (auto split: option.split intro!: keeps_bind get_with_owner_simple)
qed

text \<open>Statements on other tables.\<close>

lemma queue_inv_other_tables:
  assumes "queue_inv s" and "jobs t = jobs s" and "attempts t = attempts s"
    and "seqs s Jobs \<le> seqs t Jobs" and "seqs s Attempts \<le> seqs t Attempts"
  shows "queue_inv t"
  using assms by (force simp: queue_inv_def tables_inv_def attempts_of_def)

lemma queue_other_statements:
  "keeps queue_inv (update_workers Q g)" "keeps queue_inv (update_schedules Q' g')"
  "keeps queue_inv (update_users U u)" "keeps queue_inv (update_sessions X x)"
  "keeps queue_inv (insert_artifact mf)" "keeps queue_inv (insert_schedule ms)"
  "keeps queue_inv (insert_schedule_input_row mi)" "keeps queue_inv (insert_occurrence mo)"
  "keeps queue_inv (insert_worker w)" "keeps queue_inv (insert_session ss)"
  unfolding keeps_def update_stmt_defs insert_stmt_defs sql_update_def sql_insert_def
    sql_insert_keyed_def Let_def
  by (auto split: option.split simp: set_table_defs elim!: queue_inv_other_tables)

lemma keeps_for: "(\<And>x. keeps I (f x)) \<Longrightarrow> keeps I (tx_for f xs)"
  by (induction xs) (auto intro!: keeps_bind)

section \<open>Retrying by hand\<close>

lemma manual_retry_readable:
  assumes "job_readable src" and "job_ok (manual_retry_job now src i)" and "0 < i"
  shows "job_readable (manual_retry_job now src i)"
  using assms by (simp add: job_readable_def manual_retry_job_def default_job_def job_ok_def)

lemma manual_retry_body_advances: "advances (manual_retry_body now i owner)"
  unfolding manual_retry_body_def
  by (intro advances_rules) (auto intro!: advances_rules split: option.split)

text \<open>What a committed retry did: the new row, and the inputs copied from the source's.\<close>

lemma manual_retry_body_Some:
  assumes "manual_retry_body now i owner s = (Inr (Some n), t)"
  obtains src u where "src \<in> set (jobs s)" and "j_id src = i" and "owned_by owner (j_owner src)"
    and "j_state src \<in> {Failed, Cancelled}"
    and "insert_job (manual_retry_job now src) s = (Inr (manual_retry_job now src n), u)"
    and "n = seqs s Jobs"
    and "tx_for (\<lambda>f. tx_bind (insert_artifact (copied_input now n f)) (\<lambda>_. tx_return ()))
           (filter (\<lambda>f. f_job f = i \<and> f_kind f = Input) (artifacts s)) u = (Inr (), t)"
proof -
  from assms obtain src new u where
    src: "fetch_optional (filter (\<lambda>r. j_id r = i \<and> owned_by owner (j_owner r)) (jobs s)) = Some src"
      "j_state src \<in> {Failed, Cancelled}"
    and new: "insert_job (manual_retry_job now src) s = (Inr new, u)" "j_id new = n"
    and copy: "tx_for (\<lambda>f. tx_bind (insert_artifact (copied_input now (j_id new) f)) (\<lambda>_. tx_return ()))
           (filter (\<lambda>f. f_job f = i \<and> f_kind f = Input) (artifacts u)) u = (Inr (), t)"
    unfolding manual_retry_body_def
    by (auto simp: tx_bind_Inr_iff tx_returns split: option.splits if_splits)
  note r = insert_job_Inr [OF new(1)]
  have "new = manual_retry_job now src n" "n = seqs s Jobs"
    using r(1) new(2) by (simp_all add: manual_retry_job_def default_job_def)
  with fetch_optional_filter_Some [OF src(1)] src(2) new copy r(6) show thesis
    by (intro that [of src u]) simp_all
qed

lemma manual_retry_body_keeps:
  assumes inv: "queue_inv s" and run: "manual_retry_body now i owner s = (Inr x, t)"
  shows "queue_inv t"
proof (cases x)
  case None
  with run have "t = s"
    by (auto simp: manual_retry_body_def tx_bind_Inr_iff tx_returns split: option.splits if_splits)
  with inv show ?thesis by simp
next
  case (Some n)
  show ?thesis
  proof (rule manual_retry_body_Some [OF run [unfolded Some]])
    fix src u
    assume src: "src \<in> set (jobs s)"
      and ins: "insert_job (manual_retry_job now src) s = (Inr (manual_retry_job now src n), u)"
      and n: "n = seqs s Jobs"
      and copy: "tx_for (\<lambda>f. tx_bind (insert_artifact (copied_input now n f)) (\<lambda>_. tx_return ()))
           (filter (\<lambda>f. f_job f = i \<and> f_kind f = Input) (artifacts s)) u = (Inr (), t)"
    note r = insert_job_Inr [OF ins]
    have pos: "0 < n" using inv n by (simp add: queue_inv_def tables_inv_def)
    have "job_inv (manual_retry_job now src n) []"
      by (rule job_inv_new, rule manual_retry_readable [OF job_inv_readable r(2) pos])
        (rule queue_inv_job [OF inv src], simp_all add: manual_retry_job_def default_job_def)
    then have u: "queue_inv u"
      using r n by (intro queue_inv_add_job [OF inv, of "manual_retry_job now src n"])
        (simp_all add: manual_retry_job_def default_job_def)
    have kept: "keeps queue_inv (tx_for (\<lambda>f. tx_bind (insert_artifact (copied_input now n f))
        (\<lambda>_. tx_return ())) fs)" for fs
      by (intro keeps_for keeps_bind queue_other_statements keeps_simple)
    show ?thesis by (rule keepsD [OF kept u copy])
  qed
qed

lemma manual_retry_keeps: "keeps queue_inv (manual_retry_with_owner now i owner)"
  unfolding manual_retry_with_owner_def
proof (intro keeps_bind queue.keeps_transaction keeps_simple manual_retry_body_advances, goal_cases)
  case (1 source_id s x t)
  then show ?case by (rule manual_retry_body_keeps)
next
  case (2 source_id new)
  show ?case by (cases new) (auto intro!: keeps_bind get_with_owner_simple)
qed

section \<open>History\<close>

lemma lifecycle_history:
  "obeys evolves (cancellation_requested now c)"
  "obeys evolves (finish_cancelled now c dur)"
  "obeys evolves (record_failure now c dur kind message)"
  "obeys evolves (request_cancel_with_owner now i owner)"
  "obeys evolves (manual_retry_with_owner now i owner)"
proof -
  show "obeys evolves (cancellation_requested now c)"
    unfolding cancellation_requested_def
    by (intro history_rules) (auto intro!: history_rules split: option.split job_status.split)
  show "obeys evolves (finish_cancelled now c dur)"
    unfolding finish_cancelled_def
    by (intro history_rules)
      (auto simp: job_step_def attempt_step_def cancel_job_def cancel_attempt_def attempt_held_def
        running_def state_groups)
  show "obeys evolves (record_failure now c dur kind message)"
    unfolding record_failure_def failure_writes_def
    by (intro history_rules)
      (auto intro!: history_rules simp: job_step_def attempt_step_def retry_job_def fail_job_def
        fail_attempt_def attempt_held_def running_def state_groups)
  show "obeys evolves (request_cancel_with_owner now i owner)"
    unfolding request_cancel_with_owner_def
    by (intro history_rules)
      (auto intro!: history_rules get_with_owner_simple split: option.split
        simp: job_step_def request_cancel_row_def state_groups)
  show "obeys evolves (manual_retry_with_owner now i owner)"
    unfolding manual_retry_with_owner_def manual_retry_body_def
    by (intro history_rules)
      (auto intro!: history_rules get_with_owner_simple split: option.split
        simp: manual_retry_job_def default_job_def)
qed

end
