(* ===== verification/Leases.thy ===== *)
theory Leases
  imports Lifecycle
begin

text \<open>
  Workers, their heartbeats and the leases of their attempts
  (\<open>crates/adapters/src/worker_repository.rs\<close>): registration and its limits, renewal of a lease under
  its claim, and the reclamation of an attempt whose lease has expired, which closes the attempt and
  cancels, retries or fails the job.
\<close>

section \<open>Registration\<close>

definition min_worker_concurrency :: nat where
  "min_worker_concurrency = 1"

definition max_worker_concurrency :: nat where
  "max_worker_concurrency = 64"

definition min_lease_duration :: duration where
  "min_lease_duration = from_secs 2"

definition max_lease_duration :: duration where
  "max_lease_duration = from_secs 3600"

definition lease_expired_message :: ustring where
  "lease_expired_message = lit ''worker lease expired before completion''"

definition lease_expired_cancel_message :: ustring where
  "lease_expired_cancel_message = lit ''cancelled after worker lease expired''"

record worker_registration =
  wr_id :: uuid
  wr_name :: ustring
  wr_concurrency_limit :: nat
  wr_lease_duration :: duration
  wr_heartbeat_ttl :: duration

definition validate_duration :: "duration \<Rightarrow> string \<Rightarrow> repository_error + unit" where
  "validate_duration value field =
     (if value < min_lease_duration \<or> value > max_lease_duration \<or> subsec_nanos value \<noteq> 0
      then Inl (InvalidData (field @ '' must be a whole number of seconds between 2 and 3600''))
      else Inr ())"

definition duration_seconds :: "duration \<Rightarrow> string \<Rightarrow> repository_error + int" where
  "duration_seconds value field =
     ok_or (InvalidData (field @ '' exceeds INTEGER'')) (to_signed i32_range (as_secs value))"

definition registration_validate :: "worker_registration \<Rightarrow> repository_error + unit" where
  "registration_validate r =
     (let name_length = length (trim (wr_name r)) in
      if \<not> (1 \<le> name_length \<and> name_length \<le> 100)
      then Inl (InvalidData ''worker name must contain between 1 and 100 characters'')
      else if \<not> (min_worker_concurrency \<le> wr_concurrency_limit r \<and>
                  wr_concurrency_limit r \<le> max_worker_concurrency)
      then Inl (InvalidData ''worker concurrency must be between 1 and 64'')
      else
      try_bind (validate_duration (wr_lease_duration r) ''lease duration'') (\<lambda>_.
      try_bind (validate_duration (wr_heartbeat_ttl r) ''heartbeat TTL'') (\<lambda>_.
      Inr ())))"

section \<open>Reading workers\<close>

datatype worker_status = Online | Offline | Stopped

fun worker_status_as_str :: "worker_status \<Rightarrow> ustring" where
  "worker_status_as_str Online = lit ''online''"
| "worker_status_as_str Offline = lit ''offline''"
| "worker_status_as_str Stopped = lit ''stopped''"

record worker_record =
  wk_id :: uuid
  wk_name :: ustring
  wk_status :: worker_status
  wk_concurrency_limit :: u16
  wk_lease_duration_seconds :: u32
  wk_active_attempts :: u32
  wk_started_at :: timestamp
  wk_last_heartbeat_at :: timestamp
  wk_heartbeat_expires_at :: timestamp
  wk_stopped_at :: "timestamp option"

record worker_sql_row =
  wq_id :: uuid
  wq_name :: ustring
  wq_status :: ustring
  wq_concurrency_limit :: int
  wq_lease_duration_seconds :: int
  wq_active_attempts :: int
  wq_started_at :: timestamp
  wq_last_heartbeat_at :: timestamp
  wq_heartbeat_expires_at :: timestamp
  wq_stopped_at :: "timestamp option"

text \<open>\<open>CASE WHEN stopped_at IS NOT NULL ... WHEN heartbeat_expires_at > CURRENT_TIMESTAMP ...\<close>.\<close>

definition worker_status_at :: "timestamp \<Rightarrow> worker_row \<Rightarrow> ustring" where
  "worker_status_at now w =
     (if w_stopped_at w \<noteq> None then lit ''stopped''
      else if w_heartbeat_expires_at w > now then lit ''online''
      else lit ''offline'')"

definition select_worker :: "timestamp \<Rightarrow> db \<Rightarrow> worker_row \<Rightarrow> worker_sql_row" where
  "select_worker now s w =
     \<lparr>wq_id = w_id w, wq_name = w_name w, wq_status = worker_status_at now w,
      wq_concurrency_limit = w_concurrency_limit w, wq_lease_duration_seconds = w_lease_seconds w,
      wq_active_attempts =
        int (length (filter (\<lambda>a. a_worker a = Some (w_id w) \<and> a_state a = ARunning) (attempts s))),
      wq_started_at = w_started_at w, wq_last_heartbeat_at = w_last_heartbeat_at w,
      wq_heartbeat_expires_at = w_heartbeat_expires_at w, wq_stopped_at = w_stopped_at w\<rparr>"

definition worker_status_from_str :: "ustring \<Rightarrow> repository_error + worker_status" where
  "worker_status_from_str s =
     (if s = lit ''online'' then Inr Online
      else if s = lit ''offline'' then Inr Offline
      else if s = lit ''stopped'' then Inr Stopped
      else Inl (InvalidData ''worker status is not recognized''))"

definition worker_try_from :: "worker_sql_row \<Rightarrow> repository_error + worker_record" where
  "worker_try_from row =
     try_bind (worker_status_from_str (wq_status row)) (\<lambda>status.
     try_bind (decode_u16 (wq_concurrency_limit row) ''invalid worker concurrency'') (\<lambda>limit.
     try_bind (decode_u32 (wq_lease_duration_seconds row) ''worker lease duration'') (\<lambda>lease.
     try_bind (ok_or (InvalidData ''worker active attempt count exceeds INTEGER'')
                 (to_signed i32_range (wq_active_attempts row))) (\<lambda>active.
     try_bind (decode_u32 active ''worker active attempts'') (\<lambda>active.
     Inr \<lparr>wk_id = wq_id row, wk_name = wq_name row, wk_status = status,
          wk_concurrency_limit = limit, wk_lease_duration_seconds = lease,
          wk_active_attempts = active, wk_started_at = wq_started_at row,
          wk_last_heartbeat_at = wq_last_heartbeat_at row,
          wk_heartbeat_expires_at = wq_heartbeat_expires_at row,
          wk_stopped_at = wq_stopped_at row\<rparr>)))))"

definition get_worker :: "timestamp \<Rightarrow> uuid \<Rightarrow> worker_record option tx" where
  "get_worker now worker_id =
     (\<lambda>s. (opt_try (\<lambda>w. worker_try_from (select_worker now s w))
             (fetch_optional (filter (\<lambda>w. w_id w = worker_id) (workers s))), s))"

text \<open>\<open>ORDER BY started_at DESC, id\<close>.\<close>

definition list_workers :: "timestamp \<Rightarrow> worker_record list tx" where
  "list_workers now =
     (\<lambda>s. (collect_results (\<lambda>w. worker_try_from (select_worker now s w))
             (sort_key (\<lambda>w. (- w_started_at w, uint (w_id w))) (workers s)), s))"

section \<open>Heartbeats\<close>

definition registered_worker :: "worker_registration \<Rightarrow> timestamp \<Rightarrow> int \<Rightarrow> int \<Rightarrow> int \<Rightarrow> worker_row" where
  "registered_worker r as_of limit lease heartbeat =
     \<lparr>w_id = wr_id r, w_name = trim (wr_name r), w_concurrency_limit = limit,
      w_lease_seconds = lease, w_started_at = as_of, w_last_heartbeat_at = as_of,
      w_heartbeat_expires_at = as_of + seconds heartbeat, w_stopped_at = None\<rparr>"

definition register_worker_at ::
  "timestamp \<Rightarrow> worker_registration \<Rightarrow> timestamp \<Rightarrow> worker_record tx" where
  "register_worker_at now r as_of =
     tx_bind (tx_lift (registration_validate r)) (\<lambda>_.
     tx_bind (tx_ok_or (InvalidData ''worker concurrency exceeds SMALLINT'')
                (to_signed i16_range (int (wr_concurrency_limit r)))) (\<lambda>limit.
     tx_bind (tx_lift (duration_seconds (wr_lease_duration r) ''lease duration'')) (\<lambda>lease.
     tx_bind (tx_lift (duration_seconds (wr_heartbeat_ttl r) ''heartbeat TTL'')) (\<lambda>heartbeat.
     tx_bind (insert_worker (registered_worker r as_of limit lease heartbeat)) (\<lambda>_.
     tx_bind (get_worker now (wr_id r)) (\<lambda>w.
     tx_ok_or (StateConflict ''read registered worker'') w))))))"

definition register_worker :: "timestamp \<Rightarrow> worker_registration \<Rightarrow> worker_record tx" where
  "register_worker now r = register_worker_at now r now"

definition heartbeat_worker_at :: "uuid \<Rightarrow> duration \<Rightarrow> timestamp \<Rightarrow> timestamp tx" where
  "heartbeat_worker_at worker_id ttl as_of =
     tx_bind (tx_lift (validate_duration ttl ''heartbeat TTL'')) (\<lambda>_.
     tx_bind (tx_lift (duration_seconds ttl ''heartbeat TTL'')) (\<lambda>heartbeat.
     tx_bind (update_workers (\<lambda>w. w_id w = worker_id \<and> w_stopped_at w = None)
                (\<lambda>w. w\<lparr>w_last_heartbeat_at := as_of,
                       w_heartbeat_expires_at := as_of + seconds heartbeat\<rparr>)) (\<lambda>updated.
     tx_bind (tx_ok_or (StateConflict ''heartbeat worker'') (fetch_optional updated)) (\<lambda>w.
     tx_return (w_heartbeat_expires_at w)))))"

definition heartbeat_worker :: "timestamp \<Rightarrow> uuid \<Rightarrow> duration \<Rightarrow> timestamp tx" where
  "heartbeat_worker now worker_id ttl = heartbeat_worker_at worker_id ttl now"

definition stop_worker :: "timestamp \<Rightarrow> uuid \<Rightarrow> unit tx" where
  "stop_worker now worker_id =
     tx_bind (update_workers (\<lambda>w. w_id w = worker_id)
                (\<lambda>w. w\<lparr>w_stopped_at :=
                     (case w_stopped_at w of Some t \<Rightarrow> Some t | None \<Rightarrow> Some now)\<rparr>)) (\<lambda>stopped.
     tx_lift (ensure_one_row (length stopped) ''stop worker''))"

section \<open>Renewal\<close>

text \<open>
  \<open>UPDATE ... FROM workers, jobs\<close>: an attempt is hit when some worker and some job row join with it;
  identifiers are keys, so at most one of each does.
\<close>

definition renewing_worker :: "timestamp \<Rightarrow> attempt_row \<Rightarrow> worker_row \<Rightarrow> bool" where
  "renewing_worker t a w \<longleftrightarrow> Some (w_id w) = a_worker a \<and> worker_live t w"

definition renewable :: "db \<Rightarrow> timestamp \<Rightarrow> claimed_job \<Rightarrow> int \<Rightarrow> attempt_row \<Rightarrow> bool" where
  "renewable s t c job_id a \<longleftrightarrow>
     attempt_held t c job_id a \<and> list_ex (renewing_worker t a) (workers s) \<and>
     list_ex (\<lambda>j. j_id j = a_job a \<and> j_state j \<in> held_states) (jobs s)"

definition renewed_attempt :: "db \<Rightarrow> timestamp \<Rightarrow> attempt_row \<Rightarrow> attempt_row" where
  "renewed_attempt s t a =
     (case fetch_optional (filter (renewing_worker t a) (workers s)) of
        None \<Rightarrow> a
      | Some w \<Rightarrow> a\<lparr>a_lease_expires_at := Some (t + seconds (w_lease_seconds w))\<rparr>)"

definition renew_lease_with_time ::
  "timestamp \<Rightarrow> claimed_job \<Rightarrow> timestamp option \<Rightarrow> timestamp tx" where
  "renew_lease_with_time now c as_of =
     (let t = (case as_of of None \<Rightarrow> now | Some t \<Rightarrow> t) in
      tx_bind (tx_lift (encode_job_id (cj_job_id c))) (\<lambda>job_id.
      tx_bind (\<lambda>s. update_attempts (renewable s t c job_id) (renewed_attempt s t) s) (\<lambda>renewed.
      tx_ok_or ClaimLost
        (case fetch_optional renewed of None \<Rightarrow> None | Some a \<Rightarrow> a_lease_expires_at a))))"

section \<open>Reclamation\<close>

datatype reclaim_disposition =
  ReclaimRetryScheduled timestamp | ReclaimFailed | ReclaimCancelled

record reclaimed_attempt =
  ra_job_id :: job_id
  ra_attempt_id :: int
  ra_worker_id :: uuid
  ra_disposition :: reclaim_disposition

definition elapsed_milliseconds :: "timestamp \<Rightarrow> timestamp \<Rightarrow> repository_error + int" where
  "elapsed_milliseconds started_at finished_at =
     ok_or (InvalidData ''attempt duration exceeds BIGINT'')
       (to_signed i64_range (max 0 (whole_milliseconds (finished_at - started_at))))"

text \<open>
  The candidate of the reclaim query: an expired running attempt joined with its held job, neither row
  locked by another transaction, the earliest lease first.
\<close>

definition expired :: "timestamp \<Rightarrow> attempt_row \<Rightarrow> bool" where
  "expired t a \<longleftrightarrow> a_state a = ARunning \<and> (\<exists>l \<in> set_option (a_lease_expires_at a). l \<le> t)"

definition lease_of :: "attempt_row \<Rightarrow> timestamp" where
  "lease_of a = (case a_lease_expires_at a of Some l \<Rightarrow> l | None \<Rightarrow> 0)"

definition reclaim_candidates :: "(int \<Rightarrow> int \<Rightarrow> bool) \<Rightarrow> timestamp \<Rightarrow> db \<Rightarrow> (attempt_row \<times> job_row) list" where
  "reclaim_candidates locked t s =
     filter (\<lambda>(a, j). expired t a \<and> a_job a = j_id j \<and> j_state j \<in> held_states \<and> \<not> locked (a_id a) (j_id j))
       (List.product (attempts s) (jobs s))"

definition reclaim_key :: "attempt_row \<times> job_row \<Rightarrow> timestamp \<times> int" where
  "reclaim_key p = (lease_of (fst p), a_id (fst p))"

definition reclaim_attempt_row :: "bool \<Rightarrow> timestamp \<Rightarrow> int \<Rightarrow> attempt_row \<Rightarrow> attempt_row" where
  "reclaim_attempt_row cancelling as_of duration_ms a =
     a\<lparr>a_state := (if cancelling then ACancelled else AFailed), a_finished_at := Some as_of,
       a_duration_ms := Some duration_ms,
       a_error_kind := Some (if cancelling then lit ''cancelled'' else lit ''transient''),
       a_error_message :=
         Some (if cancelling then lease_expired_cancel_message else lease_expired_message)\<rparr>"

definition finish_reclaimed_cancel :: "int \<Rightarrow> timestamp \<Rightarrow> unit tx" where
  "finish_reclaimed_cancel job_id as_of =
     tx_bind (update_jobs (\<lambda>r. j_id r = job_id \<and> j_state r = CancelRequested) (cancel_job as_of)) (\<lambda>updated.
     tx_lift (ensure_one_row (length updated) ''cancel expired job''))"

definition schedule_reclaimed_retry :: "int \<Rightarrow> timestamp \<Rightarrow> timestamp \<Rightarrow> unit tx" where
  "schedule_reclaimed_retry job_id as_of available_at =
     tx_bind (update_jobs (\<lambda>r. j_id r = job_id \<and> j_state r = Running \<and> as_of \<le> available_at)
                (retry_job available_at lease_expired_message)) (\<lambda>updated.
     tx_lift (ensure_one_row (length updated) ''retry expired job''))"

definition fail_reclaimed_job :: "int \<Rightarrow> timestamp \<Rightarrow> unit tx" where
  "fail_reclaimed_job job_id as_of =
     tx_bind (update_jobs (\<lambda>r. j_id r = job_id \<and> j_state r = Running)
                (fail_job as_of lease_expired_message)) (\<lambda>updated.
     tx_lift (ensure_one_row (length updated) ''fail expired job''))"

definition reclaim_job ::
  "(timestamp \<Rightarrow> bool) \<Rightarrow> timestamp \<Rightarrow> attempt_row \<Rightarrow> job_row \<Rightarrow> reclaim_disposition tx" where
  "reclaim_job rng as_of a j =
     (if j_state j = CancelRequested then
        tx_bind (finish_reclaimed_cancel (j_id j) as_of) (\<lambda>_. tx_return ReclaimCancelled)
      else if a_number a < j_max_attempts j then
        tx_bind (tx_lift (decode_u32 (a_number a) ''attempt number'')) (\<lambda>n.
        tx_bind (tx_ok_or (InvalidData ''retry time overflowed'')
                   (checked_add rng as_of (seconds (uint (retry_backoff_seconds n))))) (\<lambda>available_at.
        tx_bind (schedule_reclaimed_retry (j_id j) as_of available_at) (\<lambda>_.
        tx_return (ReclaimRetryScheduled available_at))))
      else
        tx_bind (fail_reclaimed_job (j_id j) as_of) (\<lambda>_. tx_return ReclaimFailed))"

definition reclaim_body ::
  "(int \<Rightarrow> int \<Rightarrow> bool) \<Rightarrow> (timestamp \<Rightarrow> bool) \<Rightarrow> timestamp \<Rightarrow>
   (attempt_row \<times> job_row \<times> uuid \<times> reclaim_disposition) option tx" where
  "reclaim_body locked rng as_of =
     tx_bind (tx_select (\<lambda>s. first_by reclaim_key (reclaim_candidates locked as_of s))) (\<lambda>candidate.
     case candidate of
       None \<Rightarrow> tx_return None
     | Some (a, j) \<Rightarrow>
     tx_bind (tx_ok_or (InvalidData ''running attempt has no worker owner'') (a_worker a)) (\<lambda>worker.
     tx_bind (tx_lift (elapsed_milliseconds (a_started_at a) as_of)) (\<lambda>duration_ms.
     tx_bind (update_attempts
                (\<lambda>r. a_id r = a_id a \<and> a_job r = j_id j \<and> expired as_of r)
                (reclaim_attempt_row (j_state j = CancelRequested) as_of duration_ms)) (\<lambda>updated.
     tx_bind (tx_lift (ensure_one_row (length updated) ''expire worker attempt'')) (\<lambda>_.
     tx_bind (reclaim_job rng as_of a j) (\<lambda>disposition.
     tx_return (Some (a, j, worker, disposition))))))))"

definition reclaim_next_expired_attempt_at ::
  "(int \<Rightarrow> int \<Rightarrow> bool) \<Rightarrow> (timestamp \<Rightarrow> bool) \<Rightarrow> timestamp \<Rightarrow> reclaimed_attempt option tx" where
  "reclaim_next_expired_attempt_at locked rng as_of =
     tx_bind (transaction (reclaim_body locked rng as_of)) (\<lambda>reclaimed.
     case reclaimed of
       None \<Rightarrow> tx_return None
     | Some (a, j, worker, disposition) \<Rightarrow>
         tx_bind (tx_lift (decode_job_id (j_id j))) (\<lambda>job_id.
         tx_return (Some \<lparr>ra_job_id = job_id, ra_attempt_id = a_id a, ra_worker_id = worker,
                          ra_disposition = disposition\<rparr>)))"

section \<open>Workers are stored as validated\<close>

interpretation worker_status_codec: text_codec worker_status_as_str worker_status_from_str
proof
  show "worker_status_from_str (worker_status_as_str x) = Inr x" for x
    by (cases x) (simp_all add: worker_status_from_str_def)
  show "worker_status_from_str s = Inr x \<Longrightarrow> worker_status_as_str x = s" for s x
    by (auto simp: worker_status_from_str_def split: if_splits)
qed

text \<open>A validated registration passes every constraint of the table.\<close>

lemma validate_duration_Inr_iff:
  "validate_duration d field = Inr u \<longleftrightarrow>
     min_lease_duration \<le> d \<and> d \<le> max_lease_duration \<and> subsec_nanos d = 0"
  by (auto simp: validate_duration_def)

lemma validated_seconds:
  assumes "validate_duration d field = Inr u"
  shows "duration_seconds d field' = Inr (as_secs d)" and "2 \<le> as_secs d" and "as_secs d \<le> 3600"
    and "seconds (as_secs d) = int d"
proof -
  have d: "2 * 1000000000 \<le> d" "d \<le> 3600 * 1000000000" "d mod 1000000000 = 0"
    using assms by (simp_all add: validate_duration_Inr_iff min_lease_duration_def
        max_lease_duration_def from_secs_def subsec_nanos_def)
  then have "2 \<le> d div 1000000000" "d div 1000000000 \<le> 3600" by linarith+
  then show secs: "2 \<le> as_secs d" "as_secs d \<le> 3600" by (simp_all add: as_secs_def)
  have "d div 1000000000 * 1000000000 = d" by (rule dvd_div_mult_self) (simp add: dvd_eq_mod_eq_0 d(3))
  then show "seconds (as_secs d) = int d"
    unfolding seconds_def as_secs_def by (metis of_nat_mult of_nat_numeral)
  show "duration_seconds d field' = Inr (as_secs d)"
    using secs by (simp add: duration_seconds_def i32_range_def)
qed

section \<open>The invariant\<close>

lemma job_inv_advance:
  assumes inv: "job_inv j as" and k: "keyed a_id as" and a: "a \<in> set as" "running a"
    and a': "a_id a' = a_id a" "a_number a' = a_number a" "running a'" "attempt_ok a'"
      "a_progress_total a' = a_progress_total a" "a_progress_completed a' = j_progress_completed j'"
    and j': "job_readable j'" "j_max_attempts j' = j_max_attempts j" "j_state j' = j_state j"
      "j_progress_total j' = j_progress_total j" "j_finished_at j' = j_finished_at j"
      "j_cancel_requested_at j' = j_cancel_requested_at j"
  shows "job_inv j' (put_row a_id a' as)"
proof -
  have s: "set (put_row a_id a' as) = insert a' (set as - {a})"
    by (rule set_put_row [OF k a(1) a'(1)])
  note held = job_inv_running [OF inv a]
  have st: "j_state j \<notin> claimable_states" "j_state j \<noteq> Succeeded" "j_state j \<noteq> Queued"
    using held(1) by (auto simp: state_groups)
  have only: "\<forall>b \<in> set as - {a}. \<not> running b" using job_inv_one_running [OF inv _ a(1) _ a(2)] by blast
  have nosucc: "\<forall>b \<in> set as. a_state b \<noteq> ASucceeded" using job_inv_succeeded [OF inv] st by blast
  have ok: "\<forall>b \<in> set (put_row a_id a' as). attempt_ok b \<and> a_number b \<le> j_max_attempts j'"
    using job_inv_attempts [OF inv] a(1) a'(2,4) j'(2) unfolding s by auto
  have "a_state a' \<noteq> ASucceeded" using a'(3) by (simp add: running_def)
  then show ?thesis
    unfolding job_inv_def j'(3,5,6)
    using ok j'(1) st held a'(2,3,5,6) j'(4) only nosucc job_inv_terminal [OF inv] job_inv_cancel [OF inv]
    unfolding s by auto
qed

lemma update_one_attempt_inv:
  assumes inv: "queue_inv s" and upd: "update_attempts P F s = (Inr hits, t)"
    and P: "\<And>a. P a \<Longrightarrow> a_id a = i" "\<And>a. P a \<Longrightarrow> running a"
    and F: "\<And>a. a_id (F a) = a_id a" "\<And>a. a_job (F a) = a_job a" "\<And>a. a_number (F a) = a_number a"
      "\<And>a. a_token (F a) = a_token a" "\<And>a. a_state (F a) = a_state a"
      "\<And>a. a_progress_total (F a) = a_progress_total a"
      "\<And>a. a_progress_completed (F a) = a_progress_completed a"
  shows "queue_inv t"
proof (cases "hits = []")
  case True
  with upd have "t = s"
    by (auto simp: update_attempts_def sql_update_Inr_iff update_where_none set_table_defs
        filter_empty_conv)
  with inv show ?thesis by simp
next
  case False
  have hits: "hits = List.map F (filter P (attempts s))"
    using upd by (simp add: update_attempts_def sql_update_Inr_iff)
  have "length hits = 1"
    using queue_inv_keyed(2) [OF inv] P(1)
    by (rule filter_keyed_cases [where P = P]) (use hits False in simp_all)
  with upd inv F(1) obtain a where
    a: "a \<in> set (attempts s)" "P a" "attempt_ok (F a)"
      "t = set_attempts (put_row a_id (F a) (attempts s)) s"
    unfolding update_attempts_def
    by (elim sql_update_one [where k = a_id]) (auto simp: queue_inv_keyed)
  from attempt_job [OF inv a(1)] obtain j where
    j: "j \<in> set (jobs s)" "j_id j = a_job a" "a \<in> set (attempts_of s (j_id j))" .
  note ij = queue_inv_job [OF inv j(1)]
  have "job_inv j (put_row a_id (F a) (attempts_of s (j_id j)))"
    by (rule job_inv_advance [OF ij keyed_attempts_of [OF inv] j(3) P(2) [OF a(2)]])
      (use a(2,3) P(2) F job_inv_readable [OF ij] job_inv_running(3) [OF ij j(3)] in
        \<open>simp_all add: running_def\<close>)
  then show ?thesis
    using a(4) by (intro queue_inv_put_attempt [OF inv j(1) a(1)]) (simp_all add: F j(2) set_table_defs)
qed

lemma renewable_running: "renewable s t c i a \<Longrightarrow> a_id a = cj_attempt_id c" "renewable s t c i a \<Longrightarrow> running a"
  by (simp_all add: renewable_def attempt_held_def running_def)

lemma renewed_attempt_frame [simp]:
  "a_id (renewed_attempt s t a) = a_id a" "a_job (renewed_attempt s t a) = a_job a"
  "a_number (renewed_attempt s t a) = a_number a" "a_token (renewed_attempt s t a) = a_token a"
  "a_state (renewed_attempt s t a) = a_state a" "a_worker (renewed_attempt s t a) = a_worker a"
  "a_progress_total (renewed_attempt s t a) = a_progress_total a"
  "a_progress_completed (renewed_attempt s t a) = a_progress_completed a"
  "a_started_at (renewed_attempt s t a) = a_started_at a"
  "a_queue_wait_ms (renewed_attempt s t a) = a_queue_wait_ms a"
  by (simp_all add: renewed_attempt_def split: option.split)

lemma renew_lease_keeps: "keeps queue_inv (renew_lease_with_time now c as_of)"
  unfolding renew_lease_with_time_def Let_def
proof (intro keeps_bind keeps_simple, unfold keeps_def, intro allI impI)
  fix i s assume inv: "queue_inv s"
  let ?t = "case as_of of None \<Rightarrow> now | Some t \<Rightarrow> t"
  show "queue_inv (snd (update_attempts (renewable s ?t c i) (renewed_attempt s ?t) s))"
  proof (cases "update_attempts (renewable s ?t c i) (renewed_attempt s ?t) s")
    case (Pair r u)
    show ?thesis
    proof (cases r)
      case (Inl e)
      with Pair have "u = s" by (auto simp: update_attempts_def sql_update_Inl_iff)
      with Pair inv show ?thesis by simp
    next
      case (Inr hits)
      have "queue_inv u"
        by (rule update_one_attempt_inv [OF inv Pair [unfolded Inr]])
          (simp_all add: renewable_running)
      with Pair show ?thesis by simp
    qed
  qed
qed

lemma worker_ops_keep:
  "keeps queue_inv (register_worker_at now r as_of)"
  "keeps queue_inv (heartbeat_worker_at w ttl as_of)" "keeps queue_inv (stop_worker now w)"
  "keeps queue_inv (get_worker now w)" "keeps queue_inv (list_workers now)"
  unfolding register_worker_at_def heartbeat_worker_at_def stop_worker_def get_worker_def list_workers_def
  by (intro keeps_bind keeps_simple queue_other_statements)+

text \<open>Reclamation: the candidate, and the writes that follow.\<close>

lemma reclaim_candidate:
  assumes "first_by reclaim_key (reclaim_candidates locked t s) = Some (a, j)"
  shows "a \<in> set (attempts s)" and "j \<in> set (jobs s)" and "expired t a" and "a_job a = j_id j"
    and "j_state j \<in> held_states" and "\<not> locked (a_id a) (j_id j)"
  using first_by_Some_mem [OF assms] by (auto simp: reclaim_candidates_def)

lemma reclaim_body_Some:
  assumes "reclaim_body locked rng as_of s = (Inr (Some (a, j, worker, d)), t)"
  obtains ms hits u where
    "first_by reclaim_key (reclaim_candidates locked as_of s) = Some (a, j)"
    and "a_worker a = Some worker"
    and "elapsed_milliseconds (a_started_at a) as_of = Inr ms"
    and "update_attempts (\<lambda>r. a_id r = a_id a \<and> a_job r = j_id j \<and> expired as_of r)
           (reclaim_attempt_row (j_state j = CancelRequested) as_of ms) s = (Inr hits, u)"
    and "length hits = 1"
    and "reclaim_job rng as_of a j u = (Inr d, t)"
  using assms that unfolding reclaim_body_def
  by (auto simp: tx_bind_Inr_iff tx_returns split: option.splits prod.splits)

text \<open>The three ways a reclaimed job goes on.\<close>

lemma reclaim_job_cases:
  assumes "reclaim_job rng as_of a j u = (Inr d, t)"
  obtains (cancelled) hits where "j_state j = CancelRequested" and "d = ReclaimCancelled"
      and "update_jobs (\<lambda>r. j_id r = j_id j \<and> j_state r = CancelRequested) (cancel_job as_of) u = (Inr hits, t)"
      and "length hits = 1"
  | (retried) hits n at where "j_state j \<noteq> CancelRequested" and "a_number a < j_max_attempts j"
      and "decode_u32 (a_number a) ''attempt number'' = Inr n"
      and "checked_add rng as_of (seconds (uint (retry_backoff_seconds n))) = Some at"
      and "d = ReclaimRetryScheduled at"
      and "update_jobs (\<lambda>r. j_id r = j_id j \<and> j_state r = Running \<and> as_of \<le> at)
             (retry_job at lease_expired_message) u = (Inr hits, t)"
      and "length hits = 1"
  | (failed) hits where "j_state j \<noteq> CancelRequested" and "\<not> a_number a < j_max_attempts j"
      and "d = ReclaimFailed"
      and "update_jobs (\<lambda>r. j_id r = j_id j \<and> j_state r = Running) (fail_job as_of lease_expired_message) u
             = (Inr hits, t)"
      and "length hits = 1"
proof -
  consider "j_state j = CancelRequested" | "j_state j \<noteq> CancelRequested" "a_number a < j_max_attempts j"
    | "j_state j \<noteq> CancelRequested" "\<not> a_number a < j_max_attempts j" by blast
  then show thesis
  proof cases
    case 1
    with assms show thesis
      by (auto simp: reclaim_job_def finish_reclaimed_cancel_def tx_bind_Inr_iff tx_returns intro: cancelled)
  next
    case 2
    with assms show thesis
      by (auto simp: reclaim_job_def schedule_reclaimed_retry_def tx_bind_Inr_iff tx_returns intro: retried)
  next
    case 3
    with assms show thesis
      by (auto simp: reclaim_job_def fail_reclaimed_job_def tx_bind_Inr_iff tx_returns intro: failed)
  qed
qed

lemma expired_running: "expired t a \<Longrightarrow> running a"
  by (simp add: expired_def running_def)

lemma reclaim_body_advances: "advances (reclaim_body locked rng as_of)"
  unfolding reclaim_body_def reclaim_job_def finish_reclaimed_cancel_def schedule_reclaimed_retry_def
    fail_reclaimed_job_def
  by (intro advances_rules) (auto intro!: advances_rules split: option.split prod.split)

lemma reclaim_write:
  assumes inv: "queue_inv s" and aj: "a \<in> set (attempts s)" "j \<in> set (jobs s)" "a_job a = j_id j"
    and att: "update_attempts (\<lambda>r. a_id r = a_id a \<and> a_job r = j_id j \<and> expired as_of r)
        (reclaim_attempt_row cancelling as_of ms) s = (Inr as, u)" "length as = 1"
    and job: "update_jobs Q G u = (Inr js, t)" "length js = 1"
    and Q: "\<And>r. Q r \<Longrightarrow> j_id r = j_id j" and G: "\<And>r. j_id (G r) = j_id r"
      "\<And>r. j_max_attempts (G r) = j_max_attempts r"
      "\<And>r. job_readable r \<Longrightarrow> job_ok (G r) \<Longrightarrow> job_readable (G r)"
    and st: "j_state (G j) \<in> {RetryWaiting, Failed, Cancelled}"
      "j_state (G j) = RetryWaiting \<Longrightarrow> a_number a < j_max_attempts j"
      "j_state (G j) = Cancelled \<Longrightarrow> j_state j = CancelRequested \<and> j_cancel_requested_at (G j) = j_cancel_requested_at j"
      "j_state (G j) = RetryWaiting \<longleftrightarrow> j_finished_at (G j) = None"
  shows "queue_inv t"
proof (rule claim_write [where i = "j_id j", OF inv att job], goal_cases)
  case (8 b k)
  have b: "b = a"
    using keyed_unique [OF queue_inv_keyed(2) [OF inv] _ aj(1)] 8(3,4) by (simp add: attempts_of_def)
  have k: "k = j" by (rule keyed_unique [OF queue_inv_keyed(1) [OF inv] 8(9) aj(2) 8(8)])
  have readable: "job_readable (G j)" using G(3) [OF job_inv_readable [OF 8(1)] 8(7)] k by simp
  have "j_cancel_requested_at (G j) \<noteq> None" if "j_state (G j) = Cancelled"
    using st(3) [OF that] job_inv_cancel [OF 8(1)] k by simp
  then show ?case
    unfolding b k
    by (intro job_inv_close [OF 8(1) [unfolded k] 8(2) 8(4) [unfolded b] expired_running])
      (use 8(3,6) readable st G(2) in \<open>auto simp: b k reclaim_attempt_row_def state_groups running_def\<close>)
qed (use Q G(1) in \<open>auto simp: reclaim_attempt_row_def\<close>)

lemma outcome_rows [simp]:
  "j_id (cancel_job t r) = j_id r" "j_id (fail_job t m r) = j_id r" "j_id (retry_job t m r) = j_id r"
  "j_max_attempts (cancel_job t r) = j_max_attempts r"
  "j_max_attempts (fail_job t m r) = j_max_attempts r"
  "j_max_attempts (retry_job t m r) = j_max_attempts r"
  "j_state (cancel_job t r) = Cancelled" "j_state (fail_job t m r) = Failed"
  "j_state (retry_job t m r) = RetryWaiting"
  "j_finished_at (cancel_job t r) = Some t" "j_finished_at (fail_job t m r) = Some t"
  "j_finished_at (retry_job t m r) = None"
  "j_cancel_requested_at (cancel_job t r) = j_cancel_requested_at r"
  by (simp_all add: cancel_job_def fail_job_def retry_job_def)

lemma terminal_job_rows:
  "job_readable r \<Longrightarrow> job_ok (cancel_job t r) \<Longrightarrow> job_readable (cancel_job t r)"
  "job_readable r \<Longrightarrow> job_ok (fail_job t m r) \<Longrightarrow> job_readable (fail_job t m r)"
  "job_readable r \<Longrightarrow> job_ok (retry_job t m r) \<Longrightarrow> job_readable (retry_job t m r)"
  by (erule (1) job_readable_frame; simp add: cancel_job_def fail_job_def retry_job_def)+

lemma reclaim_body_keeps:
  assumes inv: "queue_inv s" and run: "reclaim_body locked rng as_of s = (Inr x, t)"
  shows "queue_inv t"
proof (cases x)
  case None
  with run have "t = s"
    by (auto simp: reclaim_body_def tx_bind_Inr_iff tx_returns split: option.splits prod.splits)
  with inv show ?thesis by simp
next
  case (Some r)
  obtain a j worker d where r: "r = (a, j, worker, d)" by (cases r)
  from run Some r obtain ms hits u where
    c: "first_by reclaim_key (reclaim_candidates locked as_of s) = Some (a, j)"
    and att: "update_attempts (\<lambda>r. a_id r = a_id a \<and> a_job r = j_id j \<and> expired as_of r)
           (reclaim_attempt_row (j_state j = CancelRequested) as_of ms) s = (Inr hits, u)" "length hits = 1"
    and job: "reclaim_job rng as_of a j u = (Inr d, t)"
    by (auto elim: reclaim_body_Some)
  note cand = reclaim_candidate [OF c]
  from job show ?thesis
  proof (cases rule: reclaim_job_cases)
    case (cancelled js)
    then show ?thesis
      by (intro reclaim_write [OF inv cand(1,2,4) att cancelled(3,4)])
        (simp_all add: terminal_job_rows)
  next
    case (retried js n at)
    then show ?thesis
      by (intro reclaim_write [OF inv cand(1,2,4) att retried(6,7)])
        (simp_all add: terminal_job_rows) 
  next
    case (failed js)
    then show ?thesis
      by (intro reclaim_write [OF inv cand(1,2,4) att failed(4,5)])
        (simp_all add: terminal_job_rows)
  qed
qed

lemma reclaim_keeps: "keeps queue_inv (reclaim_next_expired_attempt_at locked rng as_of)"
  unfolding reclaim_next_expired_attempt_at_def
proof (intro keeps_bind queue.keeps_transaction reclaim_body_advances, goal_cases)
  case (1 s x t)
  then show ?case by (rule reclaim_body_keeps)
next
  case (2 x)
  show ?case by (auto split: option.split prod.split intro!: keeps_bind)
qed

section \<open>History\<close>

lemma history_renew: "obeys evolves (renew_lease_with_time now c as_of)"
  unfolding renew_lease_with_time_def Let_def
proof (intro history_rules)
  fix i
  let ?t = "case as_of of None \<Rightarrow> now | Some t \<Rightarrow> t"
  have "obeys evolves (update_attempts (renewable s ?t c i) (renewed_attempt s ?t))" for s
    by (intro history_rules) (auto simp: attempt_step_def dest: renewable_running)
  then show "obeys evolves (\<lambda>s. update_attempts (renewable s ?t c i) (renewed_attempt s ?t) s)"
    unfolding obeys_def by blast
qed

lemma leases_history:
  "obeys evolves (register_worker_at now r as_of)" "obeys evolves (heartbeat_worker_at w ttl as_of)"
  "obeys evolves (stop_worker now w)" "obeys evolves (get_worker now w)"
  "obeys evolves (list_workers now)"
  unfolding register_worker_at_def heartbeat_worker_at_def stop_worker_def get_worker_def list_workers_def
  by (intro history_rules)+

lemma reclaim_history: "obeys evolves (reclaim_next_expired_attempt_at locked rng as_of)"
  unfolding reclaim_next_expired_attempt_at_def reclaim_body_def reclaim_job_def
    finish_reclaimed_cancel_def schedule_reclaimed_retry_def fail_reclaimed_job_def
  by (intro history_rules)
    (auto intro!: history_rules split: option.split prod.split
      simp: job_step_def attempt_step_def cancel_job_def fail_job_def retry_job_def
        reclaim_attempt_row_def expired_def running_def state_groups)

end
