(* ===== verification/Images.thy ===== *)
theory Images
  imports Leases
begin

text \<open>
  Image jobs (\<open>crates/adapters/src/image_repository.rs\<close>): creation with its inputs and the
  idempotency key, the artifact a client may download, progress under a claim, and completion, which
  publishes one output per input together with the succeeded job.
\<close>

section \<open>Requests\<close>

definition max_files_per_job :: nat where
  "max_files_per_job = 10"

definition max_output_width :: u32 where
  "max_output_width = 8192"

record idempotency_request =
  ir_key :: ustring
  ir_fingerprint :: "u8 list"

record new_input_artifact =
  ni_storage_key :: ustring
  ni_display_name :: ustring
  ni_media_type :: ustring
  ni_byte_size :: u64
  ni_width :: u32
  ni_height :: u32
  ni_checksum_sha256 :: "u8 list"

record new_image_job =
  nj_owner_user_id :: user_id
  nj_name :: job_name
  nj_max_width :: u32
  nj_jpeg_quality :: u8
  nj_available_at :: "timestamp option"
  nj_priority :: job_priority
  nj_inputs :: "new_input_artifact list"
  nj_idempotency :: "idempotency_request option"

record pending_output_artifact =
  po_source_artifact_id :: u64
  po_item_index :: u16
  po_storage_key :: ustring
  po_display_name :: ustring
  po_media_type :: ustring
  po_byte_size :: u64
  po_width :: u32
  po_height :: u32

definition idempotency_invalid :: "idempotency_request \<Rightarrow> bool" where
  "idempotency_invalid r \<longleftrightarrow>
     ir_key r = [] \<or> byte_len (ir_key r) > 128 \<or> length (ir_fingerprint r) \<noteq> 32"

definition new_image_job_validate :: "new_image_job \<Rightarrow> repository_error + unit" where
  "new_image_job_validate r =
     (if nj_inputs r = [] \<or> length (nj_inputs r) > max_files_per_job
      then Inl (InvalidData ''image job must contain between 1 and 10 inputs'')
      else if nj_max_width r = 0 \<or> nj_max_width r > max_output_width \<or>
              \<not> (1 \<le> nj_jpeg_quality r \<and> nj_jpeg_quality r \<le> 100)
      then Inl (InvalidData ''image settings are outside the supported range'')
      else if (case nj_idempotency r of None \<Rightarrow> False | Some i \<Rightarrow> idempotency_invalid i)
      then Inl (InvalidData ''idempotency data is outside the supported range'')
      else Inr ())"

section \<open>Creation\<close>

definition idempotent_row :: "user_id \<Rightarrow> ustring \<Rightarrow> db \<Rightarrow> job_row option" where
  "idempotent_row owner key s =
     fetch_optional (filter (\<lambda>r. j_owner r = user_id_get owner \<and> j_idempotency_key r = Some key) (jobs s))"

text \<open>The fingerprint column is read as \<open>Vec<u8>\<close>, which a null column does not decode to.\<close>

definition fingerprint_of :: "job_row \<Rightarrow> repository_error + u8 list" where
  "fingerprint_of r = ok_or (Database ColumnDecode) (j_fingerprint r)"

definition find_idempotent_image_job ::
  "user_id \<Rightarrow> idempotency_request \<Rightarrow> job_record option tx" where
  "find_idempotent_image_job owner r =
     (if idempotency_invalid r
      then tx_fail (InvalidData ''idempotency data is outside the supported range'')
      else
      tx_bind (tx_select (idempotent_row owner (ir_key r))) (\<lambda>row.
      case row of
        None \<Rightarrow> tx_return None
      | Some row \<Rightarrow>
      tx_bind (tx_lift (fingerprint_of row)) (\<lambda>fingerprint.
      if fingerprint \<noteq> ir_fingerprint r then tx_fail IdempotencyConflict
      else
      tx_bind (tx_lift (decode_job_id (j_id row))) (\<lambda>i.
      tx_bind (get_with_owner i (Some owner)) (\<lambda>found.
      tx_bind (tx_ok_or (StateConflict ''read idempotent image job'') found) (\<lambda>record.
      tx_return (Some record)))))))"

definition image_job_row :: "timestamp \<Rightarrow> new_image_job \<Rightarrow> int \<Rightarrow> int \<Rightarrow> int \<Rightarrow> job_row" where
  "image_job_row now r progress_total max_width i =
     default_job now i (job_name_as_str (nj_name r))
       \<lparr>j_type := ImageResize,
        j_available_at := (case nj_available_at r of Some t \<Rightarrow> t | None \<Rightarrow> now),
        j_priority := nj_priority r, j_progress_total := progress_total,
        j_max_width := Some max_width, j_jpeg_quality := Some (uint (nj_jpeg_quality r)),
        j_owner := user_id_get (nj_owner_user_id r),
        j_idempotency_key := map_option ir_key (nj_idempotency r),
        j_fingerprint := map_option ir_fingerprint (nj_idempotency r)\<rparr>"

definition input_row ::
  "timestamp \<Rightarrow> int \<Rightarrow> int \<Rightarrow> new_input_artifact \<Rightarrow> int \<Rightarrow> int \<Rightarrow> int \<Rightarrow> int \<Rightarrow> artifact_row" where
  "input_row now job index a bytes w h i =
     \<lparr>f_id = i, f_job = job, f_attempt = None, f_source = None, f_kind = Input,
      f_item_index = index, f_storage_key = ni_storage_key a, f_display_name = ni_display_name a,
      f_media_type = ni_media_type a, f_byte_size = bytes, f_width = w, f_height = h,
      f_created_at = now, f_checksum = Some (ni_checksum_sha256 a)\<rparr>"

definition insert_input_artifact :: "timestamp \<Rightarrow> int \<Rightarrow> int \<Rightarrow> new_input_artifact \<Rightarrow> unit tx" where
  "insert_input_artifact now job index a =
     tx_bind (tx_lift (encode_u64 (ni_byte_size a) ''input byte size'')) (\<lambda>bytes.
     tx_bind (tx_ok_or (InvalidData ''input width exceeds INTEGER'') (to_signed i32_range (uint (ni_width a)))) (\<lambda>w.
     tx_bind (tx_ok_or (InvalidData ''input height exceeds INTEGER'') (to_signed i32_range (uint (ni_height a)))) (\<lambda>h.
     tx_bind (insert_artifact (input_row now job index a bytes w h)) (\<lambda>_.
     tx_return ()))))"

datatype created_image_job = ExistingJob int | CreatedJob int

definition create_image_job_body :: "timestamp \<Rightarrow> new_image_job \<Rightarrow> created_image_job tx" where
  "create_image_job_body now r =
     tx_bind (tx_ok_or (InvalidData ''too many image inputs'')
                (to_signed i32_range (int (length (nj_inputs r))))) (\<lambda>progress_total.
     tx_bind (tx_ok_or (InvalidData ''max width exceeds INTEGER'')
                (to_signed i32_range (uint (nj_max_width r)))) (\<lambda>max_width.
     tx_bind (case nj_idempotency r of
                None \<Rightarrow> tx_return None
              | Some i \<Rightarrow>
                  tx_bind (tx_select (idempotent_row (nj_owner_user_id r) (ir_key i))) (\<lambda>row.
                  case row of
                    None \<Rightarrow> tx_return None
                  | Some row \<Rightarrow>
                      tx_bind (tx_lift (fingerprint_of row)) (\<lambda>fingerprint.
                      if fingerprint \<noteq> ir_fingerprint i then tx_fail IdempotencyConflict
                      else tx_return (Some (j_id row))))) (\<lambda>existing.
     case existing of
       Some job_id \<Rightarrow> tx_return (ExistingJob job_id)
     | None \<Rightarrow>
     tx_bind (insert_job (image_job_row now r progress_total max_width)) (\<lambda>job.
     tx_bind (tx_for (\<lambda>(index, input).
         tx_bind (tx_ok_or (InvalidData ''item index exceeds SMALLINT'') (to_signed i16_range (int index)))
           (\<lambda>index. insert_input_artifact now (j_id job) index input))
         (enumerate 0 (nj_inputs r))) (\<lambda>_.
     tx_return (CreatedJob (j_id job)))))))"

definition create_image_job :: "timestamp \<Rightarrow> new_image_job \<Rightarrow> job_record tx" where
  "create_image_job now r =
     tx_bind (tx_lift (new_image_job_validate r)) (\<lambda>_.
     tx_bind (transaction (create_image_job_body now r)) (\<lambda>created.
     case created of
       ExistingJob job_id \<Rightarrow>
         tx_bind (tx_lift (decode_job_id job_id)) (\<lambda>i.
         tx_bind (get_with_owner i (Some (nj_owner_user_id r))) (\<lambda>found.
         tx_ok_or (StateConflict ''read idempotent image job'') found))
     | CreatedJob job_id \<Rightarrow>
         tx_bind (tx_lift (decode_job_id job_id)) (\<lambda>i.
         tx_bind (get_with_owner i None) (\<lambda>found.
         tx_ok_or (StateConflict ''read created image job'') found))))"

section \<open>Download\<close>

text \<open>The output rows joined with their job, where the job has succeeded and belongs to the owner.\<close>

definition downloadable :: "db \<Rightarrow> int \<Rightarrow> user_id option \<Rightarrow> artifact_row \<Rightarrow> bool" where
  "downloadable s artifact_id owner f \<longleftrightarrow>
     f_id f = artifact_id \<and> f_kind f = Output \<and>
     list_ex (\<lambda>j. j_id j = f_job f \<and> j_state j = Succeeded \<and> owned_by owner (j_owner j)) (jobs s)"

definition get_downloadable_artifact_with_owner ::
  "u64 \<Rightarrow> user_id option \<Rightarrow> artifact_record option tx" where
  "get_downloadable_artifact_with_owner artifact_id owner =
     tx_bind (tx_lift (encode_u64 artifact_id ''artifact ID'')) (\<lambda>i.
     (\<lambda>s. (opt_try (\<lambda>f. artifact_try_from (select_artifact f))
             (fetch_optional (filter (downloadable s i owner) (artifacts s))), s)))"

section \<open>Progress\<close>

definition progress_within :: "int \<Rightarrow> attempt_row \<Rightarrow> bool" where
  "progress_within completed a \<longleftrightarrow> between (a_progress_completed a) (a_progress_total a) completed"

definition update_progress :: "timestamp \<Rightarrow> claimed_job \<Rightarrow> u32 \<Rightarrow> unit tx" where
  "update_progress now c completed =
     tx_bind (tx_ok_or (InvalidData ''progress exceeds INTEGER'') (to_signed i32_range (uint completed))) (\<lambda>n.
     tx_bind (tx_lift (encode_job_id (cj_job_id c))) (\<lambda>job_id.
     transaction (
       tx_bind (update_attempts (\<lambda>a. attempt_held now c job_id a \<and> progress_within n a)
                  (\<lambda>a. a\<lparr>a_progress_completed := n\<rparr>)) (\<lambda>attempt.
       tx_bind (tx_lift (ensure_claim_row (length attempt))) (\<lambda>_.
       tx_bind (update_jobs
                  (\<lambda>r. j_id r = job_id \<and> j_state r = Running \<and>
                       between (j_progress_completed r) (j_progress_total r) n)
                  (\<lambda>r. r\<lparr>j_progress_completed := n\<rparr>)) (\<lambda>job.
       tx_lift (ensure_one_row (length job) ''update job progress'')))))))"

definition record_encoding_duration :: "timestamp \<Rightarrow> claimed_job \<Rightarrow> duration \<Rightarrow> unit tx" where
  "record_encoding_duration now c dur =
     tx_bind (tx_ok_or (InvalidData ''encoding duration exceeds BIGINT'') (to_signed i64_range (as_millis dur))) (\<lambda>ms.
     tx_bind (tx_lift (encode_job_id (cj_job_id c))) (\<lambda>job_id.
     tx_bind (update_attempts (attempt_held now c job_id)
                (\<lambda>a. a\<lparr>a_encoding_duration_ms := a_encoding_duration_ms a + ms\<rparr>)) (\<lambda>updated.
     tx_lift (ensure_claim_row (length updated)))))"

section \<open>Completion\<close>

definition output_row ::
  "timestamp \<Rightarrow> int \<Rightarrow> int \<Rightarrow> int \<Rightarrow> int \<Rightarrow> pending_output_artifact \<Rightarrow> int \<Rightarrow> int \<Rightarrow> int \<Rightarrow> int \<Rightarrow> artifact_row" where
  "output_row now job attempt source index a bytes w h i =
     \<lparr>f_id = i, f_job = job, f_attempt = Some attempt, f_source = Some source, f_kind = Output,
      f_item_index = index, f_storage_key = po_storage_key a, f_display_name = po_display_name a,
      f_media_type = po_media_type a, f_byte_size = bytes, f_width = w, f_height = h,
      f_created_at = now, f_checksum = None\<rparr>"

definition insert_output_artifact ::
  "timestamp \<Rightarrow> int \<Rightarrow> int \<Rightarrow> pending_output_artifact \<Rightarrow> unit tx" where
  "insert_output_artifact now job attempt a =
     tx_bind (tx_ok_or (InvalidData ''output item index exceeds SMALLINT'')
                (to_signed i16_range (uint (po_item_index a)))) (\<lambda>index.
     tx_bind (tx_lift (encode_u64 (po_byte_size a) ''output byte size'')) (\<lambda>bytes.
     tx_bind (tx_ok_or (InvalidData ''output width exceeds INTEGER'') (to_signed i32_range (uint (po_width a)))) (\<lambda>w.
     tx_bind (tx_ok_or (InvalidData ''output height exceeds INTEGER'') (to_signed i32_range (uint (po_height a)))) (\<lambda>h.
     tx_bind (tx_lift (encode_u64 (po_source_artifact_id a) ''source artifact ID'')) (\<lambda>source.
     tx_bind (tx_select (\<lambda>s. filter (\<lambda>f. f_id f = source \<and> f_job f = job \<and> f_kind f = Input \<and>
                                          f_item_index f = index) (artifacts s))) (\<lambda>sources.
     tx_bind (tx_for (\<lambda>f. tx_bind (insert_artifact (output_row now job attempt (f_id f) index a bytes w h))
                            (\<lambda>_. tx_return ())) sources) (\<lambda>_.
     tx_lift (ensure_one_row (length sources) ''publish output artifact''))))))))"

definition lock_active_claim :: "timestamp \<Rightarrow> claimed_job \<Rightarrow> int \<Rightarrow> unit tx" where
  "lock_active_claim now c job_id =
     tx_bind (tx_select (\<lambda>s. list_ex (\<lambda>a. attempt_held now c job_id a \<and>
         list_ex (\<lambda>j. j_id j = a_job a \<and> j_state j = Running) (jobs s)) (attempts s))) (\<lambda>active.
     tx_guard active ClaimLost)"

definition complete_attempt :: "timestamp \<Rightarrow> claimed_job \<Rightarrow> int \<Rightarrow> int \<Rightarrow> unit tx" where
  "complete_attempt now c job_id duration_ms =
     tx_bind (update_attempts (attempt_held now c job_id) (succeed_attempt now duration_ms)) (\<lambda>attempt.
     tx_lift (ensure_claim_row (length attempt)))"

definition images_message :: "nat \<Rightarrow> ustring" where
  "images_message n = lit (show_nat n @ '' '' @ (if n = 1 then ''image'' else ''images'') @ '' resized'')"

definition complete_image_body ::
  "timestamp \<Rightarrow> claimed_job \<Rightarrow> nat \<Rightarrow> int \<Rightarrow> int \<Rightarrow> pending_output_artifact list \<Rightarrow> unit tx" where
  "complete_image_body now c count job_id duration_ms outputs =
     tx_bind (lock_active_claim now c job_id) (\<lambda>_.
     tx_bind (tx_for (insert_output_artifact now job_id (cj_attempt_id c)) outputs) (\<lambda>_.
     tx_bind (complete_attempt now c job_id duration_ms) (\<lambda>_.
     tx_bind (update_jobs (\<lambda>r. j_id r = job_id \<and> j_state r = Running \<and> j_type r = ImageResize)
                (succeed_job now duration_ms (images_message count))) (\<lambda>job.
     tx_lift (ensure_one_row (length job) ''complete image job'')))))"

definition complete_image_job ::
  "timestamp \<Rightarrow> claimed_job \<Rightarrow> duration \<Rightarrow> pending_output_artifact list \<Rightarrow> unit tx" where
  "complete_image_job now c dur outputs =
     (case cj_work c of
        WDemoDelay _ \<Rightarrow> tx_fail (InvalidData ''demo job cannot publish image outputs'')
      | WImageResize _ _ inputs \<Rightarrow>
          if length outputs \<noteq> length inputs
          then tx_fail (InvalidData ''output count does not match input count'')
          else
          tx_bind (tx_lift (encode_duration dur)) (\<lambda>duration_ms.
          tx_bind (tx_lift (encode_job_id (cj_job_id c))) (\<lambda>job_id.
          transaction (complete_image_body now c (length inputs) job_id duration_ms outputs))))"

section \<open>Inserting artifacts\<close>

lemma insert_artifact_Inr:
  assumes "insert_artifact mk s = (Inr r, t)"
  shows "r = mk (seqs s Artifacts)" and "artifact_ok r"
    and "t = s\<lparr>artifacts := artifacts s @ [r], seqs := (seqs s)(Artifacts := seqs s Artifacts + 1)\<rparr>"
  using assms
  by (auto simp: insert_artifact_def sql_insert_Inr_iff set_table_defs artifact_insert_error_def
      split: if_splits)

text \<open>Inserting one artifact per element of a list appends them in order and touches no other table.\<close>

lemma tx_ignored: "tx_bind m (\<lambda>_. tx_return ()) s = (Inr (), t) \<longleftrightarrow> (\<exists>r. m s = (Inr r, t))"
  by (auto simp: tx_bind_Inr_iff tx_returns)

lemma insert_artifacts_for:
  assumes "tx_for (\<lambda>f. tx_bind (insert_artifact (mk f)) (\<lambda>_. tx_return ())) fs s = (Inr (), t)"
  shows "\<exists>new. artifacts t = artifacts s @ new \<and> list_all2 (\<lambda>f r. \<exists>i. r = mk f i) fs new \<and>
     list_all artifact_ok new \<and> jobs t = jobs s \<and> attempts t = attempts s \<and>
     schedules t = schedules s \<and> schedule_inputs t = schedule_inputs s \<and> occurrences t = occurrences s"
  using assms
proof (induction fs arbitrary: s)
  case Nil
  then show ?case by (simp add: tx_returns)
next
  case (Cons f fs)
  from Cons.prems [unfolded tx_for.simps] obtain x u where
    x: "tx_bind (insert_artifact (mk f)) (\<lambda>_. tx_return ()) s = (Inr x, u)"
    and rest: "tx_for (\<lambda>f. tx_bind (insert_artifact (mk f)) (\<lambda>_. tx_return ())) fs u = (Inr (), t)"
    by (rule tx_bind_InrE)
  from x have "\<exists>r. insert_artifact (mk f) s = (Inr r, u)"
    by (cases x) (simp only: tx_ignored)
  then obtain r where one: "insert_artifact (mk f) s = (Inr r, u)" by blast
  note r = insert_artifact_Inr [OF one]
  from Cons.IH [OF rest] obtain new where
    "artifacts t = artifacts u @ new" "list_all2 (\<lambda>f r. \<exists>i. r = mk f i) fs new"
    "list_all artifact_ok new" "jobs t = jobs u" "attempts t = attempts u" "schedules t = schedules u"
    "schedule_inputs t = schedule_inputs u" "occurrences t = occurrences u" by blast
  with r show ?case by (intro exI [of _ "r # new"]) auto
qed

lemma made_from_map:
  assumes "list_all2 (\<lambda>f r. \<exists>i. r = mk f i) fs new" and "\<And>f i. g (mk f i) = h f"
  shows "List.map g new = List.map h fs"
  using assms(1) by (induction rule: list_all2_induct) (auto simp: assms(2))

lemma made_from_all:
  assumes "list_all2 (\<lambda>f r. \<exists>i. r = mk f i) fs new" and "\<And>f i. f \<in> set fs \<Longrightarrow> P (mk f i)"
  shows "\<forall>r \<in> set new. P r"
  using assms by (induction rule: list_all2_induct) auto

section \<open>The invariant\<close>

lemma image_writes_advance:
  "advances (create_image_job_body now r)" "advances (insert_output_artifact now job a out)"
  "advances (complete_image_body now c n job ms outputs)"
  unfolding create_image_job_body_def insert_input_artifact_def complete_image_body_def
    insert_output_artifact_def lock_active_claim_def complete_attempt_def
  by (intro advances_rules;
      auto intro!: advances_rules split: option.split prod.split created_image_job.split)+

lemma insert_artifacts_keep:
  "keeps queue_inv (insert_input_artifact now job i inp)"
  "keeps queue_inv (insert_output_artifact now job a out)"
  unfolding insert_input_artifact_def insert_output_artifact_def
  by (intro keeps_bind keeps_simple keeps_for queue_other_statements)+

lemma create_image_job_body_keeps:
  assumes "job_name_new n = Inr (nj_name r)"
  shows "keeps queue_inv (create_image_job_body now r)"
proof -
  have "keeps queue_inv (insert_job (image_job_row now r total width))" for total width
  proof (rule keeps_insert_job)
    fix i :: int assume "0 < i" and ok: "job_ok (image_job_row now r total width i)"
    moreover have "\<exists>c \<in> set (job_name_as_str (nj_name r)). \<not> is_whitespace c"
      using assms by (auto simp: job_name_new_Inr_iff)
    ultimately show "job_inv (image_job_row now r total width i) []"
      by (intro job_inv_new) (simp_all add: image_job_row_def default_job_def job_readable_def)
  qed (simp add: image_job_row_def default_job_def)
  then show ?thesis
    unfolding create_image_job_body_def
    by (intro keeps_bind keeps_simple)
      (auto split: option.split intro!: keeps_bind keeps_for insert_artifacts_keep)
qed

lemma create_image_job_keeps:
  assumes "job_name_new n = Inr (nj_name r)"
  shows "keeps queue_inv (create_image_job now r)"
  unfolding create_image_job_def
proof (intro keeps_bind keeps_simple queue.keeps_transaction image_writes_advance, goal_cases)
  case (1 s x t)
  show ?case by (rule keepsD [OF create_image_job_body_keeps [OF assms] 1])
next
  case (2 x)
  show ?case by (auto split: created_image_job.split intro!: keeps_bind get_with_owner_simple)
qed

lemma image_reads_keep:
  "keeps I (find_idempotent_image_job owner ir)" "keeps I (get_downloadable_artifact_with_owner i o')"
  unfolding find_idempotent_image_job_def get_downloadable_artifact_with_owner_def
  by (auto intro!: keeps_bind get_with_owner_simple split: option.split)

lemma update_progress_keeps: "keeps queue_inv (update_progress now c completed)"
  unfolding update_progress_def
proof (intro keeps_bind keeps_simple queue.keeps_transaction, goal_cases)
  case (1 n i)
  then show ?case by (auto intro!: advances_rules)
next
  case (2 n i s x t)
  then obtain as u js where
    att: "update_attempts (\<lambda>a. attempt_held now c i a \<and> progress_within n a)
        (\<lambda>a. a\<lparr>a_progress_completed := n\<rparr>) s = (Inr as, u)" "length as = 1"
    and job: "update_jobs (\<lambda>r. j_id r = i \<and> j_state r = Running \<and>
          between (j_progress_completed r) (j_progress_total r) n)
        (\<lambda>r. r\<lparr>j_progress_completed := n\<rparr>) u = (Inr js, t)" "length js = 1"
    by (auto simp: tx_bind_Inr_iff tx_returns)
  show ?case
  proof (rule claim_write [where i = i, OF 2(1) att job], goal_cases)
    case (8 a j)
    have "job_readable (j\<lparr>j_progress_completed := n\<rparr>)"
      by (rule job_readable_frame [OF job_inv_readable [OF 8(1)] 8(7)]) simp_all
    moreover have "running a" using 8(3) attempt_held_running by blast
    ultimately show ?case
      by (intro job_inv_advance [OF 8(1,2,4)]) (use 8(6) in \<open>simp_all add: running_def\<close>)
  qed (simp_all add: attempt_held_def)
qed

lemma record_encoding_duration_keeps: "keeps queue_inv (record_encoding_duration now c dur)"
  unfolding record_encoding_duration_def
proof (intro keeps_bind keeps_simple, unfold update_attempts_def,
    rule queue.keeps_update, fold update_attempts_def, goal_cases)
  case (1 ms i s hits t)
  show ?case
    by (rule update_one_attempt_inv [where i = "cj_attempt_id c", OF 1])
      (simp_all add: attempt_held_def running_def)
qed

lemma complete_image_body_keeps:
  assumes inv: "queue_inv s" and run: "complete_image_body now c n i ms outputs s = (Inr x, t)"
  shows "queue_inv t"
proof -
  from run obtain u as v js where
    out: "tx_for (insert_output_artifact now i (cj_attempt_id c)) outputs s = (Inr (), u)"
    and att: "update_attempts (attempt_held now c i) (succeed_attempt now ms) u = (Inr as, v)"
      "length as = 1"
    and job: "update_jobs (\<lambda>r. j_id r = i \<and> j_state r = Running \<and> j_type r = ImageResize)
        (succeed_job now ms (images_message n)) v = (Inr js, t)" "length js = 1"
    by (auto simp: complete_image_body_def lock_active_claim_def complete_attempt_def
        tx_bind_Inr_iff tx_returns split: if_splits)
  have kept: "keeps queue_inv (tx_for (insert_output_artifact now i (cj_attempt_id c)) outputs)"
    by (intro keeps_for insert_artifacts_keep)
  have u: "queue_inv u" by (rule keepsD [OF kept inv out])
  show ?thesis
  proof (rule claim_write [where i = i, OF u att job], goal_cases)
    case (8 a j)
    have "job_readable (succeed_job now ms (images_message n) j)"
      by (rule job_readable_frame [OF job_inv_readable [OF 8(1)] 8(7)]) (simp_all add: succeed_job_def)
    then show ?case
      by (intro job_inv_close [OF 8(1,2,4) attempt_held_running [OF 8(3)]] 8(6))
        (simp_all add: succeed_attempt_def succeed_job_def state_groups running_def)
  qed (simp_all add: attempt_held_def succeed_attempt_def succeed_job_def)
qed

lemma complete_image_job_keeps: "keeps queue_inv (complete_image_job now c dur outputs)"
  unfolding complete_image_job_def
proof (cases "cj_work c")
  case (WImageResize w q inputs)
  have "keeps queue_inv (transaction (complete_image_body now c n i ms outputs))" for n i ms
    by (rule queue.keeps_transaction [OF image_writes_advance(3)]) (rule complete_image_body_keeps)
  with WImageResize show "keeps queue_inv (case cj_work c of
        WDemoDelay _ \<Rightarrow> tx_fail (InvalidData ''demo job cannot publish image outputs'')
      | WImageResize _ _ inputs \<Rightarrow>
          if length outputs \<noteq> length inputs
          then tx_fail (InvalidData ''output count does not match input count'')
          else
          tx_bind (tx_lift (encode_duration dur)) (\<lambda>duration_ms.
          tx_bind (tx_lift (encode_job_id (cj_job_id c))) (\<lambda>job_id.
          transaction (complete_image_body now c (length inputs) job_id duration_ms outputs))))"
    by (auto intro!: keeps_bind)
qed simp

section \<open>History\<close>

lemma images_history:
  "obeys evolves (find_idempotent_image_job owner ir)"
  "obeys evolves (create_image_job now r)"
  "obeys evolves (get_downloadable_artifact_with_owner i o')"
  "obeys evolves (update_progress now c completed)"
  "obeys evolves (record_encoding_duration now c dur)"
  "obeys evolves (complete_image_job now c dur outputs)"
proof -
  show "obeys evolves (find_idempotent_image_job owner ir)"
    "obeys evolves (get_downloadable_artifact_with_owner i o')"
    unfolding find_idempotent_image_job_def get_downloadable_artifact_with_owner_def
    by (auto intro!: history_rules get_with_owner_simple split: option.split)
  show "obeys evolves (create_image_job now r)"
    unfolding create_image_job_def create_image_job_body_def insert_input_artifact_def
    by (intro history_rules)
      (auto intro!: history_rules get_with_owner_simple simp: image_job_row_def default_job_def
        split: option.split prod.split created_image_job.split)
  show "obeys evolves (update_progress now c completed)"
    unfolding update_progress_def
    by (intro history_rules)
      (auto simp: job_step_def attempt_step_def attempt_held_def running_def state_groups)
  show "obeys evolves (record_encoding_duration now c dur)"
    unfolding record_encoding_duration_def
    by (intro history_rules) (auto simp: attempt_step_def attempt_held_def running_def)
  show "obeys evolves (complete_image_job now c dur outputs)"
    unfolding complete_image_job_def complete_image_body_def lock_active_claim_def
      complete_attempt_def insert_output_artifact_def
    by (auto intro!: history_rules split: claimed_work.split
        simp: job_step_def attempt_step_def succeed_job_def succeed_attempt_def attempt_held_def
          running_def state_groups)
qed

end
