(* ===== verification/Fencing.thy ===== *)
theory Fencing
  imports Images
begin

text \<open>
  The operations a worker performs under a claim share one contract: they succeed only while the
  attempt is held (running, with the claim's worker and token, its lease not expired), and otherwise
  report the claim lost and change no row. The contract is a locale; it is interpreted on the calls of
  the repository.
\<close>

section \<open>The contract\<close>

definition claim_live :: "timestamp \<Rightarrow> claimed_job \<Rightarrow> db \<Rightarrow> bool" where
  "claim_live now c s \<longleftrightarrow>
     list_ex (attempt_held now c (uint (job_id_get (cj_job_id c)))) (attempts s)"

lemma claim_live_iff:
  "claim_live now c s \<longleftrightarrow> (\<exists>a \<in> set (attempts s). attempt_held now c (uint (job_id_get (cj_job_id c))) a)"
  by (simp add: claim_live_def list_ex_iff)

locale fenced_op =
  fixes op :: "timestamp \<Rightarrow> claimed_job \<Rightarrow> 'i \<Rightarrow> 'a tx" and valid :: "claimed_job \<Rightarrow> 'i \<Rightarrow> bool"
  assumes atomic: "queue_inv s \<Longrightarrow> op now c i s = (Inl e, t) \<Longrightarrow> same_rows s t"
    and fenced: "op now c i s = (Inr x, t) \<Longrightarrow> claim_live now c s"
    and rejected: "valid c i \<Longrightarrow> \<not> claim_live now c s \<Longrightarrow> fst (op now c i s) = Inl ClaimLost"
begin

lemma stale:
  assumes "queue_inv s" and "valid c i" and "\<not> claim_live now c s"
  shows "fst (op now c i s) = Inl ClaimLost \<and> same_rows s (snd (op now c i s))"
  using rejected [OF assms(2,3)] atomic [OF assms(1)] by (metis prod.collapse)

lemma effect_needs_claim:
  assumes "queue_inv s" and "op now c i s = (r, t)" and "\<not> same_rows s t"
  shows "claim_live now c s"
  using assms atomic fenced by (cases r) auto

text \<open>Of all the claims ever issued for a job, one at most can act on it.\<close>

lemma one_holder:
  assumes inv: "queue_inv s" and same: "cj_job_id c = cj_job_id c'"
    and ok: "op now c i s = (Inr x, t)" "op now' c' i' s = (Inr x', t')"
  shows "cj_attempt_id c = cj_attempt_id c' \<and> cj_claim_token c = cj_claim_token c' \<and>
     cj_worker_id c = cj_worker_id c'"
proof -
  obtain a b where
    a: "a \<in> set (attempts s)" "attempt_held now c (uint (job_id_get (cj_job_id c))) a" and
    b: "b \<in> set (attempts s)" "attempt_held now' c' (uint (job_id_get (cj_job_id c))) b"
    using fenced [OF ok(1)] fenced [OF ok(2)] same unfolding claim_live_iff by auto
  from attempt_job [OF inv a(1)] obtain j where
    j: "j \<in> set (jobs s)" "j_id j = a_job a" "a \<in> set (attempts_of s (j_id j))" .
  have "b \<in> set (attempts_of s (j_id j))"
    using a(2) b j(2) by (simp add: attempts_of_def attempt_held_def)
  then have "a = b"
    using job_inv_one_running [OF queue_inv_job [OF inv j(1)] j(3)] a(2) b(2) attempt_held_running
    by blast
  with a(2) b(2) show ?thesis by (simp add: attempt_held_def)
qed

end

section \<open>The calls\<close>

datatype claim_call =
  CallComplete duration
| CallProgress u32
| CallEncoding duration
| CallPublish duration "pending_output_artifact list"
| CallCancelled duration
| CallFailure duration failure_kind ustring
| CallRenew

definition drop_result :: "'a tx \<Rightarrow> unit tx" where
  "drop_result m = tx_bind m (\<lambda>_. tx_return ())"

fun run_claim_call :: "timestamp \<Rightarrow> claimed_job \<Rightarrow> claim_call \<Rightarrow> unit tx" where
  "run_claim_call now c (CallComplete dur) = complete now c dur"
| "run_claim_call now c (CallProgress n) = update_progress now c n"
| "run_claim_call now c (CallEncoding dur) = record_encoding_duration now c dur"
| "run_claim_call now c (CallPublish dur outputs) = complete_image_job now c dur outputs"
| "run_claim_call now c (CallCancelled dur) = finish_cancelled now c dur"
| "run_claim_call now c (CallFailure dur kind message) = drop_result (record_failure now c dur kind message)"
| "run_claim_call now c CallRenew = drop_result (renew_lease_with_time now c None)"

text \<open>What the calls check before they open a transaction: the identifier and the numbers fit.\<close>

definition millis_fit :: "duration \<Rightarrow> bool" where
  "millis_fit dur \<longleftrightarrow> i64_range (as_millis dur)"

fun valid_call :: "claimed_job \<Rightarrow> claim_call \<Rightarrow> bool" where
  "valid_call c (CallComplete dur) \<longleftrightarrow>
     uint (job_id_get (cj_job_id c)) < 2 ^ 63 \<and> millis_fit dur \<and> is_demo_work (cj_work c)"
| "valid_call c (CallProgress n) \<longleftrightarrow> uint (job_id_get (cj_job_id c)) < 2 ^ 63 \<and> i32_range (uint n)"
| "valid_call c (CallEncoding dur) \<longleftrightarrow> uint (job_id_get (cj_job_id c)) < 2 ^ 63 \<and> millis_fit dur"
| "valid_call c (CallPublish dur outputs) \<longleftrightarrow>
     uint (job_id_get (cj_job_id c)) < 2 ^ 63 \<and> millis_fit dur \<and>
     (\<exists>w q inputs. cj_work c = WImageResize w q inputs \<and> length outputs = length inputs)"
| "valid_call c (CallCancelled dur) \<longleftrightarrow> uint (job_id_get (cj_job_id c)) < 2 ^ 63 \<and> millis_fit dur"
| "valid_call c (CallFailure dur kind message) \<longleftrightarrow>
     uint (job_id_get (cj_job_id c)) < 2 ^ 63 \<and> millis_fit dur"
| "valid_call c CallRenew \<longleftrightarrow> uint (job_id_get (cj_job_id c)) < 2 ^ 63"

lemma encode_job_id_fits:
  "uint (job_id_get i) < 2 ^ 63 \<Longrightarrow> encode_job_id i = Inr (uint (job_id_get i))"
  by (simp add: encode_job_id_def i64_range_def) (rule order_trans [OF _ uint_ge_0], simp)

lemma encode_job_id_uint: "encode_job_id i = Inr v \<Longrightarrow> v = uint (job_id_get i)"
  by (simp add: encode_job_id_Inr_iff)

text \<open>An update under the fencing condition finds no row when the claim is not live.\<close>

lemma held_update_hits:
  assumes "update_attempts P F s = (Inr hits, t)" and "length hits = 1"
    and "\<And>a. P a \<Longrightarrow> attempt_held now c (uint (job_id_get (cj_job_id c))) a"
  shows "claim_live now c s"
  using assms(1,2)
  by (auto simp: update_attempts_def sql_update_Inr_iff claim_live_iff length_Suc_conv
      filter_eq_Cons_iff intro!: bexI assms(3))

lemma held_update_misses:
  assumes "\<not> claim_live now c s"
    and "\<And>a. P a \<Longrightarrow> attempt_held now c (uint (job_id_get (cj_job_id c))) a"
  shows "update_attempts P F s = (Inr [], s)"
proof -
  have "\<forall>a \<in> set (attempts s). \<not> P a" using assms unfolding claim_live_iff by blast
  then show ?thesis
    by (simp add: update_attempts_def sql_update_def Let_def update_where_none set_table_defs)
qed

text \<open>
  Outside a transaction a failing call wrote nothing: the row count is not one only when there was no
  row to write, since identifiers are keys.
\<close>

lemma update_attempts_by_id:
  assumes "queue_inv s" and "\<And>a. P a \<Longrightarrow> a_id a = i" and "update_attempts P F s = (Inr hits, t)"
  shows "length hits = 1 \<or> hits = [] \<and> t = s"
proof -
  have hits: "hits = List.map F (filter P (attempts s))"
    and t: "t = set_attempts (update_where P F (attempts s)) s"
    using assms(3) by (simp_all add: update_attempts_def sql_update_Inr_iff)
  have "t = s" if "filter P (attempts s) = []"
    using that t by (simp add: filter_empty_conv update_where_none set_table_defs)
  with hits show ?thesis
    using filter_keyed_cases [where P = P, OF queue_inv_keyed(2) [OF assms(1)] assms(2)] by fastforce
qed

lemma update_attempts_Inl: "update_attempts P F s = (Inl e, t) \<Longrightarrow> t = s"
  by (simp add: update_attempts_def sql_update_Inl_iff)

lemma record_encoding_atomic:
  assumes "queue_inv s" and "record_encoding_duration now c dur s = (Inl e, t)"
  shows "same_rows s t"
proof -
  from assms(2) consider "t = s"
    | ms i hits where "update_attempts (attempt_held now c i)
          (\<lambda>a. a\<lparr>a_encoding_duration_ms := a_encoding_duration_ms a + ms\<rparr>) s = (Inr hits, t)"
        "length hits \<noteq> 1"
    by (auto simp: record_encoding_duration_def tx_bind_Inl_iff tx_returns ensure_claim_row_def
        dest: update_attempts_Inl split: if_splits)
  then show ?thesis
  proof cases
    case 2
    have "t = s"
      using update_attempts_by_id [OF assms(1) _ 2(1), of "cj_attempt_id c"] 2(2)
      by (simp add: attempt_held_def)
    then show ?thesis by simp
  qed simp
qed

lemma renewed_lease:
  assumes "renewable s t c i a"
  shows "\<exists>w \<in> set (workers s). worker_live t w \<and> Some (w_id w) = a_worker a \<and>
     a_lease_expires_at (renewed_attempt s t a) = Some (t + seconds (w_lease_seconds w))"
proof -
  from assms have "\<exists>w \<in> set (workers s). renewing_worker t a w"
    by (simp add: renewable_def list_ex_iff)
  then obtain w where w: "fetch_optional (filter (renewing_worker t a) (workers s)) = Some w"
    by (cases "fetch_optional (filter (renewing_worker t a) (workers s))") (auto simp: filter_empty_conv)
  with fetch_optional_filter_Some [OF w] show ?thesis
    by (auto simp: renewed_attempt_def renewing_worker_def)
qed

lemma renew_lease_cases:
  assumes inv: "queue_inv s" and run: "renew_lease_with_time now c None s = (r, t)"
  obtains (error) e where "r = Inl e" and "t = s"
  | (ok) a i l where "encode_job_id (cj_job_id c) = Inr i" and "a \<in> set (attempts s)"
      and "renewable s now c i a"
      and "t = set_attempts (put_row a_id (renewed_attempt s now a) (attempts s)) s"
      and "a_lease_expires_at (renewed_attempt s now a) = Some l" and "r = Inr l"
proof (cases "encode_job_id (cj_job_id c)")
  case (Inl e)
  with run have "r = Inl e" "t = s" by (simp_all add: renew_lease_with_time_def tx_simps)
  then show thesis by (rule error)
next
  case enc: (Inr i)
  show thesis
  proof (cases "update_attempts (renewable s now c i) (renewed_attempt s now) s")
    case (Pair q u)
    show thesis
    proof (cases q)
      case (Inl e)
      with run enc Pair show thesis
        by (auto simp: renew_lease_with_time_def tx_simps tx_bind_run update_attempts_Inl intro: error)
    next
      case (Inr hits)
      have "length hits = 1 \<or> hits = [] \<and> u = s"
        by (rule update_attempts_by_id [OF inv _ Pair [unfolded Inr], of "cj_attempt_id c"])
          (simp add: renewable_running)
      then consider "length hits = 1" | "hits = []" "u = s" by blast
      then show thesis
      proof cases
        case 1
        from Pair [unfolded Inr] 1 obtain a where
          a: "a \<in> set (attempts s)" "renewable s now c i a" "hits = [renewed_attempt s now a]"
            "u = set_attempts (put_row a_id (renewed_attempt s now a) (attempts s)) s"
          unfolding update_attempts_def
          by (elim sql_update_one [where k = a_id]) (auto simp: queue_inv_keyed [OF inv])
        from renewed_lease [OF a(2)] obtain l where
          l: "a_lease_expires_at (renewed_attempt s now a) = Some l" by blast
        with run enc Pair Inr a(3) have "r = Inr l" "t = u"
          by (simp_all add: renew_lease_with_time_def tx_simps tx_bind_run)
        with enc a l show thesis by (intro ok [of i a l]) simp_all
      next
        case 2
        with run enc Pair Inr show thesis
          by (auto simp: renew_lease_with_time_def tx_simps tx_bind_run intro: error)
      qed
    qed
  qed
qed

lemma calls_atomic:
  assumes inv: "queue_inv s" and run: "run_claim_call now c i s = (Inl e, t)"
  shows "same_rows s t"
proof (cases i)
  case CallRenew
  with run have "renew_lease_with_time now c None s = (Inl e, t)"
    by (auto simp: drop_result_def tx_bind_Inl_iff tx_returns)
  from renew_lease_cases [OF inv this] show ?thesis by (metis same_rows_refl sum.distinct(1))
next
  case (CallEncoding dur)
  with run record_encoding_atomic [OF inv] show ?thesis by simp
next
  case (CallPublish dur outputs)
  with run show ?thesis
    by (auto simp: complete_image_job_def tx_bind_Inl_iff tx_returns
        dest: transaction_error_rolls_back split: claimed_work.splits if_splits)
qed (use run in \<open>auto simp: complete_def update_progress_def finish_cancelled_def record_failure_def
    drop_result_def tx_bind_Inl_iff tx_returns dest: transaction_error_rolls_back\<close>)

lemma calls_fenced:
  assumes "run_claim_call now c i s = (Inr x, t)"
  shows "claim_live now c s"
proof (cases i)
  case CallRenew
  with assms obtain hits u j l where
    upd: "encode_job_id (cj_job_id c) = Inr j"
      "update_attempts (renewable s now c j) (renewed_attempt s now) s = (Inr hits, u)"
      "(case fetch_optional hits of None \<Rightarrow> None | Some a \<Rightarrow> a_lease_expires_at a) = Some l"
    by (auto simp: drop_result_def renew_lease_with_time_def tx_bind_Inr_iff tx_returns)
  from upd(3) have "hits \<noteq> []" by auto
  with upd(2) encode_job_id_uint [OF upd(1)] show ?thesis
    by (auto simp: update_attempts_def sql_update_Inr_iff claim_live_iff renewable_def filter_empty_conv)
next
  case (CallPublish dur outputs)
  with assms show ?thesis
    by (auto simp: complete_image_job_def complete_image_body_def lock_active_claim_def
        tx_bind_Inr_iff tx_returns transaction_Inr_iff claim_live_def list_ex_iff
        dest!: encode_job_id_uint split: claimed_work.splits if_splits)
qed (use assms in \<open>auto simp: complete_def update_progress_def record_encoding_duration_def
    finish_cancelled_def record_failure_def failure_writes_def drop_result_def tx_bind_Inr_iff tx_returns
    transaction_Inr_iff dest!: encode_job_id_uint elim!: held_update_hits\<close>)

lemma calls_rejected:
  assumes valid: "valid_call c i" and stale: "\<not> claim_live now c s"
  shows "fst (run_claim_call now c i s) = Inl ClaimLost"
proof (cases i)
  case CallRenew
  have "update_attempts (renewable s now c (uint (job_id_get (cj_job_id c)))) (renewed_attempt s now) s
      = (Inr [], s)"
    by (rule held_update_misses [OF stale]) (simp add: renewable_def)
  with CallRenew valid show ?thesis
    by (simp add: drop_result_def renew_lease_with_time_def tx_bind_def tx_returns encode_job_id_fits)
next
  case (CallProgress n)
  have "update_attempts (\<lambda>a. attempt_held now c (uint (job_id_get (cj_job_id c))) a \<and>
      progress_within (uint n) a) (\<lambda>a. a\<lparr>a_progress_completed := uint n\<rparr>) s = (Inr [], s)"
    by (rule held_update_misses [OF stale]) simp
  with CallProgress valid show ?thesis
    by (simp add: update_progress_def tx_bind_def tx_returns transaction_def encode_job_id_fits
        to_signed_def ensure_claim_row_def)
next
  case (CallPublish dur outputs)
  with valid stale show ?thesis
    by (auto simp: complete_image_job_def complete_image_body_def lock_active_claim_def tx_bind_def
        tx_returns transaction_def encode_job_id_fits millis_fit_def encode_duration_def
        claim_live_iff list_ex_iff to_signed_def)
qed (use valid in \<open>simp_all add: complete_def update_progress_def record_encoding_duration_def
    finish_cancelled_def record_failure_def failure_writes_def drop_result_def tx_bind_def tx_returns
    transaction_def encode_job_id_fits millis_fit_def encode_duration_def ensure_claim_row_def
    to_signed_def held_update_misses [OF stale]\<close>)

interpretation claim_calls: fenced_op run_claim_call valid_call
  by unfold_locales (rule calls_atomic calls_fenced calls_rejected; assumption)+

section \<open>The invariant and the history\<close>

lemma keeps_drop_result: "keeps I m \<Longrightarrow> keeps I (drop_result m)"
  unfolding drop_result_def by (intro keeps_bind keeps_simple)

lemma other_calls_keep:
  assumes "\<not> (\<exists>dur kind message. i = CallFailure dur kind message)"
  shows "keeps queue_inv (run_claim_call now c i)"
proof (cases i)
  case (CallFailure dur kind message)
  with assms show ?thesis by blast
qed (simp_all add: complete_keeps update_progress_keeps record_encoding_duration_keeps
    complete_image_job_keeps finish_cancelled_keeps renew_lease_keeps keeps_drop_result)

lemma claim_call_keeps:
  assumes inv: "queue_inv s" and iss: "issued s c" and run: "run_claim_call now c i s = (r, t)"
  shows "queue_inv t"
proof (cases "\<exists>dur kind message. i = CallFailure dur kind message")
  case True
  with run obtain dur kind message q where "record_failure now c dur kind message s = (q, t)"
    by (auto simp: drop_result_def tx_bind_def tx_returns split: prod.splits sum.splits)
  then show ?thesis by (rule record_failure_keeps [OF inv iss])
next
  case False
  show ?thesis by (rule keepsD [where I = queue_inv, OF other_calls_keep [OF False] inv run])
qed

lemma claim_call_history: "obeys evolves (run_claim_call now c i)"
  by (cases i)
    (simp_all add: complete_history images_history lifecycle_history drop_result_def
      history.bind history.simple history_renew)

end
