(* ===== verification/Schedules.thy ===== *)
theory Schedules
  imports Fencing
begin

text \<open>
  Recurring image jobs (\<open>crates/adapters/src/schedule_repository.rs\<close>): schedules with their inputs, the
  cursor arithmetic, and the step that materialises the next due occurrence, creating a job unless an
  earlier one of the schedule is still active. \<open>rng\<close> is the range of times the \<open>time\<close> crate
  represents; the stored interval of a schedule is never zero (\<open>schedule_ok\<close>), so that the divisions
  by it are defined.
\<close>

section \<open>Requests\<close>

definition min_schedule_interval_seconds :: u32 where
  "min_schedule_interval_seconds = 60"

definition max_schedule_interval_seconds :: u32 where
  "max_schedule_interval_seconds = 31536000"

definition overlap_reason :: ustring where
  "overlap_reason = lit ''previous occurrence is still active''"

record new_schedule =
  ns_owner_user_id :: user_id
  ns_name :: job_name
  ns_interval_seconds :: u32
  ns_anchor_at :: timestamp
  ns_priority :: job_priority
  ns_max_width :: u32
  ns_jpeg_quality :: u8
  ns_inputs :: "new_input_artifact list"

record schedule_update =
  su_name :: job_name
  su_enabled :: bool
  su_interval_seconds :: u32
  su_anchor_at :: timestamp
  su_priority :: job_priority
  su_max_width :: u32
  su_jpeg_quality :: u8

definition validate_schedule_fields :: "u32 \<Rightarrow> u32 \<Rightarrow> u8 \<Rightarrow> nat \<Rightarrow> repository_error + unit" where
  "validate_schedule_fields interval_seconds max_width jpeg_quality input_count =
     (if \<not> (min_schedule_interval_seconds \<le> interval_seconds \<and>
             interval_seconds \<le> max_schedule_interval_seconds)
      then Inl (InvalidData ''schedule interval must be between 60 and 31536000 seconds'')
      else if max_width = 0 \<or> max_width > max_output_width \<or>
              \<not> (1 \<le> jpeg_quality \<and> jpeg_quality \<le> 100)
      then Inl (InvalidData ''schedule image settings are outside the supported range'')
      else if input_count = 0 \<or> input_count > max_files_per_job
      then Inl (InvalidData ''schedule must contain between 1 and 10 inputs'')
      else Inr ())"

definition new_schedule_validate :: "new_schedule \<Rightarrow> repository_error + unit" where
  "new_schedule_validate r =
     validate_schedule_fields (ns_interval_seconds r) (ns_max_width r) (ns_jpeg_quality r)
       (length (ns_inputs r))"

definition schedule_update_validate :: "schedule_update \<Rightarrow> repository_error + unit" where
  "schedule_update_validate r =
     validate_schedule_fields (su_interval_seconds r) (su_max_width r) (su_jpeg_quality r) 1"

section \<open>Reading\<close>

fun outcome_as_str :: "schedule_occurrence_outcome \<Rightarrow> ustring" where
  "outcome_as_str Created = lit ''created''"
| "outcome_as_str SkippedOverlap = lit ''skipped_overlap''"

definition outcome_from_str :: "ustring \<Rightarrow> repository_error + schedule_occurrence_outcome" where
  "outcome_from_str s =
     (if s = lit ''created'' then Inr Created
      else if s = lit ''skipped_overlap'' then Inr SkippedOverlap
      else Inl (InvalidData ''schedule occurrence outcome is not recognized''))"

record schedule_input_record =
  sir_id :: u64
  sir_item_index :: u16
  sir_storage_key :: ustring
  sir_display_name :: ustring
  sir_media_type :: ustring
  sir_byte_size :: u64
  sir_width :: u32
  sir_height :: u32

record occurrence_record =
  or_id :: u64
  or_scheduled_for :: timestamp
  or_outcome :: schedule_occurrence_outcome
  or_job_id :: "job_id option"
  or_job_status :: "job_status option"
  or_reason :: "ustring option"
  or_coalesced_slots :: u64
  or_created_at :: timestamp

record schedule_record =
  sr_id :: schedule_id
  sr_name :: job_name
  sr_enabled :: bool
  sr_interval_seconds :: u32
  sr_anchor_at :: timestamp
  sr_next_run_at :: timestamp
  sr_priority :: job_priority
  sr_max_width :: u32
  sr_jpeg_quality :: u8
  sr_inputs :: "schedule_input_record list"
  sr_occurrences :: "occurrence_record list"
  sr_created_at :: timestamp
  sr_updated_at :: timestamp

record occurrence_sql_row =
  osr_id :: int
  osr_scheduled_for :: timestamp
  osr_outcome :: ustring
  osr_job_id :: "int option"
  osr_job_status :: "ustring option"
  osr_reason :: "ustring option"
  osr_coalesced_slots :: int
  osr_created_at :: timestamp

definition schedule_input_try_from :: "schedule_input_row \<Rightarrow> repository_error + schedule_input_record" where
  "schedule_input_try_from row =
     (if si_media_type row \<notin> image_media_types
      then Inl (InvalidData ''schedule input media type is not recognized'')
      else
      try_bind (decode_u64 (si_id row) ''schedule input ID'') (\<lambda>i.
      try_bind (decode_u16 (si_item_index row) ''invalid schedule item index'') (\<lambda>index.
      try_bind (decode_u64 (si_byte_size row) ''schedule input byte size'') (\<lambda>size.
      try_bind (decode_u32 (si_width row) ''schedule input width'') (\<lambda>w.
      try_bind (decode_u32 (si_height row) ''schedule input height'') (\<lambda>h.
      Inr \<lparr>sir_id = i, sir_item_index = index, sir_storage_key = si_storage_key row,
           sir_display_name = si_display_name row, sir_media_type = si_media_type row,
           sir_byte_size = size, sir_width = w, sir_height = h\<rparr>))))))"

definition load_schedule_inputs :: "db \<Rightarrow> int \<Rightarrow> repository_error + schedule_input_record list" where
  "load_schedule_inputs s schedule =
     collect_results schedule_input_try_from
       (sort_key si_item_index (filter (\<lambda>r. si_schedule r = schedule) (schedule_inputs s)))"

text \<open>An occurrence joined with the state of its job, if it has one (\<open>LEFT JOIN jobs\<close>).\<close>

definition select_occurrence :: "job_row list \<Rightarrow> occurrence_row \<Rightarrow> occurrence_sql_row" where
  "select_occurrence js r =
     \<lparr>osr_id = o_id r, osr_scheduled_for = o_scheduled_for r, osr_outcome = outcome_as_str (o_outcome r),
      osr_job_id = o_job r,
      osr_job_status = map_option (\<lambda>j. job_status_as_str (j_state j))
        (fetch_optional (filter (\<lambda>j. Some (j_id j) = o_job r) js)),
      osr_reason = o_reason r, osr_coalesced_slots = o_coalesced_slots r,
      osr_created_at = o_created_at r\<rparr>"

definition occurrence_try_from :: "occurrence_sql_row \<Rightarrow> repository_error + occurrence_record" where
  "occurrence_try_from row =
     try_bind (outcome_from_str (osr_outcome row)) (\<lambda>outcome.
     try_bind (opt_try decode_job_id (osr_job_id row)) (\<lambda>job.
     try_bind (opt_try (\<lambda>v. map_err (\<lambda>_. InvalidData job_status_error_display) (job_status_from_str v))
                 (osr_job_status row)) (\<lambda>status.
     if \<not> (case outcome of
             Created \<Rightarrow> job \<noteq> None \<and> status \<noteq> None \<and> osr_reason row = None
           | SkippedOverlap \<Rightarrow> job = None \<and> status = None \<and> osr_reason row \<noteq> None)
     then Inl (InvalidData ''schedule occurrence result violates its invariant'')
     else
     try_bind (decode_u64 (osr_id row) ''schedule occurrence ID'') (\<lambda>i.
     try_bind (decode_u64 (osr_coalesced_slots row) ''coalesced slots'') (\<lambda>slots.
     Inr \<lparr>or_id = i, or_scheduled_for = osr_scheduled_for row, or_outcome = outcome, or_job_id = job,
          or_job_status = status, or_reason = osr_reason row, or_coalesced_slots = slots,
          or_created_at = osr_created_at row\<rparr>)))))"

text \<open>\<open>ORDER BY occurrence.scheduled_for DESC\<close>.\<close>

definition load_schedule_occurrences :: "db \<Rightarrow> int \<Rightarrow> repository_error + occurrence_record list" where
  "load_schedule_occurrences s schedule =
     collect_results (\<lambda>r. occurrence_try_from (select_occurrence (jobs s) r))
       (sort_key (\<lambda>r. - o_scheduled_for r) (filter (\<lambda>r. o_schedule r = schedule) (occurrences s)))"

text \<open>The priority column is read as text and parsed.\<close>

definition schedule_try_into_record ::
  "schedule_row \<Rightarrow> schedule_input_record list \<Rightarrow> occurrence_record list \<Rightarrow>
   repository_error + schedule_record" where
  "schedule_try_into_record row inputs occs =
     try_bind (map_err (\<lambda>_. InvalidData job_priority_error_display)
                 (job_priority_from_str (job_priority_as_str (s_priority row)))) (\<lambda>priority.
     try_bind (decode_u8 (s_jpeg_quality row) ''invalid schedule JPEG quality'') (\<lambda>quality.
     try_bind (decode_u32 (s_interval_seconds row) ''schedule interval'') (\<lambda>interval.
     try_bind (decode_u32 (s_max_width row) ''schedule max width'') (\<lambda>width.
     try_bind (validate_schedule_fields interval width quality (length inputs)) (\<lambda>_.
     try_bind (decode_schedule_id (s_id row)) (\<lambda>i.
     try_bind (map_err (\<lambda>e. InvalidData (job_name_error_display e)) (job_name_new (s_name row))) (\<lambda>name.
     Inr \<lparr>sr_id = i, sr_name = name, sr_enabled = s_enabled row, sr_interval_seconds = interval,
          sr_anchor_at = s_anchor_at row, sr_next_run_at = s_next_run_at row, sr_priority = priority,
          sr_max_width = width, sr_jpeg_quality = quality, sr_inputs = inputs, sr_occurrences = occs,
          sr_created_at = s_created_at row, sr_updated_at = s_updated_at row\<rparr>)))))))"

definition read_schedule :: "db \<Rightarrow> schedule_row \<Rightarrow> repository_error + schedule_record" where
  "read_schedule s row =
     try_bind (load_schedule_inputs s (s_id row)) (\<lambda>inputs.
     try_bind (load_schedule_occurrences s (s_id row)) (\<lambda>occs.
     schedule_try_into_record row inputs occs))"

definition list_schedules_with_owner :: "user_id option \<Rightarrow> schedule_record list tx" where
  "list_schedules_with_owner owner =
     (\<lambda>s. (collect_results (read_schedule s)
             (sort_key s_id (filter (\<lambda>r. owned_by owner (s_owner r)) (schedules s))), s))"

definition get_schedule_with_owner :: "schedule_id \<Rightarrow> user_id option \<Rightarrow> schedule_record option tx" where
  "get_schedule_with_owner i owner =
     tx_bind (tx_lift (encode_schedule_id i)) (\<lambda>raw.
     tx_bind (tx_select (\<lambda>s. fetch_optional
                 (filter (\<lambda>r. s_id r = raw \<and> owned_by owner (s_owner r)) (schedules s)))) (\<lambda>row.
     case row of
       None \<Rightarrow> tx_return None
     | Some row \<Rightarrow> (\<lambda>s. (try_bind (read_schedule s row) (\<lambda>r. Inr (Some r)), s))))"

section \<open>Creating and changing a schedule\<close>

definition schedule_input_row_of ::
  "int \<Rightarrow> int \<Rightarrow> new_input_artifact \<Rightarrow> int \<Rightarrow> int \<Rightarrow> int \<Rightarrow> int \<Rightarrow> schedule_input_row" where
  "schedule_input_row_of schedule index a bytes w h i =
     \<lparr>si_id = i, si_schedule = schedule, si_item_index = index, si_storage_key = ni_storage_key a,
      si_display_name = ni_display_name a, si_media_type = ni_media_type a, si_byte_size = bytes,
      si_width = w, si_height = h, si_checksum = Some (ni_checksum_sha256 a)\<rparr>"

definition insert_schedule_input :: "int \<Rightarrow> int \<Rightarrow> new_input_artifact \<Rightarrow> unit tx" where
  "insert_schedule_input schedule index a =
     tx_bind (tx_lift (encode_u64 (ni_byte_size a) ''schedule input byte size'')) (\<lambda>bytes.
     tx_bind (tx_lift (encode_u32 (ni_width a) ''schedule input width'')) (\<lambda>w.
     tx_bind (tx_lift (encode_u32 (ni_height a) ''schedule input height'')) (\<lambda>h.
     tx_bind (insert_schedule_input_row (schedule_input_row_of schedule index a bytes w h)) (\<lambda>_.
     tx_return ()))))"

definition new_schedule_row :: "timestamp \<Rightarrow> new_schedule \<Rightarrow> int \<Rightarrow> int \<Rightarrow> int \<Rightarrow> schedule_row" where
  "new_schedule_row now r interval width i =
     \<lparr>s_id = i, s_name = job_name_as_str (ns_name r), s_enabled = True, s_interval_seconds = interval,
      s_anchor_at = ns_anchor_at r, s_next_run_at = ns_anchor_at r, s_priority = ns_priority r,
      s_max_width = width, s_jpeg_quality = uint (ns_jpeg_quality r),
      s_owner = user_id_get (ns_owner_user_id r), s_created_at = now, s_updated_at = now\<rparr>"

definition create_schedule_body :: "timestamp \<Rightarrow> new_schedule \<Rightarrow> int tx" where
  "create_schedule_body now r =
     tx_bind (tx_lift (encode_u32 (ns_interval_seconds r) ''schedule interval'')) (\<lambda>interval.
     tx_bind (tx_lift (encode_u32 (ns_max_width r) ''schedule max width'')) (\<lambda>width.
     tx_bind (insert_schedule (new_schedule_row now r interval width)) (\<lambda>row.
     tx_bind (tx_for (\<lambda>(index, input).
         tx_bind (tx_ok_or (InvalidData ''schedule item index exceeds SMALLINT'') (to_signed i16_range (int index)))
           (\<lambda>index. insert_schedule_input (s_id row) index input))
         (enumerate 0 (ns_inputs r))) (\<lambda>_.
     tx_return (s_id row)))))"

definition create_schedule :: "timestamp \<Rightarrow> new_schedule \<Rightarrow> schedule_record tx" where
  "create_schedule now r =
     tx_bind (tx_lift (new_schedule_validate r)) (\<lambda>_.
     tx_bind (transaction (create_schedule_body now r)) (\<lambda>schedule.
     tx_bind (tx_lift (decode_schedule_id schedule)) (\<lambda>i.
     tx_bind (get_schedule_with_owner i None) (\<lambda>found.
     tx_ok_or (StateConflict ''read created schedule'') found))))"

text \<open>
  The first slot of the schedule that is still to come. The source divides and multiplies in
  \<open>i128\<close>, with checked operations.
\<close>

definition i128_range :: "int \<Rightarrow> bool" where
  "i128_range v \<longleftrightarrow> - (2 ^ 127) \<le> v \<and> v < 2 ^ 127"

definition checked_div_i128 :: "int \<Rightarrow> int \<Rightarrow> int option" where
  "checked_div_i128 a b = (if b = 0 then None else to_signed i128_range (a sdiv b))"

definition next_slot_after ::
  "(timestamp \<Rightarrow> bool) \<Rightarrow> timestamp \<Rightarrow> u32 \<Rightarrow> timestamp \<Rightarrow> repository_error + timestamp" where
  "next_slot_after rng anchor_at interval_seconds as_of =
     (if anchor_at > as_of then Inr anchor_at
      else
        let elapsed_nanos = as_of - anchor_at;
            interval_nanos = uint interval_seconds * 1000000000 in
        try_bind (ok_or (InvalidData ''schedule interval overflowed'')
                    (Option.bind (checked_div_i128 elapsed_nanos interval_nanos)
                       (\<lambda>v. to_signed i128_range (v + 1)))) (\<lambda>steps.
        try_bind (ok_or (InvalidData ''schedule cursor is too large'')
                    (Option.bind (to_signed i128_range (steps * uint interval_seconds))
                       (to_signed i64_range))) (\<lambda>offset.
        ok_or (InvalidData ''schedule cursor overflowed'') (checked_add rng anchor_at (seconds offset)))))"

definition updated_schedule ::
  "timestamp \<Rightarrow> schedule_update \<Rightarrow> timestamp \<Rightarrow> int \<Rightarrow> int \<Rightarrow> schedule_row \<Rightarrow> schedule_row" where
  "updated_schedule now r next_run_at interval width row =
     row\<lparr>s_name := job_name_as_str (su_name r), s_enabled := su_enabled r, s_interval_seconds := interval,
         s_anchor_at := su_anchor_at r, s_next_run_at := next_run_at, s_priority := su_priority r,
         s_max_width := width, s_jpeg_quality := uint (su_jpeg_quality r), s_updated_at := now\<rparr>"

definition update_schedule_at_with_owner ::
  "(timestamp \<Rightarrow> bool) \<Rightarrow> timestamp \<Rightarrow> schedule_id \<Rightarrow> schedule_update \<Rightarrow> timestamp \<Rightarrow> user_id option \<Rightarrow>
   schedule_record option tx" where
  "update_schedule_at_with_owner rng now i r as_of owner =
     tx_bind (tx_lift (schedule_update_validate r)) (\<lambda>_.
     tx_bind (tx_lift (encode_schedule_id i)) (\<lambda>raw.
     tx_bind (tx_lift (next_slot_after rng (su_anchor_at r) (su_interval_seconds r) as_of)) (\<lambda>next_run_at.
     tx_bind (tx_lift (encode_u32 (su_interval_seconds r) ''schedule interval'')) (\<lambda>interval.
     tx_bind (tx_lift (encode_u32 (su_max_width r) ''schedule max width'')) (\<lambda>width.
     tx_bind (update_schedules (\<lambda>row. s_id row = raw \<and> owned_by owner (s_owner row))
                (updated_schedule now r next_run_at interval width)) (\<lambda>updated.
     if updated = [] then tx_return None else get_schedule_with_owner i owner))))))"

section \<open>Occurrences\<close>

text \<open>
  The slot to materialise: the last one that is due, counting the earlier ones it stands for, and the
  cursor after it.
\<close>

definition checked_mul_u64 :: "u64 \<Rightarrow> u64 \<Rightarrow> u64 option" where
  "checked_mul_u64 a b = to_word (uint a * uint b)"

definition latest_due_slot ::
  "(timestamp \<Rightarrow> bool) \<Rightarrow> timestamp \<Rightarrow> u32 \<Rightarrow> timestamp \<Rightarrow> repository_error + timestamp \<times> timestamp \<times> u64" where
  "latest_due_slot rng next_run_at interval_seconds as_of =
     (if next_run_at > as_of then Inl (InvalidData ''schedule is not due at the supplied clock time'')
      else
        let interval = uint interval_seconds; elapsed = whole_seconds (as_of - next_run_at) in
        try_bind (ok_or (InvalidData ''schedule clock moved before its cursor'')
                    (to_word (elapsed sdiv interval))) (\<lambda>slots.
        try_bind (ok_or (InvalidData ''schedule offset is too large'')
                    (Option.bind (checked_mul_u64 slots (word_of_int interval))
                       (\<lambda>v. to_signed i64_range (uint v)))) (\<lambda>offset.
        try_bind (ok_or (InvalidData ''scheduled time overflowed'')
                    (checked_add rng next_run_at (seconds offset))) (\<lambda>scheduled_for.
        try_bind (ok_or (InvalidData ''next schedule time overflowed'')
                    (checked_add rng scheduled_for (seconds interval))) (\<lambda>next.
        Inr (scheduled_for, next, slots))))))"

definition decode_u32_i64 :: "int \<Rightarrow> string \<Rightarrow> repository_error + u32" where
  "decode_u32_i64 value field = ok_or (InvalidData (''invalid '' @ field)) (to_word value)"

record schedule_tick =
  tk_schedule_id :: schedule_id
  tk_scheduled_for :: timestamp
  tk_outcome :: schedule_occurrence_outcome
  tk_job_id :: "job_id option"
  tk_coalesced_slots :: u64

definition due :: "timestamp \<Rightarrow> schedule_row \<Rightarrow> bool" where
  "due as_of r \<longleftrightarrow> s_enabled r \<and> s_next_run_at r \<le> as_of"

definition due_key :: "schedule_row \<Rightarrow> timestamp \<times> int" where
  "due_key r = (s_next_run_at r, s_id r)"

definition has_overlap :: "int \<Rightarrow> db \<Rightarrow> bool" where
  "has_overlap schedule s \<longleftrightarrow>
     list_ex (\<lambda>j. j_schedule_id j = Some schedule \<and> j_state j \<in> active_states) (jobs s)"

definition scheduled_job :: "timestamp \<Rightarrow> schedule_row \<Rightarrow> timestamp \<Rightarrow> int \<Rightarrow> int \<Rightarrow> job_row" where
  "scheduled_job now c scheduled_for input_count i =
     default_job now i (s_name c)
       \<lparr>j_type := ImageResize, j_available_at := scheduled_for, j_progress_total := input_count,
        j_max_width := Some (s_max_width c), j_jpeg_quality := Some (s_jpeg_quality c),
        j_priority := s_priority c, j_schedule_id := Some (s_id c),
        j_scheduled_for := Some scheduled_for, j_owner := s_owner c\<rparr>"

definition scheduled_input :: "timestamp \<Rightarrow> int \<Rightarrow> schedule_input_row \<Rightarrow> int \<Rightarrow> artifact_row" where
  "scheduled_input now job r i =
     \<lparr>f_id = i, f_job = job, f_attempt = None, f_source = None, f_kind = Input,
      f_item_index = si_item_index r, f_storage_key = si_storage_key r,
      f_display_name = si_display_name r, f_media_type = si_media_type r,
      f_byte_size = si_byte_size r, f_width = si_width r, f_height = si_height r,
      f_created_at = now, f_checksum = si_checksum r\<rparr>"

definition create_scheduled_job ::
  "timestamp \<Rightarrow> schedule_row \<Rightarrow> timestamp \<Rightarrow> u32 \<Rightarrow> job_id tx" where
  "create_scheduled_job now c scheduled_for input_count =
     tx_bind (tx_lift (encode_u32 input_count ''schedule input count'')) (\<lambda>total.
     tx_bind (insert_job (scheduled_job now c scheduled_for total)) (\<lambda>job.
     tx_bind (tx_select (\<lambda>s. sort_key si_item_index
                (filter (\<lambda>r. si_schedule r = s_id c) (schedule_inputs s)))) (\<lambda>inputs.
     tx_bind (tx_for (\<lambda>r. tx_bind (insert_artifact (scheduled_input now (j_id job) r)) (\<lambda>_. tx_return ())) inputs) (\<lambda>_.
     tx_bind (tx_guard (int (length inputs) = uint input_count)
                (StateConflict ''copy schedule inputs into occurrence'')) (\<lambda>_.
     tx_lift (decode_job_id (j_id job)))))))"

definition occurrence_of ::
  "timestamp \<Rightarrow> int \<Rightarrow> timestamp \<Rightarrow> schedule_occurrence_outcome \<Rightarrow> int option \<Rightarrow> ustring option \<Rightarrow> int \<Rightarrow> int \<Rightarrow>
   occurrence_row" where
  "occurrence_of now schedule scheduled_for outcome job reason slots i =
     \<lparr>o_id = i, o_schedule = schedule, o_scheduled_for = scheduled_for, o_outcome = outcome,
      o_job = job, o_reason = reason, o_coalesced_slots = slots, o_created_at = now\<rparr>"

definition materialize_outcome ::
  "timestamp \<Rightarrow> schedule_row \<Rightarrow> timestamp \<Rightarrow> u32 \<Rightarrow>
   (schedule_occurrence_outcome \<times> job_id option \<times> ustring option) tx" where
  "materialize_outcome now c scheduled_for input_count =
     tx_bind (tx_select (has_overlap (s_id c))) (\<lambda>overlap.
     if overlap then tx_return (SkippedOverlap, None, Some overlap_reason)
     else tx_bind (create_scheduled_job now c scheduled_for input_count) (\<lambda>job.
          tx_return (Created, Some job, None)))"

definition advance_schedule :: "timestamp \<Rightarrow> timestamp \<Rightarrow> schedule_row \<Rightarrow> schedule_row" where
  "advance_schedule now next_run_at r = r\<lparr>s_next_run_at := next_run_at, s_updated_at := now\<rparr>"

definition materialize_candidate ::
  "(timestamp \<Rightarrow> bool) \<Rightarrow> timestamp \<Rightarrow> timestamp \<Rightarrow> schedule_row \<Rightarrow>
   (schedule_row \<times> timestamp \<times> schedule_occurrence_outcome \<times> job_id option \<times> u64) tx" where
  "materialize_candidate rng now as_of c =
     tx_bind (tx_select (\<lambda>s. int (length (filter (\<lambda>r. si_schedule r = s_id c) (schedule_inputs s))))) (\<lambda>count.
     tx_bind (tx_lift (decode_u32 (s_interval_seconds c) ''schedule interval'')) (\<lambda>interval.
     tx_bind (tx_lift (latest_due_slot rng (s_next_run_at c) interval as_of)) (\<lambda>(scheduled_for, next_run_at, slots).
     tx_bind (tx_lift (decode_u32_i64 count ''schedule input count'')) (\<lambda>input_count.
     tx_bind (tx_guard (input_count \<noteq> 0 \<and> uint input_count \<le> int max_files_per_job)
                (InvalidData ''schedule input count violates its invariant'')) (\<lambda>_.
     tx_bind (materialize_outcome now c scheduled_for input_count) (\<lambda>(outcome, job_id, reason).
     tx_bind (tx_lift (opt_try (\<lambda>i. ok_or (InvalidData ''job ID exceeds BIGINT'')
                (to_signed i64_range (uint (job_id_get i)))) job_id)) (\<lambda>raw_job.
     tx_bind (tx_lift (encode_u64 slots ''coalesced slots'')) (\<lambda>raw_slots.
     tx_bind (insert_occurrence (occurrence_of now (s_id c) scheduled_for outcome raw_job reason raw_slots)) (\<lambda>_.
     tx_bind (update_schedules (\<lambda>r. s_id r = s_id c) (advance_schedule now next_run_at)) (\<lambda>advanced.
     tx_bind (tx_lift (ensure_one_row (length advanced) ''advance schedule cursor'')) (\<lambda>_.
     tx_return (c, scheduled_for, outcome, job_id, slots))))))))))))"

definition materialize_body ::
  "(int \<Rightarrow> bool) \<Rightarrow> (timestamp \<Rightarrow> bool) \<Rightarrow> timestamp \<Rightarrow> timestamp \<Rightarrow>
   (schedule_row \<times> timestamp \<times> schedule_occurrence_outcome \<times> job_id option \<times> u64) option tx" where
  "materialize_body locked rng now as_of =
     tx_bind (tx_select (\<lambda>s. first_by due_key
                (filter (\<lambda>r. due as_of r \<and> \<not> locked (s_id r)) (schedules s)))) (\<lambda>candidate.
     case candidate of
       None \<Rightarrow> tx_return None
     | Some c \<Rightarrow> tx_bind (materialize_candidate rng now as_of c) (\<lambda>r. tx_return (Some r)))"

definition materialize_next_schedule_at ::
  "(int \<Rightarrow> bool) \<Rightarrow> (timestamp \<Rightarrow> bool) \<Rightarrow> timestamp \<Rightarrow> timestamp \<Rightarrow> schedule_tick option tx" where
  "materialize_next_schedule_at locked rng now as_of =
     tx_bind (transaction (materialize_body locked rng now as_of)) (\<lambda>made.
     case made of
       None \<Rightarrow> tx_return None
     | Some (c, scheduled_for, outcome, job_id, slots) \<Rightarrow>
         tx_bind (tx_lift (decode_schedule_id (s_id c))) (\<lambda>i.
         tx_return (Some \<lparr>tk_schedule_id = i, tk_scheduled_for = scheduled_for, tk_outcome = outcome,
                          tk_job_id = job_id, tk_coalesced_slots = slots\<rparr>)))"

end
