(* ===== verification/Cursor.thy ===== *)
theory Cursor
  imports Schedules
begin

text \<open>
  The cursor arithmetic of schedules. The slots of a schedule are its anchor plus the multiples of the
  interval; an update moves the cursor to the first slot after the clock, and a due occurrence is the
  last slot at or before the clock, with the cursor moving to the next one, whatever the number of slots
  missed.
\<close>

definition slot :: "timestamp \<Rightarrow> u32 \<Rightarrow> nat \<Rightarrow> timestamp" where
  "slot anchor interval k = anchor + seconds (int k * uint interval)"

lemma slot_0 [simp]: "slot a i 0 = a"
  by (simp add: slot_def seconds_def)

lemma slot_Suc: "slot a i (Suc k) = slot a i k + seconds (uint i)"
  by (simp add: slot_def seconds_def algebra_simps)

lemma slot_add: "slot (slot a i m) i n = slot a i (m + n)"
  by (simp add: slot_def seconds_def algebra_simps)

lemma slot_less_iff:
  assumes "0 < uint i"
  shows "slot a i m < slot a i n \<longleftrightarrow> m < n"
  using assms by (simp add: slot_def seconds_def)

lemma slot_le_iff:
  assumes "0 < uint i"
  shows "slot a i m \<le> slot a i n \<longleftrightarrow> m \<le> n"
  using assms by (simp add: slot_def seconds_def)

text \<open>The slot after the last one that is due is the first one that is not.\<close>

lemma slot_next_least:
  assumes "0 < uint i" and "slot a i k \<le> t" and "t < slot a i (Suc k)"
  shows "t < slot a i n \<longleftrightarrow> Suc k \<le> n"
proof
  assume "t < slot a i n"
  with assms(2) have "slot a i k < slot a i n" by simp
  then show "Suc k \<le> n" by (simp add: slot_less_iff [OF assms(1)] Suc_le_eq)
next
  assume "Suc k \<le> n"
  then have "slot a i (Suc k) \<le> slot a i n" by (simp add: slot_le_iff [OF assms(1)])
  with assms(3) show "t < slot a i n" by simp
qed

text \<open>Whole seconds divided by the interval count the slots passed.\<close>

lemma slots_passed:
  assumes "a \<le> t" and "0 < uint i"
  shows "slot a i (nat (whole_seconds (t - a) div uint i)) \<le> t"
    and "t < slot a i (Suc (nat (whole_seconds (t - a) div uint i)))"
proof -
  define d where "d = (t - a) div 1000000000"
  define q where "q = d div uint i"
  have d: "d * 1000000000 \<le> t - a" "t - a < (d + 1) * 1000000000" "0 \<le> d"
    using assms(1) unfolding d_def by (simp_all add: pos_imp_zdiv_nonneg_iff)
  have q: "q * uint i \<le> d" "d + 1 \<le> (q + 1) * uint i" "0 \<le> q"
  proof -
    have "d = q * uint i + d mod uint i" by (simp add: q_def)
    moreover have "0 \<le> d mod uint i" "d mod uint i < uint i" using assms(2) by simp_all
    ultimately show "q * uint i \<le> d" "d + 1 \<le> (q + 1) * uint i" by (simp_all add: algebra_simps)
    show "0 \<le> q" using d(3) assms(2) by (simp add: q_def pos_imp_zdiv_nonneg_iff)
  qed
  have ws: "whole_seconds (t - a) = d" using assms(1) by (simp add: whole_seconds_nonneg d_def)
  have lo: "q * uint i * 1000000000 \<le> d * 1000000000" using q(1) by simp
  have hi: "(d + 1) * 1000000000 \<le> (q + 1) * uint i * 1000000000" using q(2) by (simp only: mult_right_mono)
  show "slot a i (nat (whole_seconds (t - a) div uint i)) \<le> t"
    using lo d(1) q(3) by (simp add: slot_def seconds_def ws q_def [symmetric])
  show "t < slot a i (Suc (nat (whole_seconds (t - a) div uint i)))"
    using hi d(2) q(3) by (simp add: slot_def seconds_def ws q_def [symmetric] algebra_simps)
qed

text \<open>Dividing nanoseconds by the interval in nanoseconds is the same count.\<close>

lemma elapsed_div:
  assumes "a \<le> t"
  shows "(t - a) sdiv (uint i * 1000000000) = whole_seconds (t - a) div uint i"
proof (cases "uint i = 0")
  case False
  then have "0 < uint i" using uint_ge_0 [of i] by linarith
  moreover have "(t - a) div (1000000000 * uint i) = (t - a) div 1000000000 div uint i"
    by (rule zdiv_zmult2_eq) simp
  ultimately show ?thesis
    using assms by (simp add: sdiv_nonneg_eq_div whole_seconds_nonneg mult.commute [of "uint i"])
qed (simp add: signed_divide_int_def)

lemma next_slot_after_past:
  assumes "next_slot_after rng a i t = Inr r" and "a \<le> t" and "0 < uint i"
  shows "r = slot a i (Suc (nat (whole_seconds (t - a) div uint i)))" and "rng r"
proof -
  have n: "0 \<le> whole_seconds (t - a) div uint i"
    using assms(2,3) by (simp add: whole_seconds_nonneg pos_imp_zdiv_nonneg_iff)
  from assms obtain v where
    "v = (t - a) sdiv (uint i * 1000000000) + 1" "r = a + seconds (v * uint i)" "rng r"
    by (auto simp: next_slot_after_def Let_def try_bind_Inr_iff checked_div_i128_def bind_eq_Some_conv
        checked_add_Some_iff split: if_splits)
  with n show "r = slot a i (Suc (nat (whole_seconds (t - a) div uint i)))" "rng r"
    by (simp_all add: elapsed_div [OF assms(2)] slot_def algebra_simps)
qed

lemma uint_widened: "uint (ucast (i :: u32) :: u64) = uint i"
  using uint_lt2p [of i] by (simp add: unsigned_ucast_eq take_bit_int_eq_self)

lemma latest_due_slot_Inr:
  assumes "latest_due_slot rng a i t = Inr (at, next, n)" and "0 < uint i"
  shows "a \<le> t" and "unat n = nat (whole_seconds (t - a) div uint i)"
    and "at = slot a i (unat n)" and "next = slot a i (Suc (unat n))" and "rng at" and "rng next"
    and "at \<le> t" and "t < next"
proof -
  from assms(1) show at: "a \<le> t" by (auto simp: latest_due_slot_def split: if_splits)
  have el: "0 \<le> whole_seconds (t - a)" using at by (simp add: whole_seconds_nonneg)
  from assms(1) at obtain v where
    n: "to_word (whole_seconds (t - a) sdiv uint i) = Some n" and
    v: "checked_mul_u64 n (word_of_int (uint i)) = Some v" and
    r: "at = a + seconds (uint v)" "next = at + seconds (uint i)" "rng at" "rng next"
    by (auto simp: latest_due_slot_def Let_def try_bind_Inr_iff bind_eq_Some_conv checked_add_Some_iff)
  from n el assms(2) have un: "uint n = whole_seconds (t - a) div uint i"
    by (simp add: uint_of_to_word sdiv_nonneg_eq_div)
  then show nn: "unat n = nat (whole_seconds (t - a) div uint i)" by (simp add: unat_eq_nat_uint)
  have "uint v = uint n * uint i"
    using uint_of_to_word [OF v [unfolded checked_mul_u64_def]] by (simp add: uint_widened)
  then show atn: "at = slot a i (unat n)" "next = slot a i (Suc (unat n))"
    using r(1,2) by (simp_all only: slot_Suc) (simp_all add: slot_def)
  show "rng at" "rng next" by fact+
  show "at \<le> t" "t < next"
    using slots_passed [OF at assms(2)] by (simp_all add: atn nn)
qed

text \<open>It succeeds as long as the times stay representable.\<close>

lemma latest_due_slot_total:
  assumes "a \<le> t" and "0 < uint i" and "t - a < 2 ^ 63"
    and rng: "\<And>r. a \<le> r \<Longrightarrow> r \<le> t + seconds (uint i) \<Longrightarrow> rng r"
  shows "\<exists>at next n. latest_due_slot rng a i t = Inr (at, next, n)"
proof -
  define q where "q = whole_seconds (t - a) div uint i"
  define p where "p = q * uint i"
  have ws: "0 \<le> whole_seconds (t - a)" "whole_seconds (t - a) < 2 ^ 63"
    using assms(1,3) by (simp_all add: whole_seconds_nonneg)
  have q: "0 \<le> q" using ws(1) assms(2) by (simp add: q_def pos_imp_zdiv_nonneg_iff)
  have p: "p \<le> whole_seconds (t - a)"
    using div_mult_mod_eq [of "whole_seconds (t - a)" "uint i"]
      pos_mod_sign [of "uint i" "whole_seconds (t - a)"] assms(2)
    unfolding p_def q_def by linarith
  have "q * 1 \<le> p" unfolding p_def using q assms(2) by (intro mult_left_mono) simp_all
  with ws p have "q < 2 ^ 63" by linarith
  then have q64: "q < 2 ^ 64" by simp
  have p0: "0 \<le> p" "p < 2 ^ 63" using q p ws by (simp_all add: p_def)
  let ?n = "word_of_int q :: u64"
  have n: "to_word (whole_seconds (t - a) sdiv uint i) = Some ?n" "uint ?n = q"
    using q q64 ws assms(2)
    by (simp_all add: to_word_Some_iff sdiv_nonneg_eq_div uint_word_of_int take_bit_int_eq_self q_def)
  have "checked_mul_u64 ?n (word_of_int (uint i)) = to_word p"
    unfolding checked_mul_u64_def n(2) by (simp add: uint_widened p_def)
  moreover have "to_word p = Some (word_of_int p :: u64)" "uint (word_of_int p :: u64) = p"
    "i64_range p"
    using p0 by (simp_all add: to_word_Some_iff uint_word_of_int take_bit_int_eq_self i64_range_def)
  moreover have "rng (a + seconds p)" "rng (a + seconds p + seconds (uint i))"
  proof -
    note sp = slots_passed [OF assms(1,2), folded q_def]
    have s1: "slot a i (nat q) = a + seconds p" using q by (simp add: slot_def p_def)
    have "a \<le> a + seconds p" "0 < seconds (uint i)" using p0(1) assms(2) by (simp_all add: seconds_def)
    with sp show "rng (a + seconds p)" "rng (a + seconds p + seconds (uint i))"
      using rng unfolding slot_Suc s1 by simp_all
  qed
  ultimately show ?thesis
    using n assms(1) by (simp add: latest_due_slot_def Let_def checked_add_def to_signed_def)
qed

end
