(* ===== verification/ScheduleInv.thy ===== *)
theory ScheduleInv
  imports Cursor
begin

text \<open>
  What the schedules keep: their rows are valid and readable, and at most one job of a schedule is
  active. The first part only the statements on schedules can break; the second follows for every
  operation but the scheduler from the history of the jobs.
\<close>

section \<open>Schedule rows\<close>

definition schedule_readable :: "schedule_row \<Rightarrow> bool" where
  "schedule_readable r \<longleftrightarrow> schedule_ok r \<and> 0 < s_id r \<and> (\<exists>c \<in> set (s_name r). \<not> is_whitespace c)"

definition schedules_inv :: "db \<Rightarrow> bool" where
  "schedules_inv s \<longleftrightarrow>
     keyed s_id (schedules s) \<and> (\<forall>r \<in> set (schedules s). schedule_readable r) \<and> 0 < seqs s Schedules"

context tx_invariant begin

lemma committed: "advances m \<Longrightarrow> keeps I m \<Longrightarrow> keeps I (transaction m)"
  by (rule keeps_transaction) (auto dest: keepsD)

end

interpretation scheds: tx_invariant schedules_inv
proof
  fix s :: db and q assume "schedules_inv s" and "\<And>T. seqs s T \<le> q T"
  then show "schedules_inv (s\<lparr>seqs := q\<rparr>)"
    unfolding schedules_inv_def by (metis db.select_convs(5,10) db.surjective db.update_convs(10) less_le_trans)
qed

named_theorems scheds_rules

lemmas [scheds_rules] = keeps_simple keeps_bind keeps_for scheds.committed

lemma schedules_inv_frame:
  "schedules_inv s \<Longrightarrow> schedules t = schedules s \<Longrightarrow> seqs s Schedules \<le> seqs t Schedules \<Longrightarrow> schedules_inv t"
  by (auto simp: schedules_inv_def)

lemma scheds_other_statements [scheds_rules]:
  "keeps schedules_inv (update_jobs P f)" "keeps schedules_inv (update_attempts P' f')"
  "keeps schedules_inv (update_workers Q g)" "keeps schedules_inv (update_users U u)"
  "keeps schedules_inv (update_sessions X x)" "keeps schedules_inv (insert_job mj)"
  "keeps schedules_inv (insert_attempt ma)" "keeps schedules_inv (insert_artifact mf)"
  "keeps schedules_inv (insert_schedule_input_row mi)" "keeps schedules_inv (insert_occurrence mo)"
  "keeps schedules_inv (insert_worker w)" "keeps schedules_inv (insert_session ss)"
  unfolding keeps_def update_stmt_defs insert_stmt_defs sql_update_def sql_insert_def
    sql_insert_keyed_def Let_def
  by (auto split: option.split simp: set_table_defs elim!: schedules_inv_frame)

lemmas schedule_free_defs =
  create_def list_with_owner_def complete_def claim_next_with_time_def claim_body_def Let_def
  cancellation_requested_def finish_cancelled_def record_failure_def failure_writes_def
  request_cancel_with_owner_def manual_retry_with_owner_def manual_retry_body_def
  register_worker_at_def heartbeat_worker_at_def stop_worker_def get_worker_def list_workers_def
  renew_lease_with_time_def reclaim_next_expired_attempt_at_def reclaim_body_def reclaim_job_def
  finish_reclaimed_cancel_def schedule_reclaimed_retry_def fail_reclaimed_job_def
  find_idempotent_image_job_def create_image_job_def create_image_job_body_def
  insert_input_artifact_def get_downloadable_artifact_with_owner_def update_progress_def
  record_encoding_duration_def complete_image_job_def complete_image_body_def lock_active_claim_def
  insert_output_artifact_def complete_attempt_def drop_result_def

lemma scheds_queue:
  "keeps schedules_inv (create now name)"
  "keeps schedules_inv (claim_next_with_time locked now token worker as_of)"
  "keeps schedules_inv (complete now c dur)"
  unfolding schedule_free_defs
  by (auto intro!: scheds_rules advances_rules split: option.split prod.split)

lemma scheds_lifecycle:
  "keeps schedules_inv (finish_cancelled now c dur)"
  "keeps schedules_inv (record_failure now c dur kind message)"
  "keeps schedules_inv (request_cancel_with_owner now i owner)"
  "keeps schedules_inv (manual_retry_with_owner now i owner)"
  unfolding schedule_free_defs
  by (auto intro!: scheds_rules advances_rules get_with_owner_simple split: option.split prod.split)

lemma scheds_leases:
  "keeps schedules_inv (register_worker_at now r as_of)" "keeps schedules_inv (heartbeat_worker_at w ttl as_of)"
  "keeps schedules_inv (stop_worker now w)" "keeps schedules_inv (get_worker now w)"
  "keeps schedules_inv (list_workers now)"
  "keeps schedules_inv (reclaim_next_expired_attempt_at locked rng as_of)"
  unfolding schedule_free_defs
  by (auto intro!: scheds_rules advances_rules split: option.split prod.split)

lemma scheds_images:
  "keeps schedules_inv (create_image_job now r')"
  "keeps schedules_inv (update_progress now c completed)"
  "keeps schedules_inv (record_encoding_duration now c dur)"
  "keeps schedules_inv (complete_image_job now c dur outputs)"
  unfolding schedule_free_defs
  by (auto intro!: scheds_rules advances_rules get_with_owner_simple
      split: option.split prod.split created_image_job.split claimed_work.split)

text \<open>A renewal's statement depends on the database it runs on.\<close>

lemma keeps_at: "(\<And>u. keeps I (m u)) \<Longrightarrow> keeps I (\<lambda>s. m s s)"
  unfolding keeps_def by blast

lemma scheds_calls: "keeps schedules_inv (run_claim_call now c i)"
proof (cases i)
  case CallRenew
  show ?thesis
    unfolding CallRenew run_claim_call.simps drop_result_def renew_lease_with_time_def Let_def
    by (intro keeps_bind keeps_simple; rule keeps_at; rule scheds_other_statements)
qed (simp_all add: scheds_queue scheds_lifecycle scheds_images keeps_drop_result)

section \<open>The operations on schedules\<close>

lemma keeps_get_schedule [scheds_rules]: "keeps I (get_schedule_with_owner i owner)"
  unfolding get_schedule_with_owner_def by (intro keeps_bind keeps_simple) (auto split: option.split)

lemma advances_get_schedule [advances_rules]: "advances (get_schedule_with_owner i owner)"
  unfolding get_schedule_with_owner_def
  by (intro advances_rules) (auto intro!: advances_rules split: option.split)

lemma create_schedule_advances: "advances (create_schedule_body now r)"
  unfolding create_schedule_body_def insert_schedule_input_def
  by (auto intro!: advances_rules split: prod.split)

lemma insert_schedule_Inr:
  assumes "insert_schedule mk s = (Inr r, t)"
  shows "r = mk (seqs s Schedules)" and "schedule_ok r" and "\<forall>q \<in> set (schedules s). s_id q \<noteq> s_id r"
    and "jobs t = jobs s" and "attempts t = attempts s" and "schedules t = schedules s @ [r]"
    and "seqs t = (seqs s)(Schedules := seqs s Schedules + 1)"
  using assms
  by (auto simp: insert_schedule_def sql_insert_Inr_iff set_table_defs schedule_insert_error_def
      split: if_splits)

lemma scheds_insert_schedule:
  assumes "\<And>i. s_id (mk i) = i" and "\<And>i. \<exists>c \<in> set (s_name (mk i)). \<not> is_whitespace c"
  shows "keeps schedules_inv (insert_schedule mk)"
  unfolding insert_schedule_def
proof (rule scheds.keeps_insert, fold insert_schedule_def)
  fix s r t assume inv: "schedules_inv s" and ins: "insert_schedule mk s = (Inr r, t)"
  note r = insert_schedule_Inr [OF ins]
  from inv r assms show "schedules_inv t"
    by (auto simp: schedules_inv_def keyed_append1 schedule_readable_def)
qed

lemma scheds_update_schedules:
  assumes "\<And>r. s_id (F r) = s_id r"
    and "\<And>r. \<exists>c \<in> set (s_name r). \<not> is_whitespace c \<Longrightarrow> \<exists>c \<in> set (s_name (F r)). \<not> is_whitespace c"
  shows "keeps schedules_inv (update_schedules P F)"
  unfolding update_schedules_def
proof (rule scheds.keeps_update)
  fix s hits t
  assume inv: "schedules_inv s" and upd: "sql_update schedule_ok schedules set_schedules P F s = (Inr hits, t)"
  then have "\<forall>r \<in> set (schedules s). P r \<longrightarrow> schedule_ok (F r)"
    by (auto simp: sql_update_Inr_iff list_all_iff)
  with inv upd assms show "schedules_inv t"
    by (auto simp: sql_update_Inr_iff schedules_inv_def set_table_defs keyed_update_where
        set_update_where schedule_readable_def)
qed

lemma create_schedule_scheds:
  assumes "job_name_new n = Inr (ns_name r)"
  shows "keeps schedules_inv (create_schedule now r)"
proof -
  have "keeps schedules_inv (insert_schedule (new_schedule_row now r interval width))" for interval width
    by (rule scheds_insert_schedule)
      (use assms in \<open>auto simp: new_schedule_row_def job_name_new_Inr_iff\<close>)
  then have "keeps schedules_inv (create_schedule_body now r)"
    unfolding create_schedule_body_def insert_schedule_input_def
    by (auto intro!: scheds_rules split: prod.split)
  then show ?thesis
    unfolding create_schedule_def by (auto intro!: scheds_rules create_schedule_advances)
qed

lemma update_schedule_scheds:
  assumes "job_name_new n = Inr (su_name r)"
  shows "keeps schedules_inv (update_schedule_at_with_owner rng now i r as_of owner)"
proof -
  have "keeps schedules_inv (update_schedules P (updated_schedule now r nxt interval width))"
    for P nxt interval width
    by (rule scheds_update_schedules)
      (use assms in \<open>auto simp: updated_schedule_def job_name_new_Inr_iff\<close>)
  then show ?thesis
    unfolding update_schedule_at_with_owner_def by (auto intro!: scheds_rules)
qed

lemmas materialize_defs =
  materialize_next_schedule_at_def materialize_body_def materialize_candidate_def
  materialize_outcome_def create_scheduled_job_def

lemma materialize_advances: "advances (materialize_body locked rng now as_of)"
  unfolding materialize_defs
  by (intro advances_rules) (auto intro!: advances_rules split: option.split prod.split)

lemma materialize_scheds: "keeps schedules_inv (materialize_next_schedule_at locked rng now as_of)"
proof -
  have "keeps schedules_inv (update_schedules P (advance_schedule now nxt))" for P nxt
    by (rule scheds_update_schedules) (auto simp: advance_schedule_def)
  then have "keeps schedules_inv (materialize_body locked rng now as_of)"
    unfolding materialize_defs
    by (auto intro!: scheds_rules split: option.split prod.split)
  then show ?thesis
    unfolding materialize_next_schedule_at_def
    by (auto intro!: scheds_rules materialize_advances split: option.split prod.split)
qed

section \<open>The queue's invariant and history\<close>

lemma create_schedule_keeps: "keeps queue_inv (create_schedule now r)"
proof -
  have "keeps queue_inv (create_schedule_body now r)"
    unfolding create_schedule_body_def insert_schedule_input_def
    by (auto intro!: keeps_bind keeps_for queue_other_statements split: prod.split)
  then show ?thesis
    unfolding create_schedule_def
    by (intro keeps_bind keeps_simple queue.committed create_schedule_advances keeps_get_schedule)
qed

lemma update_schedule_keeps: "keeps queue_inv (update_schedule_at_with_owner rng now i r as_of owner)"
  unfolding update_schedule_at_with_owner_def
  by (auto intro!: keeps_bind queue_other_statements keeps_get_schedule)

lemma get_schedule_history [history_rules]: "obeys (evolves_by A) (get_schedule_with_owner i owner)"
  unfolding get_schedule_with_owner_def
  by (intro history_rules) (auto intro!: history_rules split: option.split)

lemma schedules_history:
  "obeys evolves (create_schedule now r)"
  "obeys evolves (update_schedule_at_with_owner rng now i u as_of owner)"
  unfolding create_schedule_def create_schedule_body_def insert_schedule_input_def
    update_schedule_at_with_owner_def
  by (auto intro!: history_rules split: prod.split)

lemma materialize_history:
  "obeys (evolves_by (\<lambda>_. True)) (materialize_next_schedule_at locked rng now as_of)"
  unfolding materialize_defs
  by (intro history_rules) (auto intro!: history_rules split: option.split prod.split)

text \<open>What a committed materialisation did.\<close>

lemma decode_u32_i64_uint: "decode_u32_i64 v field = Inr w \<Longrightarrow> uint w = v"
  by (auto simp: decode_u32_i64_def dest: uint_of_to_word)

lemma materialize_candidate_Inr:
  assumes "materialize_candidate rng now as_of c s = (Inr (c', at, outcome, job, n), t)"
  obtains (cases) interval nxt count raw_job raw_n reason u ocr v hits where
    "c' = c" and "decode_u32 (s_interval_seconds c) ''schedule interval'' = Inr interval"
    and "latest_due_slot rng (s_next_run_at c) interval as_of = Inr (at, nxt, n)"
    and "decode_u32_i64 (int (length (filter (\<lambda>r. si_schedule r = s_id c) (schedule_inputs s)))) ''schedule input count'' = Inr count"
    and "count \<noteq> 0" and "uint count \<le> 10"
    and "materialize_outcome now c at count s = (Inr (outcome, job, reason), u)"
    and "opt_try (\<lambda>i. ok_or (InvalidData ''job ID exceeds BIGINT'') (to_signed i64_range (uint (job_id_get i)))) job = Inr raw_job"
    and "raw_n = uint n"
    and "insert_occurrence (occurrence_of now (s_id c) at outcome raw_job reason raw_n) u = (Inr ocr, v)"
    and "update_schedules (\<lambda>r. s_id r = s_id c) (advance_schedule now nxt) v = (Inr hits, t)"
    and "length hits = 1"
  using assms that
  by (auto simp: materialize_candidate_def tx_bind_Inr_iff tx_returns encode_u64_def
      max_files_per_job_def split: prod.splits if_splits)

lemma materialize_outcome_cases:
  assumes "materialize_outcome now c at count s = (Inr (outcome, job, reason), u)"
  obtains (overlap) "has_overlap (s_id c) s" and "outcome = SkippedOverlap" and "job = None"
      and "reason = Some overlap_reason" and "u = s"
  | (made) v new i copies where "\<not> has_overlap (s_id c) s" and "outcome = Created" and "job = Some i"
      and "reason = None" and "decode_job_id (j_id new) = Inr i"
      and "new = scheduled_job now c at (uint count) (seqs s Jobs)"
      and "insert_job (scheduled_job now c at (uint count)) s = (Inr new, v)"
      and "tx_for (\<lambda>r. tx_bind (insert_artifact (scheduled_input now (j_id new) r)) (\<lambda>_. tx_return ()))
             (sort_key si_item_index (filter (\<lambda>r. si_schedule r = s_id c) (schedule_inputs s))) v = (Inr (), u)"
      and "artifacts u = artifacts s @ copies"
      and "list_all2 (\<lambda>r f. \<exists>i. f = scheduled_input now (j_id new) r i)
             (sort_key si_item_index (filter (\<lambda>r. si_schedule r = s_id c) (schedule_inputs s))) copies"
      and "jobs u = jobs s @ [new]" and "attempts u = attempts s" and "schedules u = schedules s"
      and "occurrences u = occurrences s"
proof (cases "has_overlap (s_id c) s")
  case True
  with assms show thesis
    by (intro overlap) (auto simp: materialize_outcome_def tx_bind_Inr_iff tx_returns)
next
  case False
  from False assms obtain i where r: "outcome = Created" "job = Some i" "reason = None"
    and mk: "create_scheduled_job now c at count s = (Inr i, u)"
    by (auto simp: materialize_outcome_def tx_bind_Inr_iff tx_returns)
  from mk obtain new v where
    ins: "insert_job (scheduled_job now c at (uint count)) s = (Inr new, v)"
    and copy: "tx_for (\<lambda>r. tx_bind (insert_artifact (scheduled_input now (j_id new) r)) (\<lambda>_. tx_return ()))
             (sort_key si_item_index (filter (\<lambda>r. si_schedule r = s_id c) (schedule_inputs v))) v = (Inr (), u)"
    and i: "decode_job_id (j_id new) = Inr i"
    by (auto simp: create_scheduled_job_def tx_bind_Inr_iff tx_returns encode_u32_def split: if_splits)
  note j = insert_job_Inr [OF ins]
  from insert_artifacts_for [OF copy] obtain copies where "artifacts u = artifacts v @ copies"
    "list_all2 (\<lambda>r f. \<exists>i. f = scheduled_input now (j_id new) r i)
       (sort_key si_item_index (filter (\<lambda>r. si_schedule r = s_id c) (schedule_inputs v))) copies"
    "jobs u = jobs v" "attempts u = attempts v" "schedules u = schedules v" "occurrences u = occurrences v"
    by blast
  with j copy show thesis
    by (intro made [OF False r i j(1) ins]) simp_all
qed

lemma scheduled_job_readable:
  assumes "job_ok (scheduled_job now c at n i)" and "schedule_readable c" and "0 < i"
  shows "job_readable (scheduled_job now c at n i)"
  using assms
  by (simp add: job_readable_def schedule_readable_def schedule_ok_def scheduled_job_def default_job_def)

lemma create_scheduled_job_keeps:
  assumes "schedule_readable c"
  shows "keeps queue_inv (materialize_outcome now c at count)"
proof -
  have "keeps queue_inv (insert_job (scheduled_job now c at n))" for n
  proof (rule keeps_insert_job)
    fix i :: int assume "0 < i" and "job_ok (scheduled_job now c at n i)"
    then show "job_inv (scheduled_job now c at n i) []"
      by (intro job_inv_new scheduled_job_readable assms) (simp_all add: scheduled_job_def default_job_def)
  qed (simp add: scheduled_job_def default_job_def)
  then show ?thesis
    unfolding materialize_outcome_def create_scheduled_job_def
    by (auto intro!: keeps_bind keeps_for queue_other_statements)
qed

lemma materialize_keeps:
  assumes inv: "queue_inv s" "schedules_inv s"
    and run: "materialize_next_schedule_at locked rng now as_of s = (r, t)"
  shows "queue_inv t"
proof -
  have body: "queue_inv v" if run: "materialize_body locked rng now as_of s = (Inr x, v)" for x v
  proof (cases "first_by due_key (filter (\<lambda>r. due as_of r \<and> \<not> locked (s_id r)) (schedules s))")
    case None
    with run inv(1) show ?thesis by (simp add: materialize_body_def tx_bind_def tx_returns)
  next
    case (Some c)
    from first_by_Some_mem [OF Some] inv(2) have c: "schedule_readable c"
      by (simp add: schedules_inv_def)
    have "keeps queue_inv (materialize_candidate rng now as_of c)"
      unfolding materialize_candidate_def
      by (auto intro!: keeps_bind create_scheduled_job_keeps [OF c] queue_other_statements split: prod.split)
    moreover from run Some obtain y where "materialize_candidate rng now as_of c s = (Inr y, v)"
      by (auto simp: materialize_body_def tx_bind_Inr_iff tx_returns)
    ultimately show ?thesis using inv(1) keepsD [where I = queue_inv] by blast
  qed
  have tx: "queue_inv (snd (transaction (materialize_body locked rng now as_of) s))"
    by (rule queue.transaction_at [OF materialize_advances inv(1) body])
  from run have "t = snd (transaction (materialize_body locked rng now as_of) s)"
    by (auto simp: materialize_next_schedule_at_def tx_bind_def tx_returns
        split: prod.splits sum.splits option.splits)
  with tx show ?thesis by simp
qed

section \<open>At most one active job per schedule\<close>

definition no_overlap :: "db \<Rightarrow> bool" where
  "no_overlap s \<longleftrightarrow>
     (\<forall>i \<in> set (jobs s). \<forall>j \<in> set (jobs s).
        j_schedule_id i \<noteq> None \<and> j_schedule_id i = j_schedule_id j \<and>
        j_state i \<in> active_states \<and> j_state j \<in> active_states \<longrightarrow> i = j)"

lemma job_step_active: "job_step j j' \<Longrightarrow> j_state j' \<in> active_states \<Longrightarrow> j_state j \<in> active_states"
  using terminal_iff_not_active unfolding job_step_def by metis

lemma no_overlap_evolves:
  assumes "no_overlap s" and "evolves s t" and "keyed j_id (jobs t)"
  shows "no_overlap t"
  unfolding no_overlap_def
proof (intro ballI impI, elim conjE)
  fix i' j' assume t: "i' \<in> set (jobs t)" "j' \<in> set (jobs t)"
    and sch: "j_schedule_id i' \<noteq> None" "j_schedule_id i' = j_schedule_id j'"
    and act: "j_state i' \<in> active_states" "j_state j' \<in> active_states"
  from assms(2) t sch obtain i j where
    ij: "i \<in> set (jobs s)" "job_step i i'" "j \<in> set (jobs s)" "job_step j j'"
    unfolding evolves_by_def by metis
  then have "i = j"
    using assms(1) sch job_step_active [OF ij(2) act(1)] job_step_active [OF ij(4) act(2)]
    unfolding no_overlap_def job_step_def by metis
  with ij have "j_id i' = j_id j'" by (simp add: job_step_def)
  with assms(3) t show "i' = j'" by (metis keyed_unique)
qed

lemma no_overlap_same_jobs: "no_overlap s \<Longrightarrow> jobs t = jobs s \<Longrightarrow> no_overlap t"
  by (simp add: no_overlap_def)

lemma no_overlap_add:
  assumes "no_overlap s" and "jobs t = jobs s @ [new]" and "j_schedule_id new = Some i"
    and "\<not> has_overlap i s"
  shows "no_overlap t"
  using assms by (auto simp: no_overlap_def has_overlap_def list_ex_iff)

lemma insert_occurrence_rows:
  "insert_occurrence mk s = (Inr r, t) \<Longrightarrow>
     r = mk (seqs s Occurrences) \<and> occurrence_ok r \<and>
     (\<forall>q \<in> set (occurrences s). o_schedule q = o_schedule r \<longrightarrow> o_scheduled_for q \<noteq> o_scheduled_for r) \<and>
     jobs t = jobs s \<and> attempts t = attempts s \<and> artifacts t = artifacts s \<and>
     schedules t = schedules s \<and> occurrences t = occurrences s @ [r]"
  by (auto simp: insert_occurrence_def sql_insert_Inr_iff set_table_defs occurrence_insert_error_def
      split: if_splits)

lemma update_schedules_rows:
  "update_schedules P F s = (Inr hits, t) \<Longrightarrow>
     jobs t = jobs s \<and> attempts t = attempts s \<and> artifacts t = artifacts s \<and>
     occurrences t = occurrences s \<and> schedules t = update_where P F (schedules s) \<and>
     hits = List.map F (filter P (schedules s)) \<and> list_all schedule_ok hits"
  by (auto simp: update_schedules_def sql_update_Inr_iff set_table_defs)

lemma materialize_no_overlap:
  assumes inv: "no_overlap s" and run: "materialize_next_schedule_at locked rng now as_of s = (r, t)"
  shows "no_overlap t"
proof -
  have body: "no_overlap v" if run: "materialize_body locked rng now as_of s = (Inr x, v)" for x v
  proof (cases x)
    case None
    with run inv show ?thesis
      by (auto simp: materialize_body_def tx_bind_Inr_iff tx_returns split: option.splits)
  next
    case (Some made)
    then obtain c c' at outcome job n where
      "materialize_candidate rng now as_of c s = (Inr (c', at, outcome, job, n), v)"
      using run by (cases made) (auto simp: materialize_body_def tx_bind_Inr_iff tx_returns split: option.splits)
    then show ?thesis
    proof (cases rule: materialize_candidate_Inr)
      case (cases interval nxt count raw_job raw_n reason u ocr w hits)
      have "jobs v = jobs u"
        using insert_occurrence_rows [OF cases(10)] update_schedules_rows [OF cases(11)] by simp
      from cases(7) show ?thesis
      proof (cases rule: materialize_outcome_cases)
        case overlap
        with inv \<open>jobs v = jobs u\<close> show ?thesis by (auto intro: no_overlap_same_jobs)
      next
        case (made u' new i copies)
        with inv \<open>jobs v = jobs u\<close> show ?thesis
          by (intro no_overlap_add [of s v new "s_id c"]) (simp_all add: scheduled_job_def)
      qed
    qed
  qed
  have "no_overlap (snd (transaction (materialize_body locked rng now as_of) s))"
  proof (cases "materialize_body locked rng now as_of s")
    case (Pair q v)
    with body inv show ?thesis
      by (cases q) (auto simp: transaction_def intro: no_overlap_same_jobs)
  qed
  moreover from run have "t = snd (transaction (materialize_body locked rng now as_of) s)"
    by (auto simp: materialize_next_schedule_at_def tx_bind_def tx_returns
        split: prod.splits sum.splits option.splits)
  ultimately show ?thesis by simp
qed

end
