(* ===== verification/QueueProps.thy ===== *)
theory QueueProps
  imports Fencing
begin

text \<open>
  What the queue promises: which job a claim takes and what it writes, that a claim of an eligible job
  succeeds, that a stale claim can do nothing, and what failure, cancellation and retry decide.
\<close>

definition claim_time :: "timestamp \<Rightarrow> timestamp option \<Rightarrow> timestamp" where
  "claim_time now as_of = (case as_of of None \<Rightarrow> now | Some t \<Rightarrow> t)"

definition eligible :: "(int \<Rightarrow> bool) \<Rightarrow> timestamp \<Rightarrow> job_row \<Rightarrow> bool" where
  "eligible locked t j \<longleftrightarrow> claimable_at t j \<and> \<not> locked (j_id j)"

lemmas [evaluate] =
  claim_next_with_time_def claim_body_def claim_time_def eligible_def next_attempt_number_def
  attempt_numbers_def claimed_work_of_def start_job_def new_attempt_def worker_live_def
  decode_job_id_def decode_u64_def decode_u32_def decode_duration_def job_id_new_def
  i64_max_as_u64_def whole_milliseconds_def from_millis_def less_job_priority_def
  less_eq_job_priority_def Let_def cancellation_requested_def finish_cancelled_def cancel_attempt_def
  cancel_job_def cancelled_message_def record_failure_def failure_writes_def fail_attempt_def
  retry_job_def fail_job_def encode_duration_def sdiv_nonneg_eq_div

section \<open>Claiming\<close>

lemma claim_next_Some:
  assumes inv: "queue_inv s"
    and run: "claim_next_with_time locked now token worker as_of s = (Inr (Some c), t)"
  obtains cand number ms att work wk where
    "first_by claim_key (filter (\<lambda>r. claimable_at (claim_time now as_of) r \<and> \<not> locked (j_id r)) (jobs s))
       = Some cand"
    and "cand \<in> set (jobs s)" and "eligible locked (claim_time now as_of) cand"
    and "decode_job_id (j_id cand) = Inr (cj_job_id c)"
    and "number = next_attempt_number s (j_id cand)" and "number \<le> j_max_attempts cand"
    and "wk \<in> set (workers s)" and "w_id wk = worker" and "worker_live (claim_time now as_of) wk"
    and "att = new_attempt (seqs s Attempts) cand number (claim_time now as_of) wk token ms"
    and "t = s\<lparr>jobs := put_row j_id (start_job (claim_time now as_of) cand) (jobs s),
             attempts := attempts s @ [att], seqs := (seqs s)(Attempts := seqs s Attempts + 1)\<rparr>"
    and "decode_u32 number ''attempt number'' = Inr (cj_attempt_number c)"
    and "decode_u32 (j_max_attempts cand) ''max attempts'' = Inr (cj_max_attempts c)"
    and "cj_attempt_id c = a_id att" and "cj_worker_id c = worker" and "cj_claim_token c = token"
    and "Some (cj_lease_expires_at c) = a_lease_expires_at att" and "cj_work c = work"
    and "claimed_work_of t cand = Inr work"
    and "\<forall>q \<in> set (attempts s). a_token q \<noteq> Some token"
proof -
  let ?ct = "claim_time now as_of"
  from run obtain r u where
    body: "claim_body locked token worker ?ct s = (Inr r, u)"
    and rest: "(case r of
        None \<Rightarrow> tx_return None
      | Some (job_id, cand, number, wait, attempt, work) \<Rightarrow>
        tx_bind (tx_lift (decode_u32 number ''attempt number'')) (\<lambda>n.
        tx_bind (tx_lift (decode_u32 (j_max_attempts cand) ''max attempts'')) (\<lambda>mx.
        tx_return (Some
          \<lparr>cj_job_id = job_id, cj_attempt_id = a_id attempt, cj_attempt_number = n,
           cj_max_attempts = mx, cj_worker_id = worker, cj_claim_token = token,
           cj_lease_expires_at = (case a_lease_expires_at attempt of Some l \<Rightarrow> l | None \<Rightarrow> ?ct),
           cj_queue_wait = from_millis (unat wait), cj_work = work\<rparr>)))) u = (Inr (Some c), t)"
    unfolding claim_next_with_time_def claim_time_def [symmetric] Let_def tx_bind_Inr_iff
      transaction_Inr_iff by blast
  from rest obtain jid cand number wait att work where r: "r = Some (jid, cand, number, wait, att, work)"
    by (cases r) (auto simp: tx_returns)
  from rest [unfolded r] obtain n mx where
    n: "decode_u32 number ''attempt number'' = Inr n"
      "decode_u32 (j_max_attempts cand) ''max attempts'' = Inr mx" and u: "u = t"
    and c: "c = \<lparr>cj_job_id = jid, cj_attempt_id = a_id att, cj_attempt_number = n,
        cj_max_attempts = mx, cj_worker_id = worker, cj_claim_token = token,
        cj_lease_expires_at = (case a_lease_expires_at att of Some l \<Rightarrow> l | None \<Rightarrow> ?ct),
        cj_queue_wait = from_millis (unat wait), cj_work = work\<rparr>"
    by (auto simp: tx_bind_Inr_iff tx_returns)
  show thesis
  proof (rule claim_body_Some [OF queue_inv_keyed(1) [OF inv] body [unfolded r u]], goal_cases)
    case (1 wk)
    show thesis
    proof (rule that [of cand number wk att "uint wait" work])
      show "Some (cj_lease_expires_at c) = a_lease_expires_at att"
        unfolding 1(11) c by (simp add: new_attempt_def)
    qed (use 1 n in \<open>simp_all add: c eligible_def\<close>)
  qed
qed

text \<open>The order in which jobs are to be claimed, said without the key the query sorts by: by priority, among jobs of
  one priority by the time since when they are available, and then by identifier.\<close>

definition claimed_before :: "job_row \<Rightarrow> job_row \<Rightarrow> bool" where
  "claimed_before j q \<longleftrightarrow>
     j_priority j = High \<and> j_priority q \<in> {Normal, Low} \<or> j_priority j = Normal \<and> j_priority q = Low \<or>
     j_priority j = j_priority q \<and>
       (j_available_at j < j_available_at q \<or> j_available_at j = j_available_at q \<and> j_id j < j_id q)"

lemma claim_key_before: "claim_key j \<le> claim_key q \<Longrightarrow> j_id j \<noteq> j_id q \<Longrightarrow> claimed_before j q"
  by (cases "j_priority j"; cases "j_priority q")
    (auto simp: claim_key_def claimed_before_def less_job_priority_def less_eq_job_priority_def)

text \<open>C6. A successful claim takes a job that is eligible (queued or waiting to be retried, due, and
  not locked by another transaction), and every other eligible job comes after it: it has a lower priority, or the
  same priority and a later availability, or the same of both and a greater identifier.\<close>

theorem claim_takes_first:
  assumes "queue_inv s"
    and "claim_next_with_time locked now token worker as_of s = (Inr (Some c), t)"
  shows "\<exists>j \<in> set (jobs s). uint (job_id_get (cj_job_id c)) = j_id j \<and>
     j_state j \<in> {Queued, RetryWaiting} \<and> j_available_at j \<le> claim_time now as_of \<and> \<not> locked (j_id j) \<and>
     (\<forall>q \<in> set (jobs s). j_state q \<in> {Queued, RetryWaiting} \<longrightarrow> j_available_at q \<le> claim_time now as_of \<longrightarrow>
        \<not> locked (j_id q) \<longrightarrow> q \<noteq> j \<longrightarrow> claimed_before j q)"
  using assms(1,2)
proof (rule claim_next_Some)
  fix cand
  assume first: "first_by claim_key
      (filter (\<lambda>r. claimable_at (claim_time now as_of) r \<and> \<not> locked (j_id r)) (jobs s)) = Some cand"
    and cand: "cand \<in> set (jobs s)" "eligible locked (claim_time now as_of) cand"
      "decode_job_id (j_id cand) = Inr (cj_job_id c)"
  have "claimed_before cand q"
    if "q \<in> set (jobs s)" "eligible locked (claim_time now as_of) q" "q \<noteq> cand" for q
  proof (rule claim_key_before)
    show "claim_key cand \<le> claim_key q"
      by (rule first_by_least [OF first]) (use that in \<open>simp add: eligible_def\<close>)
    show "j_id cand \<noteq> j_id q"
      using keyed_unique [OF queue_inv_keyed(1) [OF assms(1)] cand(1) that(1)] that(3) by blast
  qed
  with cand show ?thesis
    by (intro bexI [of _ cand])
      (auto simp: eligible_def claimable_at_def claimable_states_def
        dest: encode_decode_job_id [THEN encode_job_id_uint])
qed

text \<open>The claim that the sample database gives to worker 7 at time 10.\<close>

definition ex_urgent_claim :: claimed_job where
  "ex_urgent_claim = (ex_claim 5 10 99)\<lparr>cj_lease_expires_at := 10 + seconds 30\<rparr>"

lemma ex_urgent:
  obtains t where "claim_next_with_time (\<lambda>_. False) 10 99 7 None ex_db = (Inr (Some ex_urgent_claim), t)"
proof -
  have "fst (claim_next_with_time (\<lambda>_. False) 10 99 7 None ex_db) = Inr (Some ex_urgent_claim)"
    by (simp add: evaluate ex_urgent_claim_def)
  then show thesis by (metis that prod.collapse)
qed

theorem claim_takes_first_witness:
  "\<exists>j \<in> set (jobs ex_db). j_id j = 5 \<and> j_priority j = High \<and>
     (\<forall>q \<in> set (jobs ex_db). j_state q \<in> {Queued, RetryWaiting} \<longrightarrow> j_available_at q \<le> 10 \<longrightarrow> q \<noteq> j \<longrightarrow> claimed_before j q)"
proof (rule ex_urgent)
  fix t assume "claim_next_with_time (\<lambda>_. False) 10 99 7 None ex_db = (Inr (Some ex_urgent_claim), t)"
  from claim_takes_first [OF ex_db_inv this] obtain j where j: "j \<in> set (jobs ex_db)" "j_id j = 5"
      "\<forall>q \<in> set (jobs ex_db). j_state q \<in> {Queued, RetryWaiting} \<longrightarrow> j_available_at q \<le> 10 \<longrightarrow> q \<noteq> j \<longrightarrow> claimed_before j q"
    by (auto simp: ex_urgent_claim_def ex_claim_def claim_time_def)
  moreover from j(1,2) have "j_priority j = High" by (auto simp: ex_db_def default_job_def)
  ultimately show ?thesis by blast
qed

lemma claim_issues:
  assumes "queue_inv s" and "claim_next_with_time locked now token worker as_of s = (Inr (Some c), t)"
  shows "issued t c"
  using assms
proof (rule claim_next_Some, goal_cases)
  case (1 j n ms a work w)
  let ?ct = "claim_time now as_of"
  have "attempts t = attempts s @ [a]" "jobs t = put_row j_id (start_job ?ct j) (jobs s)"
    using 1(11) by simp_all
  moreover have "start_job ?ct j \<in> set (put_row j_id (start_job ?ct j) (jobs s))"
    by (rule put_row_mem_self [OF 1(2)]) (simp add: start_job_def)
  ultimately show ?case
    unfolding issued_def
    by (intro bexI [of _ a] bexI [of _ "start_job ?ct j"])
      (use 1(4,8,10,12,13,14,15,16) in \<open>auto simp: new_attempt_def start_job_def decode_u32_uint
        decode_job_id_Inr_iff uint_word_of_int take_bit_int_eq_self\<close>)
qed

text \<open>C7. A successful claim moves exactly the taken job to running, with its progress reset, the time of its first
  start and every other column kept, and adds
  exactly one attempt: running from now on, without progress, owned by the claiming worker (which is live), numbered one above every
  earlier attempt of the job and within its limit, leased for the worker's lease duration. The claim the
  worker receives names that attempt.\<close>

theorem claim_starts_attempt:
  assumes "queue_inv s"
    and "claim_next_with_time locked now token worker as_of s = (Inr (Some c), t)"
  shows "\<exists>j \<in> set (jobs s). \<exists>w \<in> set (workers s). \<exists>a.
     jobs t = put_row j_id
       (j\<lparr>j_state := Running,
          j_started_at := Some (case j_started_at j of None \<Rightarrow> claim_time now as_of | Some first \<Rightarrow> first),
          j_progress_completed := 0, j_result_message := None, j_result_duration_ms := None,
          j_failure_message := None, j_finished_at := None\<rparr>) (jobs s) \<and>
     attempts t = attempts s @ [a] \<and> a_started_at a = claim_time now as_of \<and>
     a_progress_completed a = 0 \<and> a_progress_total a = j_progress_total j \<and>
     w_id w = worker \<and> worker_live (claim_time now as_of) w \<and>
     a_job a = j_id j \<and> running a \<and> a_worker a = Some worker \<and> a_token a = Some token \<and>
     a_lease_expires_at a = Some (claim_time now as_of + seconds (w_lease_seconds w)) \<and>
     (\<forall>b \<in> set (attempts_of s (j_id j)). a_number b < a_number a) \<and> a_number a \<le> j_max_attempts j \<and>
     issued t c"
  using assms
proof (rule claim_next_Some, goal_cases)
  case (1 j n ms a work w)
  then show ?case
    using next_attempt_number_gt claim_issues [OF assms]
    by (intro bexI [of _ j] bexI [of _ w] exI [of _ a])
      (auto simp: new_attempt_def start_job_def running_def split: option.splits)
qed

theorem claim_starts_attempt_witness:
  "\<exists>t. claim_next_with_time (\<lambda>_. False) 10 99 7 None ex_db = (Inr (Some ex_urgent_claim), t) \<and>
     issued t ex_urgent_claim \<and> length (attempts t) = 4"
proof (rule ex_urgent)
  fix t assume run: "claim_next_with_time (\<lambda>_. False) 10 99 7 None ex_db = (Inr (Some ex_urgent_claim), t)"
  from claim_starts_attempt [OF ex_db_inv run] have "issued t ex_urgent_claim" "\<exists>a. attempts t = attempts ex_db @ [a]"
    by blast+
  then show ?thesis using run by (auto simp: ex_db_def)
qed

text \<open>A claim reports that there is nothing to do exactly when no job is eligible, and then changes
  nothing.\<close>

lemma claim_finds_nothing:
  "(\<exists>t. claim_next_with_time locked now token worker as_of s = (Inr None, t)) \<longleftrightarrow>
     (\<forall>j \<in> set (jobs s). \<not> eligible locked (claim_time now as_of) j)"
proof -
  let ?f = "filter (\<lambda>r. claimable_at (claim_time now as_of) r \<and> \<not> locked (j_id r)) (jobs s)"
  have empty: "?f = [] \<longleftrightarrow> (\<forall>j \<in> set (jobs s). \<not> eligible locked (claim_time now as_of) j)"
    by (auto simp: eligible_def filter_empty_conv)
  have none: "claim_body locked token worker (claim_time now as_of) s = (Inr None, t) \<longleftrightarrow> ?f = [] \<and> t = s" for t
    by (auto simp: claim_body_def tx_bind_Inr_iff tx_returns split: option.splits)
  have "(\<exists>t. claim_next_with_time locked now token worker as_of s = (Inr None, t)) \<longleftrightarrow> ?f = []"
    unfolding claim_next_with_time_def claim_time_def [symmetric] Let_def tx_bind_Inr_iff
      transaction_Inr_iff
    using none by (auto simp: tx_bind_Inr_iff tx_returns split: option.splits prod.splits)
  then show ?thesis by (simp only: empty)
qed

text \<open>What a claim needs to go through, step by step.\<close>

lemma next_attempt_number_le:
  assumes "job_inv j (attempts_of s (j_id j))" and "j_state j \<in> claimable_states"
  shows "0 < next_attempt_number s (j_id j)" and "next_attempt_number s (j_id j) \<le> j_max_attempts j"
proof -
  let ?ns = "attempt_numbers s (j_id j)"
  have ok: "1 \<le> j_max_attempts j"
    using job_inv_ok [OF assms(1)] by (simp add: job_ok_def between_def)
  have below: "\<forall>n \<in> set ?ns. 0 < n \<and> n < j_max_attempts j"
    using job_inv_claimable [OF assms] job_inv_attempts [OF assms(1)]
    by (auto simp: attempt_numbers_def attempts_of_def attempt_ok_def)
  have "0 < next_attempt_number s (j_id j) \<and> next_attempt_number s (j_id j) \<le> j_max_attempts j"
  proof (cases "?ns = []")
    case True
    with ok show ?thesis by (simp add: next_attempt_number_def)
  next
    case False
    then have "Max (set ?ns) \<in> set ?ns" by simp
    with below have "0 < Max (set ?ns)" "Max (set ?ns) < j_max_attempts j" by blast+
    moreover have "next_attempt_number s (j_id j) = Max (set ?ns) + 1"
      using False by (simp add: next_attempt_number_def)
    ultimately show ?thesis by linarith
  qed
  then show "0 < next_attempt_number s (j_id j)" "next_attempt_number s (j_id j) \<le> j_max_attempts j"
    by simp_all
qed

lemma job_ok_start: "job_ok j \<Longrightarrow> job_ok (start_job t j)"
  by (auto simp: job_ok_def start_job_def between_def)

lemma attempt_ok_new:
  assumes "job_inv j as" and "0 < i" and "i < 2 ^ 63" and "0 < n" and "n \<le> j_max_attempts j"
    and "0 \<le> ms" and "ms < 2 ^ 63"
  shows "attempt_ok (new_attempt i j n t w token ms)"
  using assms(2-) job_inv_ok [OF assms(1)]
  by (simp add: attempt_ok_def new_attempt_def job_ok_def i64_range_def i32_range_def between_def)

lemma claimed_work_of_artifacts: "artifacts t = artifacts s \<Longrightarrow> claimed_work_of t j = claimed_work_of s j"
proof -
  assume "artifacts t = artifacts s"
  then have "load_input_artifacts t = load_input_artifacts s"
    by (intro ext) (simp add: load_input_artifacts_def)
  from this show ?thesis unfolding claimed_work_of_def by (rule arg_cong)
qed

lemma insert_attempt_fresh:
  assumes ids: "\<forall>i \<in> a_id ` set (attempts s). i < seqs s Attempts" and r: "r = mk (seqs s Attempts)" "a_id r = seqs s Attempts" "attempt_ok r"
    and fresh: "\<forall>q \<in> set (attempts s). a_token q \<noteq> a_token r"
      "\<forall>q \<in> set (attempts s). a_job q = a_job r \<longrightarrow> a_number q \<noteq> a_number r"
    and refs: "a_job r \<in> j_id ` set (jobs s)" "a_worker r \<in> Some ` w_id ` set (workers s)"
  shows "insert_attempt mk s =
    (Inr r, s\<lparr>attempts := attempts s @ [r], seqs := (seqs s)(Attempts := seqs s Attempts + 1)\<rparr>)"
proof -
  have "\<forall>q \<in> set (attempts s). a_id q \<noteq> seqs s Attempts"
    using ids by auto
  then have "attempt_insert_error s r = None"
    using r(2,3) fresh refs by (auto simp: attempt_insert_error_def refs_def)
  then show ?thesis
    using r(1) by (simp add: insert_attempt_def sql_insert_def Let_def set_table_defs)
qed

lemma update_job_by_id:
  assumes "keyed j_id (jobs s)" and "j \<in> set (jobs s)" and "Q j" and "job_ok (G j)"
    and "j_id (G j) = j_id j"
  shows "update_jobs (\<lambda>r. j_id r = j_id j \<and> Q r) G s = (Inr [G j], set_jobs (put_row j_id (G j) (jobs s)) s)"
proof -
  have "filter (\<lambda>r. j_id r = j_id j \<and> Q r) (jobs s) = [j]"
    by (rule filter_keyed_hit [OF assms(1)]) (use assms in auto)
  moreover from this have
    "update_where (\<lambda>r. j_id r = j_id j \<and> Q r) G (jobs s) = put_row j_id (G j) (jobs s)"
    by (rule update_where_put_row [where f = G, OF assms(1) _ assms(5)])
  ultimately show ?thesis using assms(4) by (simp add: update_jobs_def sql_update_def)
qed

text \<open>C8. A claim of the eligible jobs by a live worker succeeds: under the invariant no check of the
  claim fails. What is needed besides: the inputs of the eligible jobs load, the fencing token is new, and
  the attempt identifiers and the waiting time stay within a 64-bit column.\<close>

theorem claim_succeeds:
  assumes inv: "queue_inv s"
    and some: "\<exists>j \<in> set (jobs s). eligible locked (claim_time now as_of) j"
    and ready: "\<forall>j \<in> set (jobs s). eligible locked (claim_time now as_of) j \<longrightarrow>
      (\<exists>work. claimed_work_of s j = Inr work) \<and>
      whole_milliseconds (claim_time now as_of - j_available_at j) < 2 ^ 63"
    and worker: "\<exists>w \<in> set (workers s). w_id w = worker \<and> worker_live (claim_time now as_of) w"
    and token: "\<forall>a \<in> set (attempts s). a_token a \<noteq> Some token"
    and room: "seqs s Attempts < 2 ^ 63"
  shows "\<exists>c. fst (claim_next_with_time locked now token worker as_of s) = Inr (Some c)"
proof -
  let ?ct = "claim_time now as_of"
  let ?el = "filter (\<lambda>r. claimable_at ?ct r \<and> \<not> locked (j_id r)) (jobs s)"
  from some have "?el \<noteq> []" by (auto simp: eligible_def filter_empty_conv)
  then obtain j where first: "first_by claim_key ?el = Some j" by (cases "first_by claim_key ?el") auto
  from first_by_Some_mem [OF first] have j: "j \<in> set (jobs s)" "eligible locked ?ct j"
    by (auto simp: eligible_def)
  then have st: "j_state j \<in> claimable_states" by (simp add: eligible_def claimable_at_def)
  note ij = queue_inv_job [OF inv j(1)]
  have readable: "job_readable j" by (rule job_inv_readable [OF ij])
  then have ok: "job_ok j" and id: "0 < j_id j" "j_id j < 2 ^ 63"
    by (simp_all add: job_readable_def job_ok_def i64_range_def)
  define n where "n = next_attempt_number s (j_id j)"
  have n: "0 < n" "n \<le> j_max_attempts j" "\<forall>b \<in> set (attempts_of s (j_id j)). a_number b < n"
    unfolding n_def using next_attempt_number_le [OF ij st] next_attempt_number_gt by auto
  have mx: "j_max_attempts j \<le> 10" using ok by (simp add: job_ok_def between_def)
  define ms where "ms = max 0 (whole_milliseconds (?ct - j_available_at j))"
  from ready j obtain work where work: "claimed_work_of s j = Inr work" and "ms < 2 ^ 63"
    unfolding ms_def by auto
  then have ms: "to_word ms = Some (word_of_int ms :: u64)" "uint (word_of_int ms :: u64) = ms"
      "i64_range ms" "0 \<le> ms"
    by (auto simp: to_word_def ms_def i64_range_def uint_word_of_int take_bit_int_eq_self)
  from worker obtain w where w: "fetch_optional (filter (\<lambda>w. w_id w = worker \<and> worker_live ?ct w) (workers s)) = Some w"
    by (cases "fetch_optional (filter (\<lambda>w. w_id w = worker \<and> worker_live ?ct w) (workers s))")
      (auto simp: filter_empty_conv)
  note w' = fetch_optional_filter_Some [OF w]
  define u where "u = set_jobs (put_row j_id (start_job ?ct j) (jobs s)) s"
  have start: "update_jobs (\<lambda>r. j_id r = j_id j \<and> j_state r \<in> claimable_states) (start_job ?ct) s
      = (Inr [start_job ?ct j], u)"
    unfolding u_def
    by (rule update_job_by_id [where Q = "\<lambda>r. j_state r \<in> claimable_states"])
      (use queue_inv_keyed(1) [OF inv] j(1) st job_ok_start [OF ok] in \<open>simp_all add: start_job_def\<close>)
  define a where "a = new_attempt (seqs s Attempts) j n ?ct w token ms"
  have ids: "\<forall>i \<in> a_id ` set (attempts s). i < seqs s Attempts" "0 < seqs s Attempts"
    using inv by (simp_all add: queue_inv_def tables_inv_def)
  have u: "attempts u = attempts s" "workers u = workers s" "artifacts u = artifacts s"
      "seqs u = seqs s" "j_id ` set (jobs u) = j_id ` set (jobs s)"
    by (simp_all add: u_def set_table_defs)
  have a_ok: "attempt_ok a"
    unfolding a_def by (rule attempt_ok_new [OF ij ids(2) room n(1,2) ms(4)])
      (use ms(3) in \<open>simp add: i64_range_def\<close>)
  have fresh: "\<forall>q \<in> set (attempts s). a_job q = j_id j \<longrightarrow> a_number q \<noteq> n"
    using n(3) by (auto simp: attempts_of_def)
  obtain t where ins: "insert_attempt (\<lambda>i. new_attempt i j n ?ct w token ms) u = (Inr a, t)"
      and t: "artifacts t = artifacts s"
  proof
    show "insert_attempt (\<lambda>i. new_attempt i j n ?ct w token ms) u = (Inr a,
        u\<lparr>attempts := attempts u @ [a], seqs := (seqs u)(Attempts := seqs u Attempts + 1)\<rparr>)"
      by (rule insert_attempt_fresh)
        (use ids(1) a_ok token fresh j(1) w' in \<open>auto simp: u a_def new_attempt_def\<close>)
  qed (simp add: u)
  have "claim_body locked token worker ?ct s =
      (Inr (Some (JobId (word_of_int (j_id j)), j, n, word_of_int ms, a, work)), t)"
    using id n(2)
    by (simp add: n_def [symmetric] claim_body_def tx_bind_def tx_returns first decode_job_id_Inr_iff [THEN iffD2] ms
        ms_def [symmetric] start ensure_one_row_def u w ins claimed_work_of_artifacts [OF t] work to_signed_def)
  moreover have "decode_u32 n ''attempt number'' = Inr (word_of_int n)"
      "decode_u32 (j_max_attempts j) ''max attempts'' = Inr (word_of_int (j_max_attempts j))"
    using n mx by (simp_all add: decode_u32_Inr_iff)
  ultimately show ?thesis
    by (simp add: claim_next_with_time_def claim_time_def [symmetric] Let_def tx_bind_def tx_returns
        transaction_def)
qed

theorem claim_succeeds_witness:
  "\<exists>c. fst (claim_next_with_time (\<lambda>_. False) 10 99 7 None ex_db) = Inr (Some c)"
  by (rule claim_succeeds) (simp_all add: ex_db_inv, simp_all add: evaluate)

section \<open>Fencing\<close>

text \<open>C4. A call under a claim that is no longer live (its attempt closed, reclaimed by another worker, or
  its lease expired) is rejected as lost and changes no row, whatever the call: progress, encoding time,
  completion, publication of outputs, cancellation, failure, or renewal.\<close>

theorem stale_claim_is_rejected:
  assumes "queue_inv s" and "valid_call c call" and "\<not> claim_live now c s"
  shows "fst (run_claim_call now c call s) = Inl ClaimLost \<and>
     same_rows s (snd (run_claim_call now c call s))"
  using assms by (rule claim_calls.stale)

theorem stale_claim_is_rejected_witness:
  "fst (run_claim_call (seconds 31) (ex_claim 2 1 42) (CallProgress 1) ex_db) = Inl ClaimLost"
  by (rule stale_claim_is_rejected [THEN conjunct1]) (simp_all add: ex_db_inv, simp_all add: evaluate claim_live_def)

text \<open>C5. At most one of the claims ever issued for a job can act on it: if two calls under claims of the
  same job succeed on the same database, they name the same attempt, worker and fencing token.\<close>

theorem one_claim_per_job:
  assumes "queue_inv s" and "cj_job_id c = cj_job_id c'"
    and "run_claim_call now c call s = (Inr (), t)" and "run_claim_call now' c' call' s = (Inr (), t')"
  shows "cj_attempt_id c = cj_attempt_id c' \<and> cj_claim_token c = cj_claim_token c' \<and>
     cj_worker_id c = cj_worker_id c'"
  using assms by (rule claim_calls.one_holder)

text \<open>Two views of the claim of the running job, which differ in what they remember of the lease.\<close>

definition ex_renewed_claim :: claimed_job where
  "ex_renewed_claim = (ex_claim 2 1 42)\<lparr>cj_lease_expires_at := seconds 60\<rparr>"

lemma ex_calls:
  obtains t t' where "run_claim_call 5 (ex_claim 2 1 42) (CallProgress 1) ex_db = (Inr (), t)"
    and "run_claim_call 6 ex_renewed_claim CallRenew ex_db = (Inr (), t')"
proof -
  have "fst (run_claim_call 5 (ex_claim 2 1 42) (CallProgress 1) ex_db) = Inr ()"
    by (simp add: evaluate update_progress_def progress_within_def)
  moreover have "fst (run_claim_call 6 ex_renewed_claim CallRenew ex_db) = Inr ()"
    by (simp add: evaluate ex_renewed_claim_def renew_lease_with_time_def drop_result_def renewable_def renewed_attempt_def
        renewing_worker_def)
  ultimately show thesis by (metis that prod.collapse)
qed

theorem one_claim_per_job_witness:
  "\<exists>t t'. run_claim_call 5 (ex_claim 2 1 42) (CallProgress 1) ex_db = (Inr (), t) \<and>
     run_claim_call 6 ex_renewed_claim CallRenew ex_db = (Inr (), t') \<and> ex_renewed_claim \<noteq> ex_claim 2 1 42 \<and>
     cj_attempt_id (ex_claim 2 1 42) = cj_attempt_id ex_renewed_claim \<and>
     cj_claim_token (ex_claim 2 1 42) = cj_claim_token ex_renewed_claim"
proof (rule ex_calls)
  fix t t' assume calls: "run_claim_call 5 (ex_claim 2 1 42) (CallProgress 1) ex_db = (Inr (), t)"
    and "run_claim_call 6 ex_renewed_claim CallRenew ex_db = (Inr (), t')"
  moreover have "cj_job_id (ex_claim 2 1 42) = cj_job_id ex_renewed_claim" by (simp add: ex_renewed_claim_def)
  note one_claim_per_job [OF ex_db_inv this calls(1)]
  moreover have "ex_renewed_claim \<noteq> ex_claim 2 1 42"
    by (simp add: ex_renewed_claim_def ex_claim_def seconds_def)
  ultimately show ?thesis by blast
qed

end
