(* ===== verification/ScheduleProps.thy ===== *)
theory ScheduleProps
  imports ScheduleInv QueueProps
begin

text \<open>
  Properties of the scheduler: the slots it computes, the occurrence it materialises, and the job it
  creates or skips.
\<close>

section \<open>The cursor\<close>

text \<open>C13. When a schedule is changed, its cursor is the first of its slots after the clock: one of the
  slots counted from the anchor, later than the clock, and no later than any other such slot.\<close>

theorem next_slot_is_least:
  assumes "next_slot_after rng anchor interval as_of = Inr r" and "0 < uint interval"
  shows "\<exists>k. r = slot anchor interval k \<and> as_of < r \<and>
     (\<forall>n. as_of < slot anchor interval n \<longrightarrow> r \<le> slot anchor interval n)"
proof (cases "anchor \<le> as_of")
  case True
  let ?k = "nat (whole_seconds (as_of - anchor) div uint interval)"
  have r: "r = slot anchor interval (Suc ?k)" by (rule next_slot_after_past [OF assms(1) True assms(2)])
  note passed = slots_passed [OF True assms(2)]
  show ?thesis
    using passed(2) slot_next_least [OF assms(2) passed] slot_le_iff [OF assms(2)]
    unfolding r by blast
next
  case False
  with assms(1) have "r = slot anchor interval 0" by (simp add: next_slot_after_def)
  moreover have "anchor \<le> slot anchor interval n" for n
    using slot_le_iff [OF assms(2), of anchor 0 n] by simp
  ultimately show ?thesis
    using False by (intro exI [of _ 0]) simp
qed

theorem next_slot_is_least_witness:
  "next_slot_after (\<lambda>_. True) 0 60 (seconds 150) = Inr (seconds 180) \<and>
   (\<exists>k. seconds 180 = slot 0 60 k)"
proof -
  have run: "next_slot_after (\<lambda>_. True) 0 60 (seconds 150) = Inr (seconds 180)"
    by (simp add: next_slot_after_def Let_def checked_div_i128_def i128_range_def i64_range_def
        checked_add_def seconds_def sdiv_nonneg_eq_div to_signed_def)
  with next_slot_is_least [OF run] show ?thesis by auto
qed

text \<open>C14. The occurrence of a due schedule is its last slot at or before the clock, the number of
  earlier slots it stands for is exact, and the next slot is after the clock. This cannot fail while the
  times stay within what the clock type represents.\<close>

theorem latest_slot_is_last:
  assumes "next_run_at \<le> as_of" and "0 < uint interval" and "as_of - next_run_at < 2 ^ 63"
    and "\<And>r. next_run_at \<le> r \<Longrightarrow> r \<le> as_of + seconds (uint interval) \<Longrightarrow> rng r"
  shows "\<exists>n. latest_due_slot rng next_run_at interval as_of =
       Inr (slot next_run_at interval (unat n), slot next_run_at interval (Suc (unat n)), n) \<and>
     slot next_run_at interval (unat n) \<le> as_of \<and> as_of < slot next_run_at interval (Suc (unat n)) \<and>
     (\<forall>k. slot next_run_at interval k \<le> as_of \<longleftrightarrow> k \<le> unat n)"
proof -
  from latest_due_slot_total [OF assms(1-3)] assms(4) obtain a b n where
    run: "latest_due_slot rng next_run_at interval as_of = Inr (a, b, n)" by blast
  note r = latest_due_slot_Inr [OF run assms(2)]
  have "slot next_run_at interval k \<le> as_of \<longleftrightarrow> k \<le> unat n" for k
    using slot_next_least [OF assms(2), of next_run_at "unat n" as_of k] r(3,4,7,8) by auto
  with run r show ?thesis by auto
qed

theorem latest_slot_is_last_witness:
  "\<exists>n. latest_due_slot (\<lambda>_. True) 0 60 (seconds 150) = Inr (slot 0 60 (unat n), slot 0 60 (Suc (unat n)), n)"
proof -
  have "seconds 150 - 0 < 2 ^ 63" "(0::int) \<le> seconds 150" by (simp_all add: seconds_def)
  then show ?thesis using latest_slot_is_last [of 0 "seconds 150" 60 "\<lambda>_. True"] by auto
qed

section \<open>Materialising an occurrence\<close>

lemma materialize_Some:
  assumes inv: "schedules_inv s"
    and run: "materialize_next_schedule_at locked rng now as_of s = (Inr (Some tick), t)"
  obtains c interval nxt count raw_job reason u occ v hits where
    "first_by due_key (filter (\<lambda>r. due as_of r \<and> \<not> locked (s_id r)) (schedules s)) = Some c"
    and "c \<in> set (schedules s)" and "due as_of c" and "\<not> locked (s_id c)" and "schedule_readable c"
    and "s_interval_seconds c = uint interval" and "0 < uint interval"
    and "latest_due_slot rng (s_next_run_at c) interval as_of =
           Inr (tk_scheduled_for tick, nxt, tk_coalesced_slots tick)"
    and "int (length (filter (\<lambda>r. si_schedule r = s_id c) (schedule_inputs s))) = uint count"
    and "materialize_outcome now c (tk_scheduled_for tick) count s =
           (Inr (tk_outcome tick, tk_job_id tick, reason), u)"
    and "opt_try (\<lambda>i. ok_or (InvalidData ''job ID exceeds BIGINT'')
           (to_signed i64_range (uint (job_id_get i)))) (tk_job_id tick) = Inr raw_job"
    and "insert_occurrence (occurrence_of now (s_id c) (tk_scheduled_for tick) (tk_outcome tick) raw_job
           reason (uint (tk_coalesced_slots tick))) u = (Inr occ, v)"
    and "update_schedules (\<lambda>r. s_id r = s_id c) (advance_schedule now nxt) v = (Inr hits, t)"
    and "length hits = 1"
proof -
  from run obtain c c' where
    c: "first_by due_key (filter (\<lambda>r. due as_of r \<and> \<not> locked (s_id r)) (schedules s)) = Some c"
    and made: "materialize_candidate rng now as_of c s =
      (Inr (c', tk_scheduled_for tick, tk_outcome tick, tk_job_id tick, tk_coalesced_slots tick), t)"
    by (auto simp: materialize_next_schedule_at_def materialize_body_def tx_bind_Inr_iff tx_returns
        transaction_Inr_iff split: option.splits prod.splits)
  from first_by_Some_mem [OF c] inv have mem: "c \<in> set (schedules s)" "due as_of c" "\<not> locked (s_id c)"
      "schedule_readable c"
    by (auto simp: schedules_inv_def)
  from made show thesis
  proof (cases rule: materialize_candidate_Inr)
    case (cases interval nxt count raw_job raw_n reason u ocr v hits)
    have iv: "s_interval_seconds c = uint interval" using decode_u32_uint [OF cases(2)] by simp
    with mem(4) have "0 < uint interval"
      by (auto simp: schedule_readable_def schedule_ok_def between_def)
    with iv mem c cases decode_u32_i64_uint [OF cases(4)] show thesis
      by (intro that [of c interval nxt count reason u raw_job ocr v hits]) simp_all
  qed
qed

lemma materialized_schedule:
  assumes "materialize_next_schedule_at locked rng now as_of s = (Inr (Some tick), t)"
    and "first_by due_key (filter (\<lambda>r. due as_of r \<and> \<not> locked (s_id r)) (schedules s)) = Some c"
  shows "tk_schedule_id tick = ScheduleId (word_of_int (s_id c))"
  using assms
  by (auto simp: materialize_next_schedule_at_def materialize_body_def materialize_candidate_def
      tx_bind_Inr_iff tx_returns transaction_Inr_iff decode_schedule_id_Inr_iff
      split: option.splits prod.splits)

section \<open>An example\<close>

definition ex_schedule :: schedule_row where
  "ex_schedule = \<lparr>s_id = 1, s_name = lit ''nightly'', s_enabled = True, s_interval_seconds = 60,
     s_anchor_at = 0, s_next_run_at = 0, s_priority = Low, s_max_width = 800, s_jpeg_quality = 85,
     s_owner = 1, s_created_at = 0, s_updated_at = 0\<rparr>"

definition ex_schedule_input :: schedule_input_row where
  "ex_schedule_input = \<lparr>si_id = 1, si_schedule = 1, si_item_index = 0, si_storage_key = lit ''k'',
     si_display_name = lit ''a.png'', si_media_type = lit ''image/png'', si_byte_size = 9, si_width = 4,
     si_height = 3, si_checksum = None\<rparr>"

definition ex_schedules_db :: db where
  "ex_schedules_db = ex_db\<lparr>schedules := [ex_schedule], schedule_inputs := [ex_schedule_input]\<rparr>"

lemmas [evaluate] =
  ex_schedule_def ex_schedule_input_def ex_schedules_db_def schedules_inv_def schedule_readable_def
  schedule_ok_def image_media_types_def

lemmas [evaluate] =
  materialize_next_schedule_at_def materialize_body_def materialize_candidate_def materialize_outcome_def
  create_scheduled_job_def scheduled_job_def scheduled_input_def occurrence_of_def advance_schedule_def
  latest_due_slot_def checked_mul_u64_def checked_add_def whole_seconds_def due_def due_key_def
  has_overlap_def decode_u32_i64_def decode_u32_def max_files_per_job_def encode_u32_def encode_u64_def
  decode_job_id_def decode_u64_def job_id_new_def i64_max_as_u64_def decode_schedule_id_def
  schedule_id_new_def occurrence_insert_error_def occurrence_ok_def sdiv_nonneg_eq_div

lemma ex_schedules_db_inv: "schedules_inv ex_schedules_db"
  by (simp add: evaluate)

abbreviation ex_tick :: "(repository_error + schedule_tick option) \<times> db" where
  "ex_tick \<equiv> materialize_next_schedule_at (\<lambda>_. False) (\<lambda>_. True) 0 (seconds 150) ex_schedules_db"

lemma ex_tick_made: "\<exists>tick t. ex_tick = (Inr (Some tick), t)"
proof -
  have "case fst ex_tick of Inr (Some tick) \<Rightarrow> True | _ \<Rightarrow> False"
    by (simp add: evaluate)
  then show ?thesis
    by (cases ex_tick) (auto split: sum.splits option.splits)
qed

section \<open>What an occurrence does\<close>

text \<open>C15. The scheduler takes the enabled schedule whose cursor is earliest among the due ones nobody has
  locked (of equal ones that with the least identifier), records exactly one occurrence, for the last slot that is due,
  and writes to that schedule the first slot after the clock as its cursor, and the time, so that it is not due again at
  the clock; nothing else of it and no other schedule changes.\<close>

theorem materialize_records_slot:
  assumes inv: "schedules_inv s"
    and run: "materialize_next_schedule_at locked rng now as_of s = (Inr (Some tick), t)"
  shows "\<exists>c \<in> set (schedules s). \<exists>occ interval nxt.
     s_enabled c \<and> s_next_run_at c \<le> as_of \<and> \<not> locked (s_id c) \<and>
     (\<forall>r \<in> set (schedules s). s_enabled r \<longrightarrow> s_next_run_at r \<le> as_of \<longrightarrow> \<not> locked (s_id r) \<longrightarrow>
        s_next_run_at c < s_next_run_at r \<or> s_next_run_at c = s_next_run_at r \<and> s_id c \<le> s_id r) \<and>
     uint interval = s_interval_seconds c \<and>
     tk_scheduled_for tick = slot (s_next_run_at c) interval (unat (tk_coalesced_slots tick)) \<and>
     nxt = slot (s_next_run_at c) interval (Suc (unat (tk_coalesced_slots tick))) \<and>
     tk_scheduled_for tick \<le> as_of \<and> as_of < nxt \<and>
     tk_schedule_id tick = ScheduleId (word_of_int (s_id c)) \<and>
     occurrences t = occurrences s @ [occ] \<and> o_schedule occ = s_id c \<and>
     o_scheduled_for occ = tk_scheduled_for tick \<and> o_outcome occ = tk_outcome tick \<and>
     o_coalesced_slots occ = uint (tk_coalesced_slots tick) \<and>
     o_job occ = map_option (\<lambda>i. uint (job_id_get i)) (tk_job_id tick) \<and> o_created_at occ = now \<and>
     schedules t = put_row s_id (c\<lparr>s_next_run_at := nxt, s_updated_at := now\<rparr>) (schedules s)"
  using inv run
proof (rule materialize_Some)
  fix c interval nxt count raw_job reason u occ v hits
  assume c: "first_by due_key (filter (\<lambda>r. due as_of r \<and> \<not> locked (s_id r)) (schedules s)) = Some c"
      "c \<in> set (schedules s)" "due as_of c" "\<not> locked (s_id c)"
    and iv: "s_interval_seconds c = uint interval" "0 < uint interval"
    and sl: "latest_due_slot rng (s_next_run_at c) interval as_of =
       Inr (tk_scheduled_for tick, nxt, tk_coalesced_slots tick)"
    and out: "materialize_outcome now c (tk_scheduled_for tick) count s =
       (Inr (tk_outcome tick, tk_job_id tick, reason), u)"
    and raw: "opt_try (\<lambda>i. ok_or (InvalidData ''job ID exceeds BIGINT'')
       (to_signed i64_range (uint (job_id_get i)))) (tk_job_id tick) = Inr raw_job"
    and ins: "insert_occurrence (occurrence_of now (s_id c) (tk_scheduled_for tick) (tk_outcome tick) raw_job
       reason (uint (tk_coalesced_slots tick))) u = (Inr occ, v)"
    and upd: "update_schedules (\<lambda>r. s_id r = s_id c) (advance_schedule now nxt) v = (Inr hits, t)"
  have "raw_job = map_option (\<lambda>i. uint (job_id_get i)) (tk_job_id tick)"
    using raw by (cases "tk_job_id tick") (auto simp: opt_try_Inr_iff to_signed_def split: if_splits)
  note r = latest_due_slot_Inr [OF sl iv(2)]
  note occ = insert_occurrence_rows [OF ins] and rows = update_schedules_rows [OF upd]
  from out have same: "schedules u = schedules s" "occurrences u = occurrences s"
    by (cases rule: materialize_outcome_cases; simp)+
  have k: "keyed s_id (schedules s)" using inv by (simp add: schedules_inv_def)
  have "filter (\<lambda>r. s_id r = s_id c) (schedules s) = [c]"
    by (rule filter_keyed_hit [OF k, where x = "s_id c"]) (use c(2) in simp_all)
  then have "update_where (\<lambda>r. s_id r = s_id c) (advance_schedule now nxt) (schedules s) =
      put_row s_id (advance_schedule now nxt c) (schedules s)"
    by (intro update_where_put_row k) (simp_all add: advance_schedule_def)
  moreover have "s_next_run_at c < s_next_run_at r \<or> s_next_run_at c = s_next_run_at r \<and> s_id c \<le> s_id r"
    if "r \<in> set (schedules s)" "s_enabled r" "s_next_run_at r \<le> as_of" "\<not> locked (s_id r)" for r
    using first_by_least [OF c(1), of r] that by (auto simp: due_def due_key_def)
  ultimately show ?thesis
    using \<open>raw_job = _\<close> c(2-4) iv(1) r(3,4,7,8) occ rows same materialized_schedule [OF run c(1)]
    by (intro bexI [of _ c] exI [of _ occ] exI [of _ interval] exI [of _ nxt])
      (simp_all add: occurrence_of_def due_def advance_schedule_def)
qed

theorem materialize_records_slot_witness:
  "\<exists>tick t occ nxt. ex_tick = (Inr (Some tick), t) \<and> occurrences t = [occ] \<and>
     o_scheduled_for occ \<le> seconds 150 \<and> seconds 150 < nxt \<and>
     schedules t = [ex_schedule\<lparr>s_next_run_at := nxt\<rparr>]"
proof -
  from ex_tick_made obtain tick t where run: "ex_tick = (Inr (Some tick), t)" by blast
  from materialize_records_slot [OF ex_schedules_db_inv run] obtain c occ nxt where
    "c \<in> set (schedules ex_schedules_db)" "occurrences t = occurrences ex_schedules_db @ [occ]"
    "o_scheduled_for occ = tk_scheduled_for tick" "tk_scheduled_for tick \<le> seconds 150" "seconds 150 < nxt"
    "schedules t = put_row s_id (c\<lparr>s_next_run_at := nxt, s_updated_at := 0\<rparr>) (schedules ex_schedules_db)"
    by blast
  with run show ?thesis
    by (intro exI [of _ tick] exI [of _ t] exI [of _ occ] exI [of _ nxt])
      (simp add: ex_schedules_db_def ex_db_def put_row_def ex_schedule_def)
qed

text \<open>What a materialised job takes from the inputs of its schedule.\<close>

definition input_columns ::
  "schedule_input_row \<Rightarrow> int \<times> ustring \<times> ustring \<times> ustring \<times> int \<times> int \<times> int \<times> u8 list option" where
  "input_columns r =
     (si_item_index r, si_storage_key r, si_display_name r, si_media_type r, si_byte_size r, si_width r,
      si_height r, si_checksum r)"

definition artifact_columns ::
  "artifact_row \<Rightarrow> int \<times> ustring \<times> ustring \<times> ustring \<times> int \<times> int \<times> int \<times> u8 list option" where
  "artifact_columns f =
     (f_item_index f, f_storage_key f, f_display_name f, f_media_type f, f_byte_size f, f_width f,
      f_height f, f_checksum f)"

lemma overlap_iff:
  "has_overlap i s \<longleftrightarrow>
     (\<exists>j \<in> set (jobs s). j_schedule_id j = Some i \<and> j_state j \<in> {Queued, Running, RetryWaiting, CancelRequested})"
  by (simp add: has_overlap_def list_ex_iff active_states_def)

text \<open>C16. The occurrence is skipped, without touching any job, exactly when a job of the schedule is still
  active (queued, running, waiting to be retried or being cancelled). Otherwise one queued image job is created, available
  at its slot, with the name, size and quality settings, priority and owner of the schedule, three attempts and as much to
  do as there are inputs, and every input of the schedule becomes one of its inputs, in order and with its checksum.\<close>

theorem materialize_creates_or_skips:
  assumes inv: "schedules_inv s"
    and run: "materialize_next_schedule_at locked rng now as_of s = (Inr (Some tick), t)"
  shows "\<exists>c \<in> set (schedules s). tk_schedule_id tick = ScheduleId (word_of_int (s_id c)) \<and>
     (if \<exists>j \<in> set (jobs s). j_schedule_id j = Some (s_id c) \<and> j_state j \<in> {Queued, Running, RetryWaiting, CancelRequested} then
        tk_outcome tick = SkippedOverlap \<and> tk_job_id tick = None \<and> jobs t = jobs s \<and> artifacts t = artifacts s
      else
        (\<exists>new copies inputs. inputs = filter (\<lambda>r. si_schedule r = s_id c) (schedule_inputs s) \<and>
           tk_outcome tick = Created \<and> tk_job_id tick = Some (JobId (word_of_int (j_id new))) \<and>
           j_id new = seqs s Jobs \<and> j_name new = s_name c \<and> j_type new = ImageResize \<and> j_state new = Queued \<and>
           j_available_at new = tk_scheduled_for tick \<and> j_priority new = s_priority c \<and> j_owner new = s_owner c \<and>
           j_max_width new = Some (s_max_width c) \<and> j_jpeg_quality new = Some (s_jpeg_quality c) \<and>
           j_progress_completed new = 0 \<and> j_progress_total new = int (length inputs) \<and> j_max_attempts new = 3 \<and>
           j_schedule_id new = Some (s_id c) \<and> j_scheduled_for new = Some (tk_scheduled_for tick) \<and>
           j_created_at new = now \<and> j_retry_of new = None \<and> j_cancel_requested_at new = None \<and>
           j_started_at new = None \<and> j_finished_at new = None \<and> j_result_message new = None \<and> j_failure_message new = None \<and>
           jobs t = jobs s @ [new] \<and> artifacts t = artifacts s @ copies \<and>
           List.map artifact_columns copies = List.map input_columns (sort_key si_item_index inputs) \<and>
           (\<forall>f \<in> set copies. f_job f = j_id new \<and> f_kind f = Input \<and> f_attempt f = None \<and> f_source f = None)))"
  using inv run
proof (rule materialize_Some)
  fix c interval nxt count raw_job reason u occ v hits
  assume c: "c \<in> set (schedules s)"
      "first_by due_key (filter (\<lambda>r. due as_of r \<and> \<not> locked (s_id r)) (schedules s)) = Some c"
    and count: "int (length (filter (\<lambda>r. si_schedule r = s_id c) (schedule_inputs s))) = uint count"
    and out: "materialize_outcome now c (tk_scheduled_for tick) count s =
       (Inr (tk_outcome tick, tk_job_id tick, reason), u)"
    and ins: "insert_occurrence (occurrence_of now (s_id c) (tk_scheduled_for tick) (tk_outcome tick) raw_job
       reason (uint (tk_coalesced_slots tick))) u = (Inr occ, v)"
    and upd: "update_schedules (\<lambda>r. s_id r = s_id c) (advance_schedule now nxt) v = (Inr hits, t)"
  note id = materialized_schedule [OF run c(2)]
  have t: "jobs t = jobs u" "artifacts t = artifacts u"
    using insert_occurrence_rows [OF ins] update_schedules_rows [OF upd] by simp_all
  from out show ?thesis
  proof (cases rule: materialize_outcome_cases)
    case overlap
    with t c id show ?thesis by (intro bexI [of _ c]) (simp_all add: overlap_iff)
  next
    case (made w new i copies)
    have "List.map artifact_columns copies =
        List.map input_columns (sort_key si_item_index (filter (\<lambda>r. si_schedule r = s_id c) (schedule_inputs s)))"
      by (rule made_from_map [OF made(10)])
        (simp add: artifact_columns_def input_columns_def scheduled_input_def)
    moreover have "\<forall>f \<in> set copies. f_job f = j_id new \<and> f_kind f = Input \<and> f_attempt f = None \<and> f_source f = None"
      by (rule made_from_all [OF made(10)]) (simp add: scheduled_input_def)
    moreover have "i = JobId (word_of_int (j_id new))" using made(5) by (simp add: decode_job_id_Inr_iff)
    ultimately show ?thesis
      using made t c id count
      by (intro bexI [of _ c]) (simp_all add: overlap_iff scheduled_job_def default_job_def)
  qed
qed

theorem materialize_creates_or_skips_witness:
  "\<exists>tick t new. ex_tick = (Inr (Some tick), t) \<and> tk_outcome tick = Created \<and>
     jobs t = jobs ex_schedules_db @ [new] \<and> j_schedule_id new = Some 1 \<and> j_priority new = Low \<and>
     j_max_width new = Some 800"
proof -
  from ex_tick_made obtain tick t where run: "ex_tick = (Inr (Some tick), t)" by blast
  from materialize_creates_or_skips [OF ex_schedules_db_inv run] obtain c where c: "c \<in> set (schedules ex_schedules_db)"
    and made: "\<not> (\<exists>j \<in> set (jobs ex_schedules_db). j_schedule_id j = Some (s_id c) \<and>
        j_state j \<in> {Queued, Running, RetryWaiting, CancelRequested}) \<Longrightarrow>
      \<exists>new. tk_outcome tick = Created \<and> jobs t = jobs ex_schedules_db @ [new] \<and> j_schedule_id new = Some (s_id c) \<and>
        j_priority new = s_priority c \<and> j_max_width new = Some (s_max_width c)"
    by (elim bexE conjE) (rule that, assumption, auto split: if_splits)
  have "c = ex_schedule" using c by (simp add: ex_schedules_db_def)
  with made have "\<exists>new. tk_outcome tick = Created \<and> jobs t = jobs ex_schedules_db @ [new] \<and>
      j_schedule_id new = Some 1 \<and> j_priority new = Low \<and> j_max_width new = Some 800"
    by (simp add: ex_schedule_def ex_schedules_db_def ex_db_def default_job_def)
  with run show ?thesis by blast
qed

end
