(* ===== verification/Accounts.thy ===== *)
theory Accounts
  imports ScheduleInv
begin

text \<open>
  Users and sessions (\<open>crates/adapters/src/auth_repository.rs\<close>). A session is found by the digest of
  its token, and is active while it is neither revoked nor expired and its user is active; configuring
  the owner with new credentials revokes the owner's sessions. The random session identifier is an
  argument.
\<close>

definition min_session_ttl :: duration where
  "min_session_ttl = from_secs (5 * 60)"

definition max_session_ttl :: duration where
  "max_session_ttl = from_secs (7 * 24 * 60 * 60)"

record user_credentials =
  uc_id :: user_id
  uc_username :: ustring
  uc_password_hash :: ustring

record session_record =
  sn_id :: uuid
  sn_user_id :: user_id
  sn_username :: ustring
  sn_csrf_token_hash :: "u8 list"
  sn_expires_at :: timestamp

record session_sql_row =
  xr_id :: uuid
  xr_user_id :: int
  xr_username :: ustring
  xr_csrf_token_hash :: "u8 list"
  xr_expires_at :: timestamp

definition username_message :: string where
  "username_message = ''username must contain 3-32 lowercase letters, digits, hyphens, or underscores''"

definition username_characters :: "ustring \<Rightarrow> bool" where
  "username_characters username =
     list_all (\<lambda>(index, c). is_ascii_lowercase c \<or> is_ascii_digit c \<or> index > 0 \<and> (c = 95 \<or> c = 45))
       (enumerate 0 username)"

definition validate_username :: "ustring \<Rightarrow> repository_error + unit" where
  "validate_username username =
     (if \<not> (3 \<le> byte_len username \<and> byte_len username \<le> 32) \<or> \<not> username_characters username
      then Inl (InvalidData username_message) else Inr ())"

definition validate_digest :: "u8 list \<Rightarrow> string \<Rightarrow> repository_error + unit" where
  "validate_digest value label =
     (if length value = 32 then Inr ()
      else Inl (InvalidData (label @ '' hash must contain 32 bytes'')))"

definition credentials_try_from :: "user_row \<Rightarrow> repository_error + user_credentials" where
  "credentials_try_from row =
     try_bind (user_id_new (u_id row)) (\<lambda>i.
     Inr \<lparr>uc_id = i, uc_username = u_username row, uc_password_hash = u_password_hash row\<rparr>)"

definition session_try_from :: "session_sql_row \<Rightarrow> repository_error + session_record" where
  "session_try_from row =
     try_bind (validate_digest (xr_csrf_token_hash row) ''CSRF token'') (\<lambda>_.
     try_bind (user_id_new (xr_user_id row)) (\<lambda>i.
     Inr \<lparr>sn_id = xr_id row, sn_user_id = i, sn_username = xr_username row,
          sn_csrf_token_hash = xr_csrf_token_hash row, sn_expires_at = xr_expires_at row\<rparr>))"

section \<open>Users\<close>

definition user_credentials_by_id :: "user_id \<Rightarrow> user_credentials option tx" where
  "user_credentials_by_id i =
     (\<lambda>s. (opt_try credentials_try_from
             (fetch_optional (filter (\<lambda>u. u_id u = user_id_get i \<and> u_is_active u) (users s))), s))"

definition owner_credentials :: "user_credentials tx" where
  "owner_credentials =
     tx_bind (user_credentials_by_id owner_user_id) (\<lambda>found.
     tx_ok_or (InvalidData ''bootstrap owner is missing'') found)"

definition user_credentials_by_username :: "ustring \<Rightarrow> user_credentials option tx" where
  "user_credentials_by_username username =
     (\<lambda>s. (opt_try credentials_try_from
             (fetch_optional (filter (\<lambda>u. u_username u = username \<and> u_is_active u) (users s))), s))"

definition configured_owner :: "timestamp \<Rightarrow> ustring \<Rightarrow> ustring \<Rightarrow> user_row \<Rightarrow> user_row" where
  "configured_owner now username password_hash u =
     u\<lparr>u_username := username, u_password_hash := password_hash, u_updated_at := now\<rparr>"

definition revoke :: "timestamp \<Rightarrow> session_row \<Rightarrow> session_row" where
  "revoke now x = x\<lparr>x_revoked_at := (case x_revoked_at x of None \<Rightarrow> Some now | Some t \<Rightarrow> Some t)\<rparr>"

text \<open>The unique constraint of \<open>users.username\<close> is checked by the update.\<close>

definition configure_owner_body :: "timestamp \<Rightarrow> ustring \<Rightarrow> ustring \<Rightarrow> user_row tx" where
  "configure_owner_body now username password_hash =
     tx_bind (tx_select (\<lambda>s. fetch_optional (filter (\<lambda>u. u_id u = user_id_get owner_user_id) (users s)))) (\<lambda>row.
     tx_bind (tx_ok_or (InvalidData ''bootstrap owner is missing'') row) (\<lambda>previous.
     tx_bind (tx_select (\<lambda>s. list_ex (\<lambda>u. u_id u \<noteq> user_id_get owner_user_id \<and> u_username u = username) (users s))) (\<lambda>taken.
     tx_bind (tx_guard (\<not> taken) (Database UniqueViolation)) (\<lambda>_.
     tx_bind (update_users (\<lambda>u. u_id u = user_id_get owner_user_id) (configured_owner now username password_hash)) (\<lambda>updated.
     tx_bind (tx_lift (fetch_one updated)) (\<lambda>updated.
     tx_bind (if u_username previous \<noteq> username \<or> u_password_hash previous \<noteq> password_hash
              then tx_bind (update_sessions (\<lambda>x. x_user x = user_id_get owner_user_id \<and> x_revoked_at x = None)
                              (revoke now)) (\<lambda>_. tx_return ())
              else tx_return ()) (\<lambda>_.
     tx_return updated)))))))"

definition configure_owner :: "timestamp \<Rightarrow> ustring \<Rightarrow> ustring \<Rightarrow> user_credentials tx" where
  "configure_owner now username password_hash =
     tx_bind (tx_lift (validate_username username)) (\<lambda>_.
     tx_bind (tx_guard (password_hash \<noteq> [] \<and> byte_len password_hash \<le> 512)
                (InvalidData ''password hash length is invalid'')) (\<lambda>_.
     tx_bind (transaction (configure_owner_body now username password_hash)) (\<lambda>updated.
     tx_lift (credentials_try_from updated))))"

section \<open>Sessions\<close>

definition new_session ::
  "timestamp \<Rightarrow> uuid \<Rightarrow> user_row \<Rightarrow> u8 list \<Rightarrow> u8 list \<Rightarrow> int \<Rightarrow> session_row" where
  "new_session now i account token_hash csrf_hash ttl_seconds =
     \<lparr>x_id = i, x_user = u_id account, x_token_hash = token_hash, x_csrf_hash = csrf_hash,
      x_created_at = now, x_last_seen_at = now, x_expires_at = now + seconds ttl_seconds,
      x_revoked_at = None\<rparr>"

definition select_session :: "user_row \<Rightarrow> session_row \<Rightarrow> session_sql_row" where
  "select_session account x =
     \<lparr>xr_id = x_id x, xr_user_id = x_user x, xr_username = u_username account,
      xr_csrf_token_hash = x_csrf_hash x, xr_expires_at = x_expires_at x\<rparr>"

definition create_session ::
  "timestamp \<Rightarrow> uuid \<Rightarrow> user_id \<Rightarrow> u8 list \<Rightarrow> u8 list \<Rightarrow> duration \<Rightarrow> session_record tx" where
  "create_session now session_id user token_hash csrf_hash ttl =
     tx_bind (tx_lift (validate_digest token_hash ''session token'')) (\<lambda>_.
     tx_bind (tx_lift (validate_digest csrf_hash ''CSRF token'')) (\<lambda>_.
     tx_bind (tx_guard (min_session_ttl \<le> ttl \<and> ttl \<le> max_session_ttl \<and> subsec_nanos ttl = 0)
                (InvalidData ''session TTL must be a whole number of seconds between 300 and 604800'')) (\<lambda>_.
     tx_bind (tx_ok_or (InvalidData ''session TTL exceeds BIGINT'') (to_signed i64_range (as_secs ttl))) (\<lambda>ttl_seconds.
     tx_bind (tx_select (\<lambda>s. fetch_optional (filter (\<lambda>u. u_id u = user_id_get user \<and> u_is_active u) (users s)))) (\<lambda>account.
     tx_bind (tx_ok_or (StateConflict ''create session for inactive user'') account) (\<lambda>account.
     tx_bind (insert_session (new_session now session_id account token_hash csrf_hash ttl_seconds)) (\<lambda>row.
     tx_lift (session_try_from (select_session account row)))))))))"

text \<open>A session that may be used at a time: found by its token, with an active user.\<close>

definition session_user :: "db \<Rightarrow> session_row \<Rightarrow> user_row option" where
  "session_user s x = fetch_optional (filter (\<lambda>u. u_id u = x_user x \<and> u_is_active u) (users s))"

definition session_live :: "timestamp \<Rightarrow> session_row \<Rightarrow> bool" where
  "session_live now x \<longleftrightarrow> x_revoked_at x = None \<and> x_expires_at x > now"

definition active_session :: "timestamp \<Rightarrow> u8 list \<Rightarrow> session_record option tx" where
  "active_session now token_hash =
     tx_bind (tx_lift (validate_digest token_hash ''session token'')) (\<lambda>_.
     tx_bind (\<lambda>s. update_sessions
                (\<lambda>x. x_token_hash x = token_hash \<and> session_user s x \<noteq> None \<and> session_live now x)
                (\<lambda>x. x\<lparr>x_last_seen_at := now\<rparr>) s) (\<lambda>updated.
     (\<lambda>s. (opt_try (\<lambda>x. try_bind (ok_or (Database RowNotFound) (session_user s x)) (\<lambda>account.
                         session_try_from (select_session account x)))
             (fetch_optional updated), s))))"

definition revoke_session :: "timestamp \<Rightarrow> uuid \<Rightarrow> unit tx" where
  "revoke_session now session_id =
     tx_bind (update_sessions (\<lambda>x. x_id x = session_id) (revoke now)) (\<lambda>updated.
     tx_lift (ensure_one_row (length updated) ''revoke session''))"

definition rotate_session_csrf :: "timestamp \<Rightarrow> uuid \<Rightarrow> u8 list \<Rightarrow> unit tx" where
  "rotate_session_csrf now session_id csrf_hash =
     tx_bind (tx_lift (validate_digest csrf_hash ''CSRF token'')) (\<lambda>_.
     tx_bind (update_sessions (\<lambda>x. x_id x = session_id \<and> session_live now x)
                (\<lambda>x. x\<lparr>x_csrf_hash := csrf_hash, x_last_seen_at := now\<rparr>)) (\<lambda>updated.
     tx_lift (ensure_one_row (length updated) ''rotate session CSRF token'')))"

definition one_day :: int where
  "one_day = seconds (24 * 60 * 60)"

definition purge_expired_sessions :: "timestamp \<Rightarrow> nat tx" where
  "purge_expired_sessions now =
     tx_bind (sql_delete sessions set_sessions
                (\<lambda>x. x_expires_at x \<le> now \<or> (\<exists>t \<in> set_option (x_revoked_at x). t \<le> now - one_day))) (\<lambda>deleted.
     tx_return (length deleted))"

section \<open>The invariants\<close>

definition accounts_inv :: "db \<Rightarrow> bool" where
  "accounts_inv s \<longleftrightarrow>
     keyed u_id (users s) \<and> (\<forall>u \<in> set (users s). user_ok u \<and> 0 < u_id u) \<and>
     keyed x_id (sessions s) \<and> keyed x_token_hash (sessions s) \<and>
     (\<forall>x \<in> set (sessions s). session_ok x \<and> x_user x \<in> u_id ` set (users s))"

lemma accounts_inv_frame:
  "accounts_inv s \<Longrightarrow> users t = users s \<Longrightarrow> sessions t = sessions s \<Longrightarrow> accounts_inv t"
  by (simp add: accounts_inv_def)

interpretation accounts: tx_invariant accounts_inv
  by unfold_locales (erule accounts_inv_frame; simp)

text \<open>The statements these operations use, on sessions and users.\<close>

lemma accounts_update_sessions:
  assumes "\<And>x. x_id (F x) = x_id x" "\<And>x. x_token_hash (F x) = x_token_hash x" "\<And>x. x_user (F x) = x_user x"
  shows "keeps accounts_inv (update_sessions P F)"
  unfolding update_sessions_def
proof (rule accounts.keeps_update)
  fix s hits t
  assume "accounts_inv s" and "sql_update session_ok sessions set_sessions P F s = (Inr hits, t)"
  with assms show "accounts_inv t"
    by (auto simp: sql_update_Inr_iff accounts_inv_def set_table_defs keyed_update_where
        set_update_where list_all_iff)
qed

lemma accounts_update_users:
  assumes "\<And>u. u_id (F u) = u_id u"
  shows "keeps accounts_inv (update_users P F)"
  unfolding update_users_def
proof (rule accounts.keeps_update)
  fix s hits t
  assume inv: "accounts_inv s" and upd: "sql_update user_ok users set_users P F s = (Inr hits, t)"
  have "List.map u_id (users t) = List.map u_id (users s)"
    using upd assms by (simp add: sql_update_Inr_iff set_table_defs update_where_key)
  then have "u_id ` set (users t) = u_id ` set (users s)" by (metis list.set_map)
  with inv upd assms show "accounts_inv t"
    by (auto simp: sql_update_Inr_iff accounts_inv_def set_table_defs keyed_update_where
        set_update_where list_all_iff)
qed

lemma insert_session_Inr:
  assumes "insert_session x s = (Inr r, t)"
  shows "r = x" and "session_ok x" and "\<forall>y \<in> set (sessions s). x_id y \<noteq> x_id x \<and> x_token_hash y \<noteq> x_token_hash x"
    and "x_user x \<in> u_id ` set (users s)" and "t = s\<lparr>sessions := sessions s @ [x]\<rparr>"
  using assms
  by (auto simp: insert_session_def sql_insert_keyed_Inr_iff set_table_defs session_insert_error_def
      refs_def split: if_splits)

lemma accounts_insert_session: "keeps accounts_inv (insert_session x)"
  unfolding keeps_def
proof (intro allI impI)
  fix s assume inv: "accounts_inv s"
  show "accounts_inv (snd (insert_session x s))"
  proof (cases "insert_session x s")
    case (Pair r t)
    show ?thesis
    proof (cases r)
      case (Inl e)
      with Pair have "t = s" by (auto simp: insert_session_def sql_insert_keyed_Inl_iff)
      with Pair inv show ?thesis by simp
    next
      case (Inr y)
      note i = insert_session_Inr [OF Pair [unfolded Inr]]
      from inv i Pair show ?thesis by (auto simp: accounts_inv_def keyed_append1)
    qed
  qed
qed

lemma accounts_delete_sessions: "keeps accounts_inv (sql_delete sessions set_sessions P)"
  by (auto simp: keeps_def sql_delete_def set_table_defs accounts_inv_def keyed_filter)

lemma configure_owner_advances: "advances (configure_owner_body now name hash)"
  unfolding configure_owner_body_def
  by (intro advances_rules; auto intro!: advances_rules)

lemma accounts_keep:
  "keeps accounts_inv (configure_owner now name hash)"
  "keeps accounts_inv (create_session now i user h c ttl)"
  "keeps accounts_inv (active_session now h)"
  "keeps accounts_inv (revoke_session now i)"
  "keeps accounts_inv (rotate_session_csrf now i h)"
  "keeps accounts_inv (purge_expired_sessions now)"
proof -
  have "keeps accounts_inv (configure_owner_body now name hash)"
    unfolding configure_owner_body_def
    by (auto intro!: keeps_bind accounts_update_users accounts_update_sessions
        simp: configured_owner_def revoke_def)
  then show "keeps accounts_inv (configure_owner now name hash)"
    unfolding configure_owner_def
    by (intro keeps_bind keeps_simple accounts.committed configure_owner_advances)
  show "keeps accounts_inv (active_session now h)"
    unfolding active_session_def
    by (intro keeps_bind keeps_simple, rule keeps_at, rule accounts_update_sessions) simp_all
qed (auto intro!: keeps_bind accounts_update_sessions accounts_insert_session accounts_delete_sessions
    simp: create_session_def revoke_session_def rotate_session_csrf_def purge_expired_sessions_def revoke_def)

end
