(* ===== verification/AccountProps.thy ===== *)
theory AccountProps
  imports Accounts
begin

text \<open>
  Properties of accounts: which user names are valid, which sessions authenticate, and what ends them.
\<close>

section \<open>User names\<close>

lemma byte_len_ascii: "\<forall>c \<in> set s. c < 128 \<Longrightarrow> byte_len s = length s"
  by (induction s) (simp_all add: byte_len_def utf8_width_def)

lemma username_characters_iff:
  "username_characters s \<longleftrightarrow>
     (\<forall>i < length s. is_ascii_lowercase (s ! i) \<or> is_ascii_digit (s ! i) \<or> i > 0 \<and> (s ! i = 95 \<or> s ! i = 45))"
  by (auto simp: username_characters_def list_all_iff in_set_enumerate_eq)

lemma validate_username_iff: "validate_username s = Inr () \<longleftrightarrow> username_pattern s"
proof (cases "username_characters s")
  case True
  then have "s ! i < 128" if "i < length s" for i
    using that unfolding username_characters_iff is_ascii_lowercase_def is_ascii_digit_def by fastforce
  then have "\<forall>c \<in> set s. c < 128" by (metis in_set_conv_nth)
  then have "byte_len s = length s" by (rule byte_len_ascii)
  with True show ?thesis
    by (auto simp: validate_username_def username_pattern_def username_characters_iff)
next
  case False
  then show ?thesis
    by (simp add: validate_username_def username_pattern_def) (simp add: username_characters_iff)
qed

section \<open>Sessions\<close>

lemma session_user_Some:
  assumes "accounts_inv s" and "u \<in> set (users s)" and "u_id u = x_user x" and "u_is_active u"
  shows "session_user s x = Some u"
  using fetch_optional_keyed [of u_id "users s" u u_is_active] assms
  by (simp add: session_user_def accounts_inv_def)

lemma session_user_iff:
  assumes "accounts_inv s"
  shows "session_user s x = Some u \<longleftrightarrow> u \<in> set (users s) \<and> u_id u = x_user x \<and> u_is_active u"
proof
  assume "session_user s x = Some u"
  then show "u \<in> set (users s) \<and> u_id u = x_user x \<and> u_is_active u"
    unfolding session_user_def by (drule_tac fetch_optional_filter_Some) simp
qed (use session_user_Some [OF assms] in blast)

definition authenticates :: "timestamp \<Rightarrow> u8 list \<Rightarrow> db \<Rightarrow> session_row \<Rightarrow> bool" where
  "authenticates now h s x \<longleftrightarrow> x_token_hash x = h \<and> session_user s x \<noteq> None \<and> session_live now x"

lemma active_session_statement:
  assumes "length h = 32"
  shows "active_session now h s =
     (case update_sessions (authenticates now h s) (\<lambda>x. x\<lparr>x_last_seen_at := now\<rparr>) s of
        (Inl e, t) \<Rightarrow> (Inl e, t)
      | (Inr hits, t) \<Rightarrow>
          (opt_try (\<lambda>x. try_bind (ok_or (Database RowNotFound) (session_user t x)) (\<lambda>account.
                         session_try_from (select_session account x))) (fetch_optional hits), t))"
  using assms
  by (simp add: active_session_def authenticates_def [abs_def] tx_bind_def tx_returns validate_digest_def)

text \<open>At most one session has a token, and the statement touches at most that row.\<close>

lemma active_session_run:
  assumes inv: "accounts_inv s" and len: "length h = 32"
  shows "active_session now h s =
     (case filter (authenticates now h s) (sessions s) of
        [] \<Rightarrow> (Inr None, s)
      | x # _ \<Rightarrow>
          if x_created_at x \<le> now then
            (Inr (Some \<lparr>sn_id = x_id x, sn_user_id = UserId (x_user x),
                        sn_username = u_username (the (session_user s x)),
                        sn_csrf_token_hash = x_csrf_hash x, sn_expires_at = x_expires_at x\<rparr>),
             s\<lparr>sessions := put_row x_id (x\<lparr>x_last_seen_at := now\<rparr>) (sessions s)\<rparr>)
          else (Inl (Database RowRejected), s))"
proof -
  have k: "keyed x_token_hash (sessions s)" "keyed x_id (sessions s)" using inv by (simp_all add: accounts_inv_def)
  define F :: "session_row \<Rightarrow> session_row" where "F = (\<lambda>x. x\<lparr>x_last_seen_at := now\<rparr>)"
  from k(1) show ?thesis
  proof (rule filter_keyed_cases [where P = "authenticates now h s" and x = h])
    show "authenticates now h s x \<Longrightarrow> x_token_hash x = h" for x by (simp add: authenticates_def)
  next
    assume none: "filter (authenticates now h s) (sessions s) = []"
    then have "update_sessions (authenticates now h s) F s = (Inr [], s)"
      by (simp add: update_sessions_def sql_update_def Let_def update_where_none set_table_defs filter_empty_conv)
    with none len show ?thesis
      by (simp add: active_session_statement F_def)
  next
    fix x assume x: "x \<in> set (sessions s)" "authenticates now h s x"
      and one: "filter (authenticates now h s) (sessions s) = [x]"
    from x inv obtain u where u: "session_user s x = Some u" "u_id u = x_user x" "0 < u_id u"
      and ok: "session_ok x"
      by (auto simp: authenticates_def session_user_iff accounts_inv_def)
    have okF: "session_ok (F x) \<longleftrightarrow> x_created_at x \<le> now" using ok by (simp add: session_ok_def F_def)
    have upd: "update_where (authenticates now h s) F (sessions s) = put_row x_id (F x) (sessions s)"
      by (rule update_where_put_row [OF k(2) one]) (simp add: F_def)
    have run: "update_sessions (authenticates now h s) F s =
       (if x_created_at x \<le> now
        then (Inr [F x], s\<lparr>sessions := put_row x_id (F x) (sessions s)\<rparr>)
        else (Inl (Database RowRejected), s))"
      by (simp add: update_sessions_def sql_update_def Let_def one okF upd set_table_defs)
    have su: "session_user (s\<lparr>sessions := q\<rparr>) (F x) = Some u" for q
      using u(1) by (simp add: session_user_def F_def)
    have csrf: "length (x_csrf_hash x) = 32" using ok by (simp add: session_ok_def)
    show ?thesis
      using run su u one len csrf
      by (simp add: active_session_statement F_def session_try_from_def select_session_def
          user_id_new_def validate_digest_def)
  qed
qed

lemma active_session_Some:
  assumes inv: "accounts_inv s" and run: "active_session now h s = (Inr (Some rec), t)"
  obtains x where "x \<in> set (sessions s)" and "authenticates now h s x" and "sn_user_id rec = UserId (x_user x)"
proof -
  from run have len: "length h = 32"
    by (auto simp: active_session_def tx_bind_Inr_iff tx_returns validate_digest_def split: if_splits)
  from run active_session_run [OF inv len] obtain x xs where
    "filter (authenticates now h s) (sessions s) = x # xs" "sn_user_id rec = UserId (x_user x)"
    by (auto split: list.splits if_splits)
  then show thesis using that by (metis filter_eq_ConsD in_set_conv_decomp)
qed

section \<open>An example\<close>

definition ex_session :: "uuid \<Rightarrow> int \<Rightarrow> u8 \<Rightarrow> session_row" where
  "ex_session i user b = \<lparr>x_id = i, x_user = user, x_token_hash = replicate 32 b, x_csrf_hash = replicate 32 0,
     x_created_at = 0, x_last_seen_at = 0, x_expires_at = seconds 1000, x_revoked_at = None\<rparr>"

definition ex_accounts_db :: db where
  "ex_accounts_db = ex_db\<lparr>users := [ex_user, ex_user\<lparr>u_id := 2, u_username := lit ''second''\<rparr>],
     sessions := [ex_session 5 1 1, ex_session 6 2 2]\<rparr>"

lemmas [evaluate] =
  ex_session_def ex_accounts_db_def user_ok_def session_ok_def validate_username_iff [symmetric]
  is_ascii_lowercase_def is_ascii_digit_def session_user_def session_live_def
  session_insert_error_def session_try_from_def select_session_def user_id_new_def
  validate_digest_def user_id_get.simps

lemmas [evaluate] =
  create_session_def new_session_def min_session_ttl_def max_session_ttl_def from_secs_def subsec_nanos_def
  revoke_session_def revoke_def configure_owner_def configure_owner_body_def configured_owner_def
  validate_username_def username_characters_def byte_len_def utf8_width_def owner_user_id_def
  credentials_try_from_def active_session_def

lemma ex_accounts_db_inv: "accounts_inv ex_accounts_db"
  by (simp add: evaluate accounts_inv_def)

section \<open>Beginning and ending a session\<close>

text \<open>Logging in works: the session created for an active user is the one its token finds, with the
  same record, until it expires.\<close>

lemma created_session_authenticates:
  assumes inv: "accounts_inv s" and run: "create_session now i user h c ttl s = (Inr rec, t)"
    and time: "now \<le> later" "later < sn_expires_at rec"
  shows "\<exists>u. active_session later h t = (Inr (Some rec), u) \<and> sn_id rec = i \<and> sn_user_id rec = user \<and>
     sn_expires_at rec = now + int ttl"
proof -
  from run obtain account r where
    len: "length h = 32" "length c = 32" and sub: "subsec_nanos ttl = 0"
    and account: "fetch_optional (filter (\<lambda>u. u_id u = user_id_get user \<and> u_is_active u) (users s)) = Some account"
    and ins: "insert_session (new_session now i account h c (as_secs ttl)) s = (Inr r, t)"
    and rec: "session_try_from (select_session account r) = Inr rec"
    by (auto simp: create_session_def tx_bind_Inr_iff tx_returns validate_digest_def split: if_splits)
  note r = insert_session_Inr [OF ins]
  have u: "account \<in> set (users s)" "u_id account = user_id_get user" "u_is_active account"
    using fetch_optional_filter_Some [OF account] by simp_all
  have inv': "accounts_inv t"
    using keepsD [where I = accounts_inv, OF accounts_keep(2) inv run] .
  have row: "rec = \<lparr>sn_id = i, sn_user_id = UserId (u_id account), sn_username = u_username account,
      sn_csrf_token_hash = c, sn_expires_at = now + seconds (as_secs ttl)\<rparr>"
    using rec r(1) len(2)
    by (auto simp: session_try_from_def select_session_def new_session_def validate_digest_def
        user_id_new_def split: if_splits)
  have live: "authenticates later h t r" and su: "session_user t r = Some account"
    using r u time row session_user_Some [OF inv, of account r]
    by (simp_all add: authenticates_def session_user_def session_live_def new_session_def)
  have "filter (authenticates later h t) (sessions t) = [r]"
    by (rule filter_keyed_hit [where k = x_token_hash and x = h])
      (use inv' live r in \<open>auto simp: accounts_inv_def authenticates_def\<close>)
  moreover have "user = UserId (u_id account)" using u(2) by (cases user) simp
  moreover have "seconds (as_secs ttl) = int ttl"
  proof -
    have "ttl mod 1000000000 = 0" using sub by (simp add: subsec_nanos_def)
    then have "ttl div 1000000000 * 1000000000 = ttl" by (metis add.right_neutral div_mult_mod_eq)
    then show ?thesis unfolding seconds_def as_secs_def by (metis of_nat_mult of_nat_numeral)
  qed
  ultimately show ?thesis
    using active_session_run [OF inv' len(1), of later] su r(1) row time(1)
    by (auto simp: new_session_def)
qed

text \<open>Logging out is final: a revoked session never authenticates again, at any time.\<close>

lemma revoked_session_is_dead:
  assumes inv: "accounts_inv s" and x: "x \<in> set (sessions s)"
    and run: "revoke_session now (x_id x) s = (Inr (), t)"
  shows "active_session later (x_token_hash x) t = (Inr None, t)"
proof -
  have inv': "accounts_inv t" using keepsD [where I = accounts_inv, OF accounts_keep(4) inv run] .
  from run obtain hits where
    "update_sessions (\<lambda>y. x_id y = x_id x) (revoke now) s = (Inr hits, t)"
    by (auto simp: revoke_session_def tx_bind_Inr_iff tx_returns)
  then have ses: "sessions t = update_where (\<lambda>y. x_id y = x_id x) (revoke now) (sessions s)"
    by (simp add: update_sessions_def sql_update_Inr_iff set_table_defs)
  have "\<not> authenticates later (x_token_hash x) t y" if y: "y \<in> set (sessions t)" for y
  proof
    assume a: "authenticates later (x_token_hash x) t y"
    from y ses obtain z where z: "z \<in> set (sessions s)" "y = (if x_id z = x_id x then revoke now z else z)"
      by (auto simp: set_update_where)
    with a have "x_token_hash z = x_token_hash x"
      by (auto simp: authenticates_def revoke_def split: if_splits)
    with inv x z(1) have "z = x" by (auto simp: accounts_inv_def dest: keyed_unique)
    with z(2) a show False
      by (auto simp: authenticates_def session_live_def revoke_def split: option.splits)
  qed
  moreover have "length (x_token_hash x) = 32" using inv x by (auto simp: accounts_inv_def session_ok_def)
  ultimately show ?thesis
    using active_session_run [OF inv'] by (simp add: filter_empty_conv)
qed

text \<open>C21. Configuring the owner with another name or password ends every session of the owner: no token
  authenticates as the owner afterwards, until a new session is created.\<close>

theorem new_credentials_end_sessions:
  assumes inv: "accounts_inv s" and run: "configure_owner now name hash s = (Inr c, t)"
    and u: "u \<in> set (users s)" "u_id u = 1" "u_username u \<noteq> name \<or> u_password_hash u \<noteq> hash"
    and active: "active_session later h t = (Inr (Some rec), v)"
  shows "sn_user_id rec \<noteq> owner_user_id"
proof
  assume owner: "sn_user_id rec = owner_user_id"
  have inv': "accounts_inv t" using keepsD [where I = accounts_inv, OF accounts_keep(1) inv run] .
  have "fetch_optional (filter (\<lambda>u. u_id u = 1) (users s)) = Some u"
    using fetch_optional_keyed [of u_id "users s" u "\<lambda>_. True"] inv u by (simp add: accounts_inv_def)
  with run u(3) obtain hits w where
    "update_sessions (\<lambda>x. x_user x = 1 \<and> x_revoked_at x = None) (revoke now) w = (Inr hits, t)"
    by (auto simp: configure_owner_def configure_owner_body_def tx_bind_Inr_iff tx_returns
        transaction_Inr_iff owner_user_id_def split: if_splits)
  then have "\<forall>x \<in> set (sessions t). x_user x = 1 \<longrightarrow> x_revoked_at x \<noteq> None"
    by (auto simp: update_sessions_def sql_update_Inr_iff set_table_defs set_update_where revoke_def
        split: if_splits option.splits)
  moreover obtain x where "x \<in> set (sessions t)" "authenticates later h t x"
      "sn_user_id rec = UserId (x_user x)"
    using active_session_Some [OF inv' active] .
  ultimately show False
    using owner by (auto simp: authenticates_def session_live_def owner_user_id_def)
qed

theorem new_credentials_end_sessions_witness:
  "\<exists>c t rec v. configure_owner 3 (lit ''boss'') (lit ''new'') ex_accounts_db = (Inr c, t) \<and>
     active_session 4 (replicate 32 2) t = (Inr (Some rec), v) \<and> sn_user_id rec \<noteq> owner_user_id"
proof -
  let ?run = "configure_owner 3 (lit ''boss'') (lit ''new'') ex_accounts_db"
  have "case ?run of (Inr c, t) \<Rightarrow>
      (case fst (active_session 4 (replicate 32 2) t) of Inr (Some _) \<Rightarrow> True | _ \<Rightarrow> False) | _ \<Rightarrow> False"
    by (simp add: evaluate Let_def)
  then obtain c t rec v where run: "?run = (Inr c, t)"
    and act: "active_session 4 (replicate 32 2) t = (Inr (Some rec), v)"
    by (auto split: prod.splits sum.splits option.splits simp: fst_def)
  have u: "ex_user \<in> set (users ex_accounts_db)" "u_id ex_user = 1"
    "u_username ex_user \<noteq> lit ''boss'' \<or> u_password_hash ex_user \<noteq> lit ''new''"
    by (simp_all add: ex_user_def ex_accounts_db_def lit_def)
  from new_credentials_end_sessions [OF ex_accounts_db_inv run u act] run act show ?thesis by blast
qed

end
