(* ===== verification/Maintenance.thy ===== *)
theory Maintenance
  imports ScheduleInv
begin

text \<open>
  Queries and retention (\<open>crates/adapters/src/maintenance_repository.rs\<close>): the number of active jobs of
  an owner, the depth and oldest wait of the queue, the storage keys the database refers to, the output
  directories of running attempts, and the expiry of the outputs of finished jobs.
\<close>

record queue_metrics_record =
  qm_depth :: u64
  qm_oldest_wait_ms :: u64

definition count_rows :: "'r list \<Rightarrow> int" where
  "count_rows rs = int (length rs)"

definition active_job_count_for_owner :: "user_id \<Rightarrow> u64 tx" where
  "active_job_count_for_owner owner =
     tx_bind (tx_select (\<lambda>s. count_rows (filter (\<lambda>j. j_owner j = user_id_get owner \<and>
                                                j_state j \<in> active_states) (jobs s)))) (\<lambda>count.
     tx_ok_or (InvalidData ''active job count is negative'') (to_word count))"

text \<open>
  \<open>COALESCE(EXTRACT(EPOCH FROM (CURRENT_TIMESTAMP - MIN(available_at))) * 1000, 0)::BIGINT\<close>: the
  conversion rounds to the nearest millisecond, halves up (the wait of an available job is not negative).
\<close>

definition oldest_wait_ms :: "timestamp \<Rightarrow> timestamp list \<Rightarrow> int" where
  "oldest_wait_ms now ts = (if ts = [] then 0 else (now - Min (set ts) + 500000) div 1000000)"

definition queue_metrics :: "timestamp \<Rightarrow> queue_metrics_record tx" where
  "queue_metrics now =
     tx_bind (tx_select (\<lambda>s. filter (claimable_at now) (jobs s))) (\<lambda>waiting.
     tx_bind (tx_ok_or (InvalidData ''queue depth is negative'') (to_word (count_rows waiting))) (\<lambda>depth.
     tx_bind (tx_ok_or (InvalidData ''oldest queue wait is negative'')
                (to_word (oldest_wait_ms now (List.map j_available_at waiting)))) (\<lambda>wait.
     tx_return \<lparr>qm_depth = depth, qm_oldest_wait_ms = wait\<rparr>)))"

definition storage_references :: "ustring set tx" where
  "storage_references =
     tx_select (\<lambda>s. f_storage_key ` set (artifacts s) \<union> si_storage_key ` set (schedule_inputs s))"

definition show_int :: "int \<Rightarrow> string" where
  "show_int i = (if i < 0 then ''-'' @ show_nat (nat (- i)) else show_nat (nat i))"

definition attempt_prefix :: "u64 \<Rightarrow> int \<Rightarrow> ustring" where
  "attempt_prefix job attempt =
     lit (''outputs/job-'' @ show_nat (unat job) @ ''/attempt-'' @ show_int attempt)"

definition active_attempt_output_prefixes :: "ustring list tx" where
  "active_attempt_output_prefixes =
     (\<lambda>s. (collect_results (\<lambda>a.
             try_bind (ok_or (InvalidData ''active attempt has an invalid job ID'') (to_word (a_job a))) (\<lambda>job.
             Inr (attempt_prefix job (a_id a))))
           (filter (\<lambda>a. a_state a = ARunning) (attempts s)), s))"

section \<open>Expiry of outputs\<close>

definition finished_before :: "timestamp \<Rightarrow> job_row \<Rightarrow> bool" where
  "finished_before t j \<longleftrightarrow>
     j_state j \<in> terminal_states \<and> (\<exists>f \<in> set_option (j_finished_at j). f \<le> t)"

definition expirable :: "db \<Rightarrow> timestamp \<Rightarrow> artifact_row \<Rightarrow> bool" where
  "expirable s t f \<longleftrightarrow>
     f_kind f = Output \<and> list_ex (\<lambda>j. j_id j = f_job f \<and> finished_before t j) (jobs s)"

definition delete_artifacts :: "(artifact_row \<Rightarrow> bool) \<Rightarrow> artifact_row list tx" where
  "delete_artifacts P = sql_delete artifacts set_artifacts P"

definition mark_expired :: "timestamp \<Rightarrow> job_row \<Rightarrow> job_row" where
  "mark_expired now j = j\<lparr>j_outputs_expired_at := Some now\<rparr>"

definition expire_body :: "timestamp \<Rightarrow> int \<Rightarrow> ustring list tx" where
  "expire_body now retention_seconds =
     tx_bind (\<lambda>s. delete_artifacts (expirable s (now - seconds retention_seconds)) s) (\<lambda>deleted.
     tx_bind (update_jobs (\<lambda>j. finished_before (now - seconds retention_seconds) j \<and>
                               j_outputs_expired_at j = None) (mark_expired now)) (\<lambda>_.
     tx_return (List.map f_storage_key deleted)))"

definition expire_output_artifacts :: "timestamp \<Rightarrow> duration \<Rightarrow> ustring list tx" where
  "expire_output_artifacts now retention =
     tx_bind (tx_ok_or (InvalidData ''output retention exceeds BIGINT'') (to_signed i64_range (as_secs retention)))
       (\<lambda>retention_seconds. transaction (expire_body now retention_seconds))"

section \<open>The invariants\<close>

lemma maintenance_queries:
  "keeps I (active_job_count_for_owner owner)" "keeps I (queue_metrics now)"
  "keeps I storage_references" "keeps I active_attempt_output_prefixes"
  unfolding active_job_count_for_owner_def queue_metrics_def storage_references_def
    active_attempt_output_prefixes_def
  by (auto intro!: keeps_bind)

text \<open>Rewriting many jobs without touching what the invariant speaks of.\<close>

lemma queue_inv_map_jobs:
  assumes inv: "queue_inv s"
    and t: "jobs t = List.map f (jobs s)" "attempts t = attempts s" "seqs t = seqs s"
    and f: "\<And>j. j_id (f j) = j_id j"
      "\<And>j. j \<in> set (jobs s) \<Longrightarrow> job_inv j (attempts_of s (j_id j)) \<Longrightarrow> job_inv (f j) (attempts_of s (j_id j))"
  shows "queue_inv t"
proof -
  have ids: "List.map j_id (jobs t) = List.map j_id (jobs s)" using t(1) f(1) by simp
  then have "j_id ` set (jobs t) = j_id ` set (jobs s)" by (metis list.set_map)
  moreover have "attempts_of t i = attempts_of s i" for i by (simp add: attempts_of_def t(2))
  ultimately show ?thesis
    using inv t f ids by (auto simp: queue_inv_def tables_inv_def keyed_def o_def)
qed

lemma expire_advances: "advances (expire_body now n)"
  unfolding expire_body_def
  by (intro advances_rules) (simp_all add: advances_def delete_artifacts_def sql_delete_def)

lemma delete_artifacts_run:
  "delete_artifacts P s = (r, t) \<longleftrightarrow>
     r = Inr (filter P (artifacts s)) \<and> t = s\<lparr>artifacts := filter (\<lambda>f. \<not> P f) (artifacts s)\<rparr>"
  by (auto simp: delete_artifacts_def sql_delete_def set_table_defs)

lemma expire_body_Inr:
  assumes "expire_body now n s = (Inr keys, t)"
  shows "keys = List.map f_storage_key (filter (expirable s (now - seconds n)) (artifacts s))"
    and "artifacts t = filter (\<lambda>f. \<not> expirable s (now - seconds n) f) (artifacts s)"
    and "jobs t = update_where (\<lambda>j. finished_before (now - seconds n) j \<and> j_outputs_expired_at j = None)
           (mark_expired now) (jobs s)"
    and "attempts t = attempts s" and "schedules t = schedules s" and "schedule_inputs t = schedule_inputs s"
    and "workers t = workers s" and "seqs t = seqs s"
    and "\<forall>j \<in> set (jobs s). finished_before (now - seconds n) j \<and> j_outputs_expired_at j = None \<longrightarrow>
           job_ok (mark_expired now j)"
  using assms
  by (auto simp: expire_body_def tx_bind_Inr_iff tx_returns delete_artifacts_run update_jobs_def
      sql_update_Inr_iff set_table_defs list_all_iff)

lemma expire_keeps: "keeps queue_inv (expire_output_artifacts now retention)"
  unfolding expire_output_artifacts_def
proof (intro keeps_bind keeps_simple queue.keeps_transaction expire_advances, goal_cases)
  case (1 n s keys t)
  note e = expire_body_Inr [OF 1(2)]
  show ?case
  proof (rule queue_inv_map_jobs [OF 1(1) e(3) [unfolded update_where_def] e(4,8)], goal_cases)
    case (2 j)
    then show ?case
      using e(9) job_readable_frame [OF job_inv_readable [OF 2(2)], of "mark_expired now j"]
      by (auto intro!: job_inv_rewrite [OF 2(2)] simp: mark_expired_def)
  qed (simp add: mark_expired_def)
qed

lemma expire_scheds: "keeps schedules_inv (expire_output_artifacts now retention)"
  unfolding expire_output_artifacts_def
proof (intro keeps_bind keeps_simple scheds.keeps_transaction expire_advances, goal_cases)
  case (1 n s keys t)
  show ?case
    by (rule schedules_inv_frame [OF 1(1)]) (simp_all add: expire_body_Inr [OF 1(2)])
qed

lemma expire_history: "obeys evolves (expire_output_artifacts now retention)"
  unfolding expire_output_artifacts_def expire_body_def
proof (intro history_rules)
  fix n :: int
  show "obeys evolves (\<lambda>s. delete_artifacts (expirable s (now - seconds n)) s)"
    unfolding obeys_def delete_artifacts_def sql_delete_def
    by (auto intro: evolves_same_jobs_attempts simp: set_table_defs)
qed (simp add: job_step_def mark_expired_def)

end
