(* ===== verification/Storage.thy ===== *)
theory Storage
  imports Maintenance
begin

text \<open>
  Local storage (\<open>crates/adapters/src/storage.rs\<close>): storage keys and the paths they resolve to, the size
  of the stored files, and the removal of unreferenced ones. A directory is the list of its entries in
  the order \<open>read_dir\<close> yields them; a path is the list of its components below the root. The entries at
  which the file system reports an error are a parameter \<open>fails\<close>; removing a directory that was seen
  empty does not fail. Paths are Unix paths, and file names are text. The size of a symbolic link
  or special file does not count, and it is removed like a file.
\<close>

section \<open>Keys\<close>

datatype storage_error = Io | InvalidKey | Join | UsageOverflow

text \<open>\<open>Path::components\<close> on Unix: empty components and later \<open>.\<close> ones are dropped.\<close>

datatype component = RootDir | CurDir | ParentDir | NormalComponent ustring

fun split_slash :: "ustring \<Rightarrow> ustring list" where
  "split_slash [] = [[]]"
| "split_slash (c # cs) =
     (if c = 47 then [] # split_slash cs
      else case split_slash cs of [] \<Rightarrow> [[c]] | seg # segs \<Rightarrow> (c # seg) # segs)"

definition component_of :: "ustring \<Rightarrow> component list" where
  "component_of seg =
     (if seg = [] \<or> seg = lit ''.'' then [] else if seg = lit ''..'' then [ParentDir]
      else [NormalComponent seg])"

definition is_absolute :: "ustring \<Rightarrow> bool" where
  "is_absolute key \<longleftrightarrow> (case key of [] \<Rightarrow> False | c # _ \<Rightarrow> c = 47)"

definition components :: "ustring \<Rightarrow> component list" where
  "components key =
     (if is_absolute key then [RootDir]
      else if hd (split_slash key) = lit ''.'' then [CurDir] else []) @
     concat (List.map component_of (split_slash key))"

fun normal_component :: "component \<Rightarrow> ustring option" where
  "normal_component (NormalComponent seg) = Some seg"
| "normal_component _ = None"

text \<open>The path of a key below the root.\<close>

definition resolve_key :: "ustring \<Rightarrow> storage_error + ustring list" where
  "resolve_key key =
     (if key = [] \<or> 92 \<in> set key \<or> 58 \<in> set key \<or> is_absolute key \<or>
         list_ex (\<lambda>c. normal_component c = None) (components key)
      then Inl InvalidKey
      else Inr (List.map_filter normal_component (components key)))"

definition attempt_output_prefix :: "u64 \<Rightarrow> int \<Rightarrow> ustring" where
  "attempt_output_prefix job attempt =
     lit (''outputs/job-'' @ show_nat (unat job) @ ''/attempt-'' @ show_int attempt)"

definition output_key :: "u64 \<Rightarrow> int \<Rightarrow> u64 \<Rightarrow> ustring" where
  "output_key job attempt input =
     attempt_output_prefix job attempt @ lit (''/input-'' @ show_nat (unat input) @ ''.jpg'')"

fun storage_error_display :: "storage_error \<Rightarrow> string" where
  "storage_error_display Io = ''storage operation failed: ''"
| "storage_error_display InvalidKey = ''storage key is not a safe relative path''"
| "storage_error_display Join = ''storage maintenance task failed: ''"
| "storage_error_display UsageOverflow = ''storage usage exceeds the supported range''"

section \<open>Directories\<close>

datatype file_kind = Regular | SymlinkOrSpecial

datatype node =
  FileNode file_kind u64 "timestamp option"
| DirNode "(ustring \<times> node) list"

type_synonym entries = "(ustring \<times> node) list"

definition checked_add_u64 :: "u64 \<Rightarrow> u64 \<Rightarrow> u64 option" where
  "checked_add_u64 a b = to_word (uint a + uint b)"

text \<open>
  \<open>directory_usage\<close>: the entries of one directory add the sizes of its files and push its
  subdirectories; symbolic links are skipped.
\<close>

fun usage_entries :: "entries \<Rightarrow> entries list \<Rightarrow> u64 \<Rightarrow> storage_error + entries list \<times> u64" where
  "usage_entries [] pending acc = Inr (pending, acc)"
| "usage_entries ((name, DirNode child) # es) pending acc = usage_entries es (child # pending) acc"
| "usage_entries ((name, FileNode kind bytes modified) # es) pending acc =
     (if kind = Regular then
        (case checked_add_u64 acc bytes of
           None \<Rightarrow> Inl UsageOverflow
         | Some acc \<Rightarrow> usage_entries es pending acc)
      else usage_entries es pending acc)"

definition pending_size :: "entries list \<Rightarrow> nat" where
  "pending_size pending = size_list (size_list (size_prod (\<lambda>_. 0) size)) pending"

lemma usage_entries_size:
  "usage_entries es pending acc = Inr (pending', acc') \<Longrightarrow>
     pending_size pending' \<le> pending_size pending + size_list (size_prod (\<lambda>_. 0) size) es"
  by (induction es pending acc arbitrary: pending' acc' rule: usage_entries.induct)
    (force simp: pending_size_def split: option.splits if_splits)+

function usage_loop :: "entries list \<Rightarrow> u64 \<Rightarrow> storage_error + u64" where
  "usage_loop [] acc = Inr acc"
| "usage_loop (es # pending) acc =
     (case usage_entries es pending acc of
        Inl e \<Rightarrow> Inl e
      | Inr (pending, acc) \<Rightarrow> usage_loop pending acc)"
  by pat_completeness auto

termination usage_loop
  by (relation "measure (\<lambda>(pending, acc). pending_size pending)")
    (auto dest: usage_entries_size simp: pending_size_def)

definition directory_usage :: "entries \<Rightarrow> storage_error + u64" where
  "directory_usage root = usage_loop [root] 0"

section \<open>Cleanup\<close>

record cleanup_report =
  files_removed :: u64
  bytes_removed :: u64

definition empty_report :: cleanup_report where
  "empty_report = \<lparr>files_removed = 0, bytes_removed = 0\<rparr>"

definition add_child :: "cleanup_report \<Rightarrow> cleanup_report \<Rightarrow> cleanup_report" where
  "add_child child r =
     \<lparr>files_removed = files_removed r + files_removed child,
      bytes_removed = bytes_removed r + bytes_removed child\<rparr>"

text \<open>The key of a path: its components separated by slashes, with backslashes read as slashes.\<close>

fun join_slash :: "ustring list \<Rightarrow> ustring" where
  "join_slash [] = []"
| "join_slash [seg] = seg"
| "join_slash (seg # segs) = seg @ 47 # join_slash segs"

definition relative_key :: "ustring list \<Rightarrow> ustring" where
  "relative_key path = List.map (\<lambda>c. if c = 92 then 47 else c) (join_slash path)"

definition starts_with :: "ustring \<Rightarrow> ustring \<Rightarrow> bool" where
  "starts_with s prefix \<longleftrightarrow> take (length prefix) s = prefix"

definition protected :: "ustring set \<Rightarrow> ustring list \<Rightarrow> ustring \<Rightarrow> bool" where
  "protected referenced prefixes key \<longleftrightarrow>
     key \<in> referenced \<or> list_ex (\<lambda>p. key = p \<or> starts_with key (p @ [47])) prefixes"

definition old_enough :: "timestamp \<Rightarrow> timestamp option \<Rightarrow> bool" where
  "old_enough older_than modified \<longleftrightarrow> (case modified of None \<Rightarrow> False | Some m \<Rightarrow> m \<le> older_than)"

text \<open>
  \<open>cleanup_directory\<close> on the entries still to come, with the report so far: the result, and the entries
  that are left. A subdirectory other than those directly below the root is removed when it is empty.
\<close>

function cleanup_entries ::
  "(ustring list \<Rightarrow> bool) \<Rightarrow> (ustring \<Rightarrow> bool) \<Rightarrow> timestamp \<Rightarrow> ustring list \<Rightarrow> entries \<Rightarrow>
   cleanup_report \<Rightarrow> (storage_error + cleanup_report) \<times> entries" where
  "cleanup_entries fails prot older_than path [] r = (Inr r, [])"
| "cleanup_entries fails prot older_than path ((name, DirNode child) # es) r =
     (if fails (path @ [name]) then (Inl Io, (name, DirNode child) # es)
      else case cleanup_entries fails prot older_than (path @ [name]) child empty_report of
        (Inl e, left) \<Rightarrow> (Inl e, (name, DirNode left) # es)
      | (Inr report, left) \<Rightarrow>
          (case cleanup_entries fails prot older_than path es (add_child report r) of
             (res, rest) \<Rightarrow>
               (res, (if path \<noteq> [] \<and> left = [] then [] else [(name, DirNode left)]) @ rest)))"
| "cleanup_entries fails prot older_than path ((name, FileNode kind bytes modified) # es) r =
     (if fails (path @ [name]) then (Inl Io, (name, FileNode kind bytes modified) # es)
      else if \<not> prot (relative_key (path @ [name])) \<and> old_enough older_than modified then
        (case checked_add_u64 (bytes_removed r) bytes of
           None \<Rightarrow> (Inl UsageOverflow, es)
         | Some removed \<Rightarrow>
             cleanup_entries fails prot older_than path es
               \<lparr>files_removed = files_removed r + 1, bytes_removed = removed\<rparr>)
      else
        (case cleanup_entries fails prot older_than path es r of
           (res, rest) \<Rightarrow> (res, (name, FileNode kind bytes modified) # rest)))"
  by pat_completeness auto

termination cleanup_entries
  by (relation "measure (\<lambda>(f, p, t, path, es, r). size_list (size_prod (\<lambda>_. 0) size) es)") auto

definition cleanup_unreferenced ::
  "(ustring list \<Rightarrow> bool) \<Rightarrow> entries \<Rightarrow> ustring set \<Rightarrow> ustring list \<Rightarrow> timestamp \<Rightarrow>
   (storage_error + cleanup_report) \<times> entries" where
  "cleanup_unreferenced fails root referenced prefixes older_than =
     (if \<exists>key \<in> referenced \<union> set prefixes. isl (resolve_key key) then (Inl InvalidKey, root)
      else cleanup_entries fails (protected referenced prefixes) older_than [] root empty_report)"

section \<open>Files of a tree\<close>

fun files :: "ustring list \<Rightarrow> entries \<Rightarrow> (ustring list \<times> node) list" where
  "files path [] = []"
| "files path ((name, DirNode child) # es) = files (path @ [name]) child @ files path es"
| "files path ((name, FileNode kind bytes modified) # es) =
     (path @ [name], FileNode kind bytes modified) # files path es"

fun modified_at :: "node \<Rightarrow> timestamp option" where
  "modified_at (FileNode kind bytes m) = m"
| "modified_at (DirNode es) = None"

fun node_bytes :: "node \<Rightarrow> u64" where
  "node_bytes (FileNode kind bytes m) = bytes"
| "node_bytes (DirNode es) = 0"

definition kept :: "(ustring \<Rightarrow> bool) \<Rightarrow> timestamp \<Rightarrow> ustring list \<times> node \<Rightarrow> bool" where
  "kept prot older_than = (\<lambda>(path, n). prot (relative_key path) \<or> \<not> old_enough older_than (modified_at n))"

lemma cleanup_keeps:
  "cleanup_entries fails prot older_than path es r = (res, left) \<Longrightarrow> x \<in> set (files path es) \<Longrightarrow>
     kept prot older_than x \<Longrightarrow> x \<in> set (files path left)"
proof (induction fails prot older_than path es r arbitrary: res left rule: cleanup_entries.induct)
  case (2 fails prot older_than path name child es r)
  obtain res' left' where c: "cleanup_entries fails prot older_than (path @ [name]) child empty_report = (res', left')"
    by fastforce
  show ?case
  proof (cases "fails (path @ [name])")
    case False
    note child = "2.IH"(1) [OF False c]
    show ?thesis
    proof (cases res')
      case (Inl e)
      with "2.prems" False c show ?thesis by (auto dest: child)
    next
      case (Inr report)
      obtain res'' rest where r: "cleanup_entries fails prot older_than path es (add_child report r) = (res'', rest)"
        by fastforce
      have later: "x \<in> set (files path es) \<Longrightarrow> x \<in> set (files path rest)"
        using "2.IH"(2) [OF False c [symmetric]] Inr r "2.prems"(3) by simp
      have here: "x \<in> set (files (path @ [name]) child) \<Longrightarrow> x \<in> set (files (path @ [name]) left')"
        using child "2.prems"(3) by simp
      have left: "left = (if path \<noteq> [] \<and> left' = [] then [] else [(name, DirNode left')]) @ rest"
        using "2.prems"(1) False c Inr r by simp
      show ?thesis
        using "2.prems"(2) here later by (cases "left' = []") (auto simp: left)
    qed
  qed (use "2.prems" in auto)
next
  case (3 fails prot older_than path name kind bytes modified es r)
  show ?case
  proof (cases "\<not> fails (path @ [name]) \<and> \<not> prot (relative_key (path @ [name])) \<and> old_enough older_than modified")
    case True
    with 3 show ?thesis by (auto simp: kept_def split: option.splits)
  next
    case False
    with 3 show ?thesis by (auto split: prod.splits if_splits)
  qed
qed simp

definition removed :: "(ustring \<Rightarrow> bool) \<Rightarrow> timestamp \<Rightarrow> (ustring list \<times> node) list \<Rightarrow> (ustring list \<times> node) list" where
  "removed prot older_than fs = filter (\<lambda>f. \<not> kept prot older_than f) fs"

definition add_removed :: "(ustring list \<times> node) list \<Rightarrow> cleanup_report \<Rightarrow> cleanup_report" where
  "add_removed fs r =
     \<lparr>files_removed = files_removed r + of_nat (length fs),
      bytes_removed = bytes_removed r + sum_list (List.map (\<lambda>(path, n). node_bytes n) fs)\<rparr>"

lemma add_removed_append: "add_removed (xs @ ys) r = add_removed ys (add_removed xs r)"
  by (simp add: add_removed_def)

lemma add_removed_child: "add_child (add_removed fs empty_report) r = add_removed fs r"
  by (simp add: add_removed_def add_child_def empty_report_def)

lemma removed_append: "removed prot t (xs @ ys) = removed prot t xs @ removed prot t ys"
  by (simp add: removed_def)

lemma cleanup_removes:
  "cleanup_entries fails prot older_than path es r = (Inr report, left) \<Longrightarrow>
     files path left = filter (kept prot older_than) (files path es) \<and>
     report = add_removed (removed prot older_than (files path es)) r"
proof (induction fails prot older_than path es r arbitrary: report left rule: cleanup_entries.induct)
  case (1 fails prot older_than path r)
  then show ?case by (simp add: removed_def add_removed_def)
next
  case (2 fails prot older_than path name child es r)
  then obtain report' left' rest where f: "\<not> fails (path @ [name])"
    and c: "cleanup_entries fails prot older_than (path @ [name]) child empty_report = (Inr report', left')"
    and e: "cleanup_entries fails prot older_than path es (add_child report' r) = (Inr report, rest)"
    and left: "left = (if path \<noteq> [] \<and> left' = [] then [] else [(name, DirNode left')]) @ rest"
    by (auto split: if_splits sum.splits prod.splits)
  have "files path left = files (path @ [name]) left' @ files path rest"
    by (cases "left' = []") (simp_all add: left)
  with "2.IH"(1) [OF f c] "2.IH"(2) [OF f c [symmetric] refl e] show ?case
    by (simp add: removed_append add_removed_append add_removed_child)
next
  case (3 fails prot older_than path name kind bytes modified es r)
  show ?case
  proof (cases "\<not> prot (relative_key (path @ [name])) \<and> old_enough older_than modified")
    case True
    with 3 show ?thesis
      by (auto simp: removed_def add_removed_def kept_def checked_add_u64_def to_word_Some_iff algebra_simps
          split: if_splits option.splits)
  next
    case False
    with 3 show ?thesis by (auto simp: removed_def kept_def split: prod.splits if_splits)
  qed
qed

section \<open>The size of a tree\<close>

definition file_sizes :: "(ustring list \<times> node) list \<Rightarrow> int" where
  "file_sizes fs = sum_list (List.map (\<lambda>(path, n). case n of FileNode Regular bytes m \<Rightarrow> uint bytes | _ \<Rightarrow> 0) fs)"

lemma file_sizes_append: "file_sizes (xs @ ys) = file_sizes xs + file_sizes ys"
  by (simp add: file_sizes_def)

lemma file_sizes_nonneg: "0 \<le> file_sizes fs"
  unfolding file_sizes_def by (rule sum_list_nonneg) (auto split: node.splits file_kind.splits)

lemma file_sizes_path: "file_sizes (files path es) = file_sizes (files path' es)"
proof (induction path es arbitrary: path' rule: files.induct)
  case (2 path name child es)
  then show ?case by (simp add: file_sizes_append) metis
qed (auto simp: file_sizes_def)

definition tree_size :: "entries \<Rightarrow> int" where
  "tree_size es = file_sizes (files [] es)"

definition pending_total :: "entries list \<Rightarrow> int" where
  "pending_total pending = sum_list (List.map tree_size pending)"

lemma tree_size_nonneg: "0 \<le> tree_size es"
  by (simp add: tree_size_def file_sizes_nonneg)

lemma pending_total_nonneg: "0 \<le> pending_total pending"
  unfolding pending_total_def by (rule sum_list_nonneg) (auto simp: tree_size_nonneg)

lemma tree_size_simps:
  "tree_size [] = 0"
  "tree_size ((name, DirNode child) # es) = tree_size child + tree_size es"
  "tree_size ((name, FileNode kind bytes m) # es) = (if kind = Regular then uint bytes else 0) + tree_size es"
  using file_sizes_path [of "[name]" child "[]"]
  by (cases kind; simp add: tree_size_def file_sizes_append; simp add: file_sizes_def)+

lemma usage_entries_spec:
  "usage_entries es pending acc =
     r \<Longrightarrow> (case r of
        Inl e \<Rightarrow> e = UsageOverflow \<and> 2 ^ 64 \<le> uint acc + tree_size es + pending_total pending
      | Inr (pending', acc') \<Rightarrow>
          uint acc' + pending_total pending' = uint acc + tree_size es + pending_total pending)"
proof (induction es pending acc arbitrary: r rule: usage_entries.induct)
  case (3 name kind bytes modified es pending acc)
  show ?case
  proof (cases "kind = Regular")
    case True
    show ?thesis
    proof (cases "checked_add_u64 acc bytes")
      case None
      with True "3.prems" show ?thesis
        using tree_size_nonneg [of es] pending_total_nonneg [of pending]
        by (auto simp: checked_add_u64_def to_word_def tree_size_simps split: if_splits)
    next
      case (Some acc')
      then have "uint acc' = uint acc + uint bytes" unfolding checked_add_u64_def by (rule uint_of_to_word)
      with "3.IH"(1) [OF True Some refl] "3.prems" True Some show ?thesis
        by (auto simp: tree_size_simps algebra_simps split: sum.splits)
    qed
  qed (use 3 in \<open>auto simp: tree_size_simps split: sum.splits\<close>)
qed (auto simp: tree_size_simps pending_total_def split: sum.splits)

lemma usage_loop_spec:
  "usage_loop pending acc =
     (if uint acc + pending_total pending < 2 ^ 64 then Inr (word_of_int (uint acc + pending_total pending))
      else Inl UsageOverflow)"
proof (induction pending acc rule: usage_loop.induct)
  case (1 acc)
  then show ?case using uint_bounded [of acc] by (simp add: pending_total_def)
next
  case (2 es pending acc)
  have t: "pending_total (es # pending) = tree_size es + pending_total pending" by (simp add: pending_total_def)
  show ?case
  proof (cases "usage_entries es pending acc")
    case (Inl e)
    then show ?thesis using usage_entries_spec [OF Inl] by (simp add: t algebra_simps)
  next
    case (Inr p)
    obtain pending' acc' where p: "p = (pending', acc')" by fastforce
    show ?thesis
      using usage_entries_spec [OF Inr] "2.IH" [OF Inr p [symmetric]] by (simp add: Inr p t algebra_simps)
  qed
qed

lemma directory_usage_eq:
  "directory_usage es =
     (if tree_size es < 2 ^ 64 then Inr (word_of_int (tree_size es)) else Inl UsageOverflow)"
  by (simp add: directory_usage_def usage_loop_spec pending_total_def)

end
