(* ===== verification/StorageProps.thy ===== *)
theory StorageProps
  imports Storage
begin

text \<open>
  Properties of the local storage: keys stay below the root and output keys are canonical and distinct,
  the measured usage is the sum of the file sizes, and the cleanup removes exactly the old unprotected
  files, so that whatever the database refers to and the outputs of running attempts survive it.
\<close>

section \<open>Segments\<close>

definition plain_segment :: "ustring \<Rightarrow> bool" where
  "plain_segment seg \<longleftrightarrow>
     seg \<noteq> [] \<and> seg \<noteq> lit ''.'' \<and> seg \<noteq> lit ''..'' \<and> 47 \<notin> set seg \<and> 58 \<notin> set seg \<and> 92 \<notin> set seg"

lemma split_slash_not_Nil [simp]: "split_slash s \<noteq> []"
  by (induction s) (auto split: list.splits)

lemma split_slash_plain: "47 \<notin> set s \<Longrightarrow> split_slash s = [s]"
  by (induction s) auto

lemma split_slash_append: "47 \<notin> set s \<Longrightarrow> split_slash (s @ 47 # t) = s # split_slash t"
  by (induction s) (auto split: list.splits)

lemma split_slash_segments: "seg \<in> set (split_slash s) \<Longrightarrow> 47 \<notin> set seg \<and> set seg \<subseteq> set s"
proof (induction s arbitrary: seg)
  case (Cons a s)
  then show ?case by (cases "split_slash s") (simp, fastforce split: if_splits)
qed simp

lemma split_slash_hd: "hd (split_slash s) = [] \<longleftrightarrow> s = [] \<or> is_absolute s"
  by (cases s) (auto simp: is_absolute_def split: list.splits)

lemma split_join_slash:
  "path \<noteq> [] \<Longrightarrow> \<forall>seg \<in> set path. 47 \<notin> set seg \<Longrightarrow> split_slash (join_slash path) = path"
  by (induction path rule: join_slash.induct) (auto simp: split_slash_plain split_slash_append)

lemma set_join_slash: "set (join_slash path) \<subseteq> insert 47 (\<Union>seg \<in> set path. set seg)"
  by (induction path rule: join_slash.induct) auto

lemma component_of_plain: "plain_segment seg \<Longrightarrow> component_of seg = [NormalComponent seg]"
  by (simp add: component_of_def plain_segment_def)

lemma components_plain:
  "list_all plain_segment path \<Longrightarrow> concat (List.map component_of path) = List.map NormalComponent path"
  by (induction path) (simp_all add: component_of_plain)

lemma map_filter_normal: "List.map_filter normal_component (List.map NormalComponent path) = path"
  by (induction path) (simp_all add: List.map_filter_simps)

lemma not_absolute_join: "path \<noteq> [] \<Longrightarrow> list_all plain_segment path \<Longrightarrow> \<not> is_absolute (join_slash path) \<and> join_slash path \<noteq> []"
  using split_slash_hd [of "join_slash path"] split_join_slash [of path]
  by (cases path) (auto simp: plain_segment_def list_all_iff)

text \<open>A list of plain segments is the path of the key that joins them, and that key is its relative name.\<close>

lemma resolve_join:
  assumes "path \<noteq> []" and p: "list_all plain_segment path"
  shows "resolve_key (join_slash path) = Inr path" and "relative_key path = join_slash path"
proof -
  have seg: "\<forall>seg \<in> set path. 47 \<notin> set seg" using p by (auto simp: list_all_iff plain_segment_def)
  have chars: "58 \<notin> set (join_slash path)" "92 \<notin> set (join_slash path)"
    using set_join_slash [of path] p by (auto simp: list_all_iff plain_segment_def)
  have "hd path \<noteq> lit ''.''" using assms by (cases path) (auto simp: plain_segment_def)
  then have c: "components (join_slash path) = List.map NormalComponent path"
    using assms not_absolute_join [OF assms] by (simp add: components_def split_join_slash seg components_plain)
  show "resolve_key (join_slash path) = Inr path"
    using not_absolute_join [OF assms] chars
    by (auto simp: resolve_key_def c map_filter_normal list_ex_iff)
  show "relative_key path = join_slash path"
    unfolding relative_key_def by (rule map_idI) (use chars in auto)
qed

lemma resolve_key_segments:
  assumes "resolve_key key = Inr path"
  shows "path \<noteq> [] \<and> list_all plain_segment path"
proof -
  have ok: "key \<noteq> []" "92 \<notin> set key" "58 \<notin> set key" "\<not> is_absolute key"
      "\<forall>c \<in> set (components key). normal_component c \<noteq> None"
      "path = List.map_filter normal_component (components key)"
    using assms by (auto simp: resolve_key_def list_ex_iff split: if_splits)
  have dot: "hd (split_slash key) \<noteq> lit ''.''"
    using ok(4,5) by (auto simp: components_def)
  have c: "components key = concat (List.map component_of (split_slash key))"
    using ok(4) dot by (simp add: components_def)
  have "plain_segment seg" if "NormalComponent seg \<in> set (components key)" for seg
    using that split_slash_segments [of seg key] ok(2,3)
    by (auto simp: c component_of_def plain_segment_def split: if_splits)
  moreover have "\<exists>seg. NormalComponent seg \<in> set (components key)"
  proof -
    have h: "hd (split_slash key) \<in> set (split_slash key)" by simp
    have "component_of (hd (split_slash key)) \<noteq> []"
      using dot split_slash_hd [of key] ok(1,4) by (simp add: component_of_def)
    then obtain x where "x \<in> set (component_of (hd (split_slash key)))"
      by (cases "component_of (hd (split_slash key))") auto
    with h have "x \<in> set (components key)" by (auto simp: c)
    with ok(5) show ?thesis by (cases x) force+
  qed
  ultimately show ?thesis
    by (auto simp: ok(6) list_all_iff List.map_filter_def filter_empty_conv elim!: normal_component.elims; force)
qed

section \<open>Output keys\<close>

definition output_path :: "u64 \<Rightarrow> int \<Rightarrow> u64 \<Rightarrow> ustring list" where
  "output_path job attempt input =
     [lit ''outputs'', lit (''job-'' @ show_nat (unat job)), lit (''attempt-'' @ show_int attempt),
      lit (''input-'' @ show_nat (unat input) @ ''.jpg'')]"

lemma lit_append: "lit (s @ t) = lit s @ lit t"
  by (simp add: lit_def)

lemma digits_in_lit: "c \<in> set (lit (show_nat n)) \<Longrightarrow> 48 \<le> c \<and> c \<le> 57"
  using show_nat_digits [of n] by (auto simp: lit_def is_ascii_digit_def)

lemma show_nat_inj: "show_nat m = show_nat n \<longleftrightarrow> m = n"
  by (metis parse_digits_show_nat option.inject)

lemma minus_not_digit: "show_nat n \<noteq> CHR ''-'' # s"
  using show_nat_digits [of n] by (auto simp: is_ascii_digit_def)

lemma show_int_inj: "show_int i = show_int k \<longleftrightarrow> i = k"
  using minus_not_digit minus_not_digit [THEN not_sym]
  by (auto simp: show_int_def show_nat_inj nat_eq_iff)

lemma digits_in_int: "c \<in> set (lit (show_int i)) \<Longrightarrow> c = 45 \<or> 48 \<le> c \<and> c \<le> 57"
  using digits_in_lit by (auto simp: show_int_def lit_append split: if_splits; simp add: lit_def)

lemma output_path_plain: "output_path job attempt input \<noteq> []" "list_all plain_segment (output_path job attempt input)"
  using digits_in_lit [of _ "unat job"] digits_in_int [of _ attempt] digits_in_lit [of _ "unat input"]
  by (auto simp: output_path_def plain_segment_def lit_append; force simp: lit_def)+

lemma output_key_join: "output_key job attempt input = join_slash (output_path job attempt input)"
  by (simp add: output_key_def attempt_output_prefix_def output_path_def lit_append; simp add: lit_def)

lemma attempt_prefix_same: "attempt_prefix job attempt = attempt_output_prefix job attempt"
  by (simp add: attempt_prefix_def attempt_output_prefix_def)

lemma output_path_inj:
  "output_path j a i = output_path j' a' i' \<longleftrightarrow> j = j' \<and> a = a' \<and> i = i'"
  by (auto simp: output_path_def lit_append show_int_inj show_nat_inj word_unat_eq_iff)

lemma output_keys_round_trip_path: "resolve_key (output_key job attempt input) = Inr (output_path job attempt input)"
  using resolve_join [OF output_path_plain, folded output_key_join] by simp

section \<open>Properties\<close>

text \<open>C19. A key that resolves stays below the storage root: its path is a non-empty list of names, none of them
  empty, a dot, two dots, or containing a slash, a backslash or a colon. The key made of the same names
  resolves to the same path and is the name the cleanup gives the file.\<close>
theorem keys_stay_below_root:
  assumes "resolve_key key = Inr path"
  shows "path \<noteq> [] \<and>
    (\<forall>seg \<in> set path. seg \<noteq> [] \<and> seg \<noteq> lit ''.'' \<and> seg \<noteq> lit ''..'' \<and> set seg \<inter> {47, 58, 92} = {}) \<and>
    resolve_key (join_slash path) = Inr path \<and> relative_key path = join_slash path"
  using resolve_key_segments [OF assms] resolve_join [of path]
  by (auto simp: list_all_iff plain_segment_def)

theorem keys_stay_below_root_witness:
  "resolve_key (lit ''inputs//a/./b'') = Inr [lit ''inputs'', lit ''a'', lit ''b''] \<and>
   relative_key [lit ''inputs'', lit ''a'', lit ''b''] = lit ''inputs/a/b'' \<and>
   resolve_key (lit ''inputs/../b'') = Inl InvalidKey \<and> resolve_key (lit ''/etc'') = Inl InvalidKey"
proof -
  have r: "resolve_key (lit ''inputs//a/./b'') = Inr [lit ''inputs'', lit ''a'', lit ''b'']"
    by code_simp
  moreover have "resolve_key (lit ''inputs/../b'') = Inl InvalidKey \<and> resolve_key (lit ''/etc'') = Inl InvalidKey"
    by code_simp
  moreover have "join_slash [lit ''inputs'', lit ''a'', lit ''b''] = lit ''inputs/a/b''" by code_simp
  ultimately show ?thesis using keys_stay_below_root [OF r] by simp
qed

text \<open>The output key of an input of an attempt  resolves to its own file in the output directory of
  the attempt, the cleanup gives that file the same name, and different jobs, attempts or inputs have
  different keys.\<close>
lemma output_keys_round_trip:
  "resolve_key (output_key job attempt input) = Inr (output_path job attempt input) \<and>
   relative_key (output_path job attempt input) = output_key job attempt input \<and>
   (output_key job attempt input = output_key job' attempt' input' \<longleftrightarrow> job = job' \<and> attempt = attempt' \<and> input = input')"
proof -
  note r = resolve_join [OF output_path_plain, folded output_key_join]
  have "output_path job attempt input = output_path job' attempt' input'"
    if "output_key job attempt input = output_key job' attempt' input'"
    using r(1) [of job attempt input] r(1) [of job' attempt' input'] that by simp
  then show ?thesis
    using r [of job attempt input] output_path_inj [of job attempt input job' attempt' input'] by auto
qed

text \<open>The measured usage of a directory is the exact sum of the sizes of the regular files in the tree, or
  an error when the sum does not fit in 64 bits.\<close>
lemma usage_is_tree_size:
  "directory_usage es =
     (let total = sum_list (List.map (\<lambda>(path, n). case n of FileNode Regular bytes m \<Rightarrow> uint bytes | _ \<Rightarrow> 0) (files [] es))
      in if total < 2 ^ 64 then Inr (word_of_int total) else Inl UsageOverflow)"
  by (simp add: directory_usage_eq tree_size_def file_sizes_def Let_def)


definition ex_tree :: entries where
  "ex_tree =
     [(lit ''outputs'', DirNode
        [(lit ''job-1'', DirNode [(lit ''attempt-3'', DirNode [(lit ''old.jpg'', FileNode Regular 3 (Some 5))])]),
         (lit ''job-2'', DirNode [(lit ''attempt-8'', DirNode [(lit ''part.jpg'', FileNode Regular 6 (Some 5))])])]),
      (lit ''inputs'', DirNode [(lit ''new'', FileNode Regular 9 (Some 50))])]"


end
