(* ===== verification/MaintenanceProps.thy ===== *)
theory MaintenanceProps
  imports StorageProps QueueProps
begin

text \<open>
  Properties of the retention: which outputs expire, and that the cleanup of the storage, run with the
  references and output directories the database reports, spares every file that is still in use.
\<close>

section \<open>Expiry\<close>

text \<open>C18. Expiry removes exactly the outputs of the jobs that ended at least the retention period ago and returns
  their storage keys; inputs and the outputs of other jobs stay, and a job is marked once, when its outputs go.\<close>
theorem outputs_expire_after_retention:
  assumes "expire_output_artifacts now retention s = (Inr keys, t)"
  shows "keys = List.map f_storage_key (filter (\<lambda>f. f \<notin> set (artifacts t)) (artifacts s)) \<and>
    (\<forall>f. f \<in> set (artifacts t) \<longleftrightarrow> f \<in> set (artifacts s) \<and>
       \<not> (f_kind f = Output \<and>
          (\<exists>j \<in> set (jobs s). j_id j = f_job f \<and> j_state j \<in> {Succeeded, Failed, Cancelled} \<and>
             (\<exists>ended. j_finished_at j = Some ended \<and> ended + seconds (as_secs retention) \<le> now)))) \<and>
    set (jobs t) =
       (\<lambda>j. if j_state j \<in> {Succeeded, Failed, Cancelled} \<and> j_outputs_expired_at j = None \<and>
                (\<exists>ended. j_finished_at j = Some ended \<and> ended + seconds (as_secs retention) \<le> now)
             then j\<lparr>j_outputs_expired_at := Some now\<rparr> else j) ` set (jobs s) \<and>
    attempts t = attempts s \<and> schedules t = schedules s \<and> workers t = workers s"
proof -
  let ?n = "as_secs retention"
  have run: "expire_body now ?n s = (Inr keys, t)"
    using assms by (auto simp: expire_output_artifacts_def tx_bind_Inr_iff tx_returns transaction_Inr_iff)
  note e = expire_body_Inr [OF run]
  have ended: "finished_before (now - seconds ?n) j \<and> j_outputs_expired_at j = None \<longleftrightarrow>
      j_state j \<in> {Succeeded, Failed, Cancelled} \<and> j_outputs_expired_at j = None \<and>
      (\<exists>ended. j_finished_at j = Some ended \<and> ended + seconds ?n \<le> now)" for j :: job_row
    by (auto simp: finished_before_def terminal_states_def le_diff_eq)
  have gone: "f \<notin> set (artifacts t) \<longleftrightarrow> expirable s (now - seconds ?n) f" if "f \<in> set (artifacts s)" for f
    using that by (simp add: e(2))
  have "keys = List.map f_storage_key (filter (\<lambda>f. f \<notin> set (artifacts t)) (artifacts s))"
    using gone by (simp add: e(1) cong: filter_cong)
  moreover have "f \<in> set (artifacts t) \<longleftrightarrow> f \<in> set (artifacts s) \<and>
       \<not> (f_kind f = Output \<and>
          (\<exists>j \<in> set (jobs s). j_id j = f_job f \<and> j_state j \<in> {Succeeded, Failed, Cancelled} \<and>
             (\<exists>ended. j_finished_at j = Some ended \<and> ended + seconds ?n \<le> now)))" for f
    by (auto simp: e(2) expirable_def finished_before_def terminal_states_def list_ex_iff le_diff_eq)
  moreover have "set (jobs t) =
       (\<lambda>j. if j_state j \<in> {Succeeded, Failed, Cancelled} \<and> j_outputs_expired_at j = None \<and>
                (\<exists>ended. j_finished_at j = Some ended \<and> ended + seconds ?n \<le> now)
             then j\<lparr>j_outputs_expired_at := Some now\<rparr> else j) ` set (jobs s)"
    unfolding e(3) update_where_def mark_expired_def [symmetric] ended [symmetric] by (simp only: set_map)
  ultimately show ?thesis by (simp add: e(4,5,7))
qed

definition ex_artifact :: "int \<Rightarrow> artifact_kind \<Rightarrow> ustring \<Rightarrow> artifact_row" where
  "ex_artifact i kind key =
     \<lparr>f_id = i, f_job = 3, f_attempt = (if kind = Output then Some 2 else None),
      f_source = (if kind = Output then Some 1 else None), f_kind = kind, f_item_index = 0,
      f_storage_key = key, f_display_name = lit ''a.jpg'', f_media_type = lit ''image/jpeg'', f_byte_size = 9,
      f_width = 4, f_height = 3, f_created_at = 0, f_checksum = None\<rparr>"

definition ex_retention_db :: db where
  "ex_retention_db =
     ex_db\<lparr>artifacts := [ex_artifact 1 Input (lit ''inputs/a/b''), ex_artifact 2 Output (output_key 3 2 1)]\<rparr>"

theorem outputs_expire_after_retention_witness:
  "\<exists>t. expire_output_artifacts (seconds 90) (from_secs 60) ex_retention_db = (Inr [output_key 3 2 1], t) \<and>
       artifacts t = [ex_artifact 1 Input (lit ''inputs/a/b'')] \<and>
       ex_artifact 1 Input (lit ''inputs/a/b'') \<in> set (artifacts t)"
proof -
  obtain t where run: "expire_output_artifacts (seconds 90) (from_secs 60) ex_retention_db = (Inr [output_key 3 2 1], t)"
    and t: "artifacts t = [ex_artifact 1 Input (lit ''inputs/a/b'')]"
    by (simp add: evaluate ex_retention_db_def ex_artifact_def expire_output_artifacts_def expire_body_def
        delete_artifacts_def sql_delete_def expirable_def finished_before_def mark_expired_def from_secs_def)
  from outputs_expire_after_retention [OF run]
  have "ex_artifact 1 Input (lit ''inputs/a/b'') \<in> set (artifacts t)"
    by (simp add: ex_retention_db_def ex_artifact_def)
  with run t show ?thesis by blast
qed

section \<open>The cleanup and the database\<close>

lemma storage_references_run:
  "storage_references s = (Inr refd, s') \<Longrightarrow>
     refd = f_storage_key ` set (artifacts s) \<union> si_storage_key ` set (schedule_inputs s)"
  by (auto simp: storage_references_def tx_returns)

lemma collect_results_mem:
  "collect_results f xs = Inr ys \<Longrightarrow> x \<in> set xs \<Longrightarrow> \<exists>y \<in> set ys. f x = Inr y"
  by (induction xs arbitrary: ys) (auto simp: try_bind_Inr_iff)

lemma running_prefix:
  assumes "active_attempt_output_prefixes s = (Inr prefixes, s')" "a \<in> set (attempts s)" "a_state a = ARunning"
    and "to_word (a_job a) = Some job"
  shows "attempt_output_prefix job (a_id a) \<in> set prefixes"
proof -
  have "collect_results (\<lambda>a.
          try_bind (ok_or (InvalidData ''active attempt has an invalid job ID'') (to_word (a_job a))) (\<lambda>job.
          Inr (attempt_output_prefix job (a_id a))))
        (filter (\<lambda>a. a_state a = ARunning) (attempts s)) = Inr prefixes"
    using assms(1) by (auto simp: active_attempt_output_prefixes_def attempt_prefix_same)
  from collect_results_mem [OF this, of a] assms(2-4) show ?thesis by auto
qed

lemma output_protected:
  "attempt_output_prefix job attempt \<in> set prefixes \<Longrightarrow>
     protected refd prefixes (relative_key (output_path job attempt input))"
  unfolding resolve_join(2) [OF output_path_plain] output_key_join [symmetric] protected_def list_ex_iff
  by (rule disjI2, rule bexI) (auto simp: output_key_def starts_with_def lit_def)

text \<open>C17. The cleanup run by the maintenance, with the storage references and then the running attempts read from
  the database (two reads, between which the database may change), spares every file that an artifact or a
  schedule input refers to, every output file of an attempt that is running at the second read, and every
  file changed after the cutoff, also when it stops half-way with an error.\<close>
theorem cleanup_spares_live_files:
  assumes "storage_references s = (Inr refd, s')" and "active_attempt_output_prefixes u = (Inr prefixes, u')"
    and "cleanup_unreferenced fails root refd prefixes older_than = (res, left)"
    and "(path, n) \<in> set (files [] root)"
    and "(\<exists>f \<in> set (artifacts s). relative_key path = f_storage_key f) \<or>
         (\<exists>i \<in> set (schedule_inputs s). relative_key path = si_storage_key i) \<or>
         (\<exists>a \<in> set (attempts u). \<exists>job input. a_state a = ARunning \<and> to_word (a_job a) = Some job \<and>
            path = output_path job (a_id a) input) \<or>
         (\<exists>m. modified_at n = Some m \<and> older_than < m)"
  shows "(path, n) \<in> set (files [] left)"
proof -
  have "kept (protected refd prefixes) older_than (path, n)"
    using assms(5) output_protected [OF running_prefix [OF assms(2)]] storage_references_run [OF assms(1)]
    by (elim disjE) (auto simp: kept_def protected_def old_enough_def)
  then show ?thesis
    using assms(3,4) cleanup_keeps [of fails "protected refd prefixes" older_than "[]" root empty_report res left]
    by (auto simp: cleanup_unreferenced_def split: if_splits)
qed

theorem cleanup_spares_live_files_witness:
  "\<exists>res left. cleanup_unreferenced (\<lambda>_. False)
       [(lit ''outputs'', DirNode [(lit ''job-2'', DirNode [(lit ''attempt-1'', DirNode
          [(lit ''input-5.jpg'', FileNode Regular 6 (Some 5))])])])]
       {} [lit ''outputs/job-2/attempt-1'', lit ''outputs/job-4/attempt-3''] 10 = (res, left) \<and>
     (output_path 2 1 5, FileNode Regular 6 (Some 5)) \<in> set (files [] left)"
proof -
  have refd: "storage_references ex_db = (Inr {}, ex_db)"
    by (simp add: storage_references_def tx_returns ex_db_def)
  have p: "attempt_prefix 2 1 = lit ''outputs/job-2/attempt-1''" "attempt_prefix 4 3 = lit ''outputs/job-4/attempt-3''"
    by code_simp+
  have prefixes: "active_attempt_output_prefixes ex_db =
      (Inr [lit ''outputs/job-2/attempt-1'', lit ''outputs/job-4/attempt-3''], ex_db)"
    by (simp add: active_attempt_output_prefixes_def ex_db_def ex_attempt_def to_word_def p)
  have path: "output_path 2 1 5 = [lit ''outputs'', lit ''job-2'', lit ''attempt-1'', lit ''input-5.jpg'']"
    by code_simp
  have a: "ex_attempt 1 2 ARunning 42 \<in> set (attempts ex_db)" "a_state (ex_attempt 1 2 ARunning 42) = ARunning"
    "to_word (a_job (ex_attempt 1 2 ARunning 42)) = Some (2 :: u64)" "a_id (ex_attempt 1 2 ARunning 42) = 1"
    by (simp_all add: ex_db_def ex_attempt_def to_word_def)
  let ?root = "[(lit ''outputs'', DirNode [(lit ''job-2'', DirNode [(lit ''attempt-1'', DirNode
          [(lit ''input-5.jpg'', FileNode Regular 6 (Some 5))])])])]"
  obtain res left where c: "cleanup_unreferenced (\<lambda>_. False) ?root {}
      [lit ''outputs/job-2/attempt-1'', lit ''outputs/job-4/attempt-3''] 10 = (res, left)" by fastforce
  have "(output_path 2 1 5, FileNode Regular 6 (Some 5)) \<in> set (files [] left)"
  proof (rule cleanup_spares_live_files [OF refd prefixes c])
    show "(output_path 2 1 5, FileNode Regular 6 (Some 5)) \<in> set (files [] ?root)" by (simp add: path)
    show "(\<exists>f \<in> set (artifacts ex_db). relative_key (output_path 2 1 5) = f_storage_key f) \<or>
         (\<exists>i \<in> set (schedule_inputs ex_db). relative_key (output_path 2 1 5) = si_storage_key i) \<or>
         (\<exists>a \<in> set (attempts ex_db). \<exists>job input. a_state a = ARunning \<and> to_word (a_job a) = Some job \<and>
            output_path 2 1 5 = output_path job (a_id a) input) \<or>
         (\<exists>m. modified_at (FileNode Regular 6 (Some 5)) = Some m \<and> (10 :: timestamp) < m)"
      by (intro disjI2 [OF disjI2 [OF disjI1]] bexI [OF _ a(1)] exI [of _ 2] exI [of _ 5]) (simp add: a)
  qed
  with c show ?thesis by blast
qed

end
