(* ===== verification/Stored.thy ===== *)
theory Stored
  imports Storage
begin

text \<open>
  The stored files as the programs that write them see them: a map from the path below the storage root to
  the content. Removing a tree (\<open>LocalStorage::remove_tree\<close>) takes away every path below its prefix.
\<close>

type_synonym stored = "ustring list \<rightharpoonup> u8 list"

definition under :: "ustring list \<Rightarrow> ustring list \<Rightarrow> bool" where
  "under prefix path \<longleftrightarrow> take (length prefix) path = prefix"

definition remove_tree :: "ustring \<Rightarrow> stored \<Rightarrow> (storage_error + unit) \<times> stored" where
  "remove_tree key fs =
     (case resolve_key key of
        Inl e \<Rightarrow> (Inl e, fs)
      | Inr prefix \<Rightarrow> (Inr (), \<lambda>path. if under prefix path then None else fs path))"

lemma under_append [simp]: "under prefix (prefix @ path)"
  by (simp add: under_def)

lemma remove_tree_files:
  "resolve_key key = Inr prefix \<Longrightarrow>
     snd (remove_tree key fs) path = (if under prefix path then None else fs path)"
  by (simp add: remove_tree_def)

end
