(* ===== verification/Imaging.thy ===== *)
theory Imaging
  imports Stored
begin

text \<open>
  Image processing (\<open>crates/adapters/src/image_processing.rs\<close>): the inspection of an uploaded image, the
  dimensions and pixels of the output, and the files that resizing an input writes. The image codecs are
  the argument \<open>cd\<close>, the stored files a map from paths to bytes, and the errors of the file system an
  argument \<open>io\<close>. The semaphore that bounds the
  blocking tasks is never closed, and a blocking task does not panic.
\<close>

section \<open>Limits and errors\<close>

definition max_file_bytes :: u64 where
  "max_file_bytes = 5 * 1024 * 1024"

definition max_total_file_bytes :: u64 where
  "max_total_file_bytes = 25 * 1024 * 1024"

definition max_image_pixels :: u64 where
  "max_image_pixels = 12000000"

definition max_image_dimension :: u32 where
  "max_image_dimension = 12000"

definition default_output_width :: u32 where
  "default_output_width = 1600"

definition default_jpeg_quality :: u8 where
  "default_jpeg_quality = 85"

datatype image_error =
  ImageIo | ImageDecode | ImageStorage storage_error | ImageJoin | UnsupportedFormat | AnimatedPng
| DimensionsTooLarge | InvalidSettings | BlockingLimitClosed

fun is_invalid_input :: "image_error \<Rightarrow> bool" where
  "is_invalid_input ImageDecode = True"
| "is_invalid_input UnsupportedFormat = True"
| "is_invalid_input AnimatedPng = True"
| "is_invalid_input DimensionsTooLarge = True"
| "is_invalid_input _ = False"

fun safe_message :: "image_error \<Rightarrow> string" where
  "safe_message UnsupportedFormat = ''only JPEG and PNG image data is supported''"
| "safe_message AnimatedPng = ''animated PNG files are not supported''"
| "safe_message DimensionsTooLarge = ''image dimensions exceed the 12 megapixel or 12000 pixel limit''"
| "safe_message ImageDecode = ''image data is corrupt or could not be decoded''"
| "safe_message InvalidSettings = ''image resize settings are invalid''"
| "safe_message _ = ''image processing could not be completed''"

fun image_failure_kind :: "image_error \<Rightarrow> failure_kind" where
  "image_failure_kind (ImageStorage InvalidKey) = Permanent"
| "image_failure_kind (ImageStorage _) = Transient"
| "image_failure_kind ImageIo = Transient"
| "image_failure_kind ImageJoin = Transient"
| "image_failure_kind BlockingLimitClosed = Transient"
| "image_failure_kind _ = Permanent"

record image_metadata =
  im_media_type :: ustring
  im_width :: u32
  im_height :: u32

record processed_image =
  pi_storage_key :: ustring
  pi_media_type :: ustring
  pi_byte_size :: u64
  pi_width :: u32
  pi_height :: u32

section \<open>Dimensions and pixels\<close>

definition validate_dimensions :: "u32 \<Rightarrow> u32 \<Rightarrow> image_error + unit" where
  "validate_dimensions width height =
     (case to_word (uint width * uint height) of
        None \<Rightarrow> Inl DimensionsTooLarge
      | Some (pixels :: u64) \<Rightarrow>
          if width = 0 \<or> height = 0 \<or> width > max_image_dimension \<or> height > max_image_dimension \<or>
             pixels > max_image_pixels
          then Inl DimensionsTooLarge else Inr ())"

definition resized_dimensions :: "u32 \<Rightarrow> u32 \<Rightarrow> u32 \<Rightarrow> u32 \<times> u32" where
  "resized_dimensions width height max_width =
     (if width \<le> max_width then (width, height)
      else let scaled_height = (ucast height * ucast max_width + ucast (width div 2)) div (ucast width :: u64)
           in (max_width, max (case to_word (uint scaled_height) of None \<Rightarrow> - 1 | Some h \<Rightarrow> h) 1))"

type_synonym rgba = "u8 \<times> u8 \<times> u8 \<times> u8"
type_synonym rgb = "u8 \<times> u8 \<times> u8"

record 'p raster =
  ra_width :: u32
  ra_height :: u32
  ra_pixel :: "u32 \<Rightarrow> u32 \<Rightarrow> 'p"

definition blend :: "u8 \<Rightarrow> u8 \<Rightarrow> u8" where
  "blend alpha channel =
     (let foreground = ucast channel * ucast alpha :: u16; background = 255 * (255 - ucast alpha) :: u16
      in ucast ((foreground + background + 127) div 255))"

definition flatten_pixel :: "rgba \<Rightarrow> rgb" where
  "flatten_pixel = (\<lambda>(r, g, b, alpha). (blend alpha r, blend alpha g, blend alpha b))"

definition flatten_on_white :: "rgba raster \<Rightarrow> rgb raster" where
  "flatten_on_white rgba =
     \<lparr>ra_width = ra_width rgba, ra_height = ra_height rgba,
      ra_pixel = (\<lambda>x y. flatten_pixel (ra_pixel rgba x y))\<rparr>"

section \<open>Inspection and resizing\<close>

text \<open>
  What the code uses of the \<open>image\<close> crate, under the decode limits it sets: the format guessed from the
  content, the dimensions, whether a PNG is animated, the decoded pixels, resampling and JPEG encoding.
  \<open>None\<close> is an error of the codec. The file system is described by the paths it cannot read, by what
  happens to a write and what a failed write has left in the file, and by the paths it cannot remove. Writing passes through
  a buffer: it may fail while the encoder writes, which reports the error as its own, or when the rest is flushed.
\<close>

datatype image_format = JpegFormat | PngFormat | OtherFormat

record codecs =
  cd_format :: "u8 list \<Rightarrow> image_format option"
  cd_dimensions :: "u8 list \<Rightarrow> (u32 \<times> u32) option"
  cd_is_apng :: "u8 list \<Rightarrow> bool option"
  cd_decode :: "u8 list \<Rightarrow> rgba raster option"
  cd_resize :: "rgb raster \<Rightarrow> u32 \<Rightarrow> u32 \<Rightarrow> rgb raster"
  cd_encode :: "u8 \<Rightarrow> rgb raster \<Rightarrow> u8 list option"

datatype write_outcome = DirectoryFails | CreateFails | WriteFails | FlushFails | StatFails | Written

record file_io =
  io_read_fails :: "ustring list \<Rightarrow> bool"
  io_write :: "ustring list \<Rightarrow> write_outcome"
  io_partial :: "ustring list \<Rightarrow> u8 list"
  io_remove_fails :: "ustring list \<Rightarrow> bool"

definition read_file :: "file_io \<Rightarrow> stored \<Rightarrow> ustring list \<Rightarrow> image_error + u8 list" where
  "read_file io fs path = (if io_read_fails io path then Inl ImageIo else ok_or ImageIo (fs path))"

definition inspect_path ::
  "codecs \<Rightarrow> file_io \<Rightarrow> stored \<Rightarrow> ustring list \<Rightarrow> image_error + image_metadata" where
  "inspect_path cd io fs path =
     try_bind (read_file io fs path) (\<lambda>content.
     try_bind (ok_or UnsupportedFormat (cd_format cd content)) (\<lambda>format.
     try_bind (if format = JpegFormat \<or> format = PngFormat then Inr () else Inl UnsupportedFormat) (\<lambda>_.
     try_bind (ok_or ImageDecode (cd_dimensions cd content)) (\<lambda>(width, height).
     try_bind (validate_dimensions width height) (\<lambda>_.
     try_bind (if format = PngFormat
               then try_bind (ok_or ImageDecode (cd_is_apng cd content))
                      (\<lambda>animated. if animated then Inl AnimatedPng else Inr ())
               else Inr ()) (\<lambda>_.
     Inr \<lparr>im_media_type = (if format = JpegFormat then lit ''image/jpeg'' else lit ''image/png''),
          im_width = width, im_height = height\<rparr>))))))"

text \<open>The closure \<open>encode_result\<close>: the output is created, or truncated, and written through the buffered writer.\<close>

definition write_output ::
  "codecs \<Rightarrow> file_io \<Rightarrow> ustring list \<Rightarrow> rgb raster \<Rightarrow> u8 \<Rightarrow> stored \<Rightarrow>
   (image_error + u8 list) \<times> stored" where
  "write_output cd io path output jpeg_quality fs =
     (if io_write io path = CreateFails then (Inl ImageIo, fs)
      else case cd_encode cd jpeg_quality output of
             None \<Rightarrow> (Inl ImageDecode, fs(path \<mapsto> io_partial io path))
           | Some bytes \<Rightarrow>
               if io_write io path = WriteFails then (Inl ImageDecode, fs(path \<mapsto> io_partial io path))
               else if io_write io path = FlushFails then (Inl ImageIo, fs(path \<mapsto> io_partial io path))
               else (Inr bytes, fs(path \<mapsto> bytes)))"

text \<open>\<open>let _ = fs::remove_file(output_path)\<close>: a file that cannot be removed stays.\<close>

definition discard_output :: "file_io \<Rightarrow> ustring list \<Rightarrow> stored \<Rightarrow> stored" where
  "discard_output io path fs = (if io_remove_fails io path then fs else fs(path := None))"

text \<open>The end of \<open>process_path\<close>: the directory, the output, which a failure discards, and its size.\<close>

definition encode_output ::
  "codecs \<Rightarrow> file_io \<Rightarrow> ustring list \<Rightarrow> rgb raster \<Rightarrow> u8 \<Rightarrow> stored \<Rightarrow>
   (image_error + u8 list) \<times> stored" where
  "encode_output cd io path output jpeg_quality fs =
     (if io_write io path = DirectoryFails then (Inl ImageIo, fs)
      else case write_output cd io path output jpeg_quality fs of
             (Inl e, fs') \<Rightarrow> (Inl e, discard_output io path fs')
           | (Inr bytes, fs') \<Rightarrow> if io_write io path = StatFails then (Inl ImageIo, fs') else (Inr bytes, fs'))"

definition process_path ::
  "codecs \<Rightarrow> file_io \<Rightarrow> ustring list \<Rightarrow> ustring list \<Rightarrow> ustring \<Rightarrow> u32 \<Rightarrow> u8 \<Rightarrow> stored \<Rightarrow>
   (image_error + processed_image) \<times> stored" where
  "process_path cd io input_path output_path out_key max_width jpeg_quality fs =
     (case try_bind (inspect_path cd io fs input_path) (\<lambda>metadata.
           try_bind (read_file io fs input_path) (\<lambda>content.
           try_bind (ok_or ImageDecode (cd_decode cd content)) (\<lambda>decoded.
           Inr (metadata, decoded)))) of
        Inl e \<Rightarrow> (Inl e, fs)
      | Inr (metadata, decoded) \<Rightarrow>
          (let flattened = flatten_on_white decoded;
               (output_width, output_height) = resized_dimensions (im_width metadata) (im_height metadata) max_width;
               output = (if output_width = im_width metadata \<and> output_height = im_height metadata then flattened
                         else cd_resize cd flattened output_width output_height)
           in case encode_output cd io output_path output jpeg_quality fs of
                (Inl e, fs) \<Rightarrow> (Inl e, fs)
              | (Inr bytes, fs) \<Rightarrow>
                  (Inr \<lparr>pi_storage_key = out_key, pi_media_type = lit ''image/jpeg'',
                        pi_byte_size = word_of_nat (length bytes), pi_width = output_width,
                        pi_height = output_height\<rparr>, fs)))"

definition inspect :: "codecs \<Rightarrow> file_io \<Rightarrow> stored \<Rightarrow> ustring \<Rightarrow> image_error + image_metadata" where
  "inspect cd io fs storage_key =
     try_bind (map_err ImageStorage (resolve_key storage_key)) (\<lambda>path. inspect_path cd io fs path)"

definition resize_to_jpeg ::
  "codecs \<Rightarrow> file_io \<Rightarrow> ustring \<Rightarrow> ustring \<Rightarrow> u32 \<Rightarrow> u8 \<Rightarrow> stored \<Rightarrow>
   (image_error + processed_image) \<times> stored" where
  "resize_to_jpeg cd io input_key out_key max_width jpeg_quality fs =
     (if max_width = 0 \<or> max_width > max_output_width \<or> \<not> (1 \<le> jpeg_quality \<and> jpeg_quality \<le> 100)
      then (Inl InvalidSettings, fs)
      else case try_bind (map_err ImageStorage (resolve_key input_key)) (\<lambda>input_path.
                try_bind (map_err ImageStorage (resolve_key out_key)) (\<lambda>output_path.
                Inr (input_path, output_path))) of
             Inl e \<Rightarrow> (Inl e, fs)
           | Inr (input_path, output_path) \<Rightarrow>
               process_path cd io input_path output_path out_key max_width jpeg_quality fs)"

end
