(* ===== verification/ImagingProps.thy ===== *)
theory ImagingProps
  imports Imaging StorageProps
begin

text \<open>
  Properties of the image processing: the dimensions and colours of the output are the rounded exact
  values, without overflow, and resizing writes one file or none.
\<close>

section \<open>Dimensions\<close>

lemma validate_dimensions_Inr:
  "validate_dimensions w h = Inr () \<longleftrightarrow>
     0 < uint w \<and> 0 < uint h \<and> uint w \<le> 12000 \<and> uint h \<le> 12000 \<and> uint w * uint h \<le> 12000000"
proof -
  have "uint w * uint h < 2 ^ 64"
  proof -
    have "uint w * uint h < 2 ^ 32 * 2 ^ 32"
      using uint_bounded [of w] uint_bounded [of h] by (intro mult_strict_mono') simp_all
    then show ?thesis by simp
  qed
  define p :: u64 where "p = word_of_int (uint w * uint h)"
  from \<open>uint w * uint h < 2 ^ 64\<close> have t: "to_word (uint w * uint h) = Some p"
    by (simp add: to_word_def p_def)
  from uint_of_to_word [OF t] have u: "uint p = uint w * uint h" .
  have z: "w = 0 \<longleftrightarrow> \<not> 0 < uint w" "h = 0 \<longleftrightarrow> \<not> 0 < uint h"
    by (metis order_le_less uint_0_iff uint_ge_0 order_less_irrefl)+
  show ?thesis
    using uint_ge_0 [of w] uint_ge_0 [of h] unfolding validate_dimensions_def t option.case
    by (simp del: uint_ge_0 add: word_less_def u z max_image_dimension_def max_image_pixels_def not_less linorder_not_less)
      (auto intro!: le_neq_trans [OF uint_ge_0])
qed

lemma half_up: "0 < w \<Longrightarrow> (n + w div 2) div w = (2 * n + w) div (2 * w)" for n w :: int
proof -
  assume w: "0 < w"
  have "(2 * n + w) div (2 * w) = ((2 * n + w) div 2) div w"
    using w by (simp add: zdiv_zmult2_eq)
  also have "(2 * n + w) div 2 = n + w div 2" by simp
  finally show ?thesis by simp
qed

lemma div_below: "0 < w \<Longrightarrow> n < 2 * (w * (h + 1)) \<Longrightarrow> n div (2 * w) < h + 1" for n w h :: int
proof (rule ccontr)
  assume w: "0 < w" and n: "n < 2 * (w * (h + 1))" and "\<not> n div (2 * w) < h + 1"
  then have "(h + 1) * (2 * w) \<le> n div (2 * w) * (2 * w)" by (intro mult_right_mono) simp_all
  also have "\<dots> \<le> n" using w by (simp add: minus_mod_eq_div_mult [symmetric])
  finally show False using n by (simp add: algebra_simps)
qed

lemma scaled_height:
  fixes w h m :: u32
  assumes "uint w \<le> 12000" "0 < uint w" "uint h \<le> 12000"
  shows "uint ((ucast h * ucast m + ucast (w div 2)) div (ucast w) :: u64) =
           (2 * (uint h * uint m) + uint w) div (2 * uint w)"
proof -
  have m: "uint m < 2 ^ 32" using uint_bounded [of m] by simp
  have "uint h * uint m \<le> 12000 * 2 ^ 32"
    using assms(3) m by (intro mult_mono) simp_all
  then have hm: "uint (ucast h * ucast m :: u64) = uint h * uint m"
    by (simp add: uint_word_ariths uint_up_ucast is_up)
  have "uint w div 2 \<le> 6000" using assms(1) by simp
  then have "uint (ucast h * ucast m + ucast (w div 2) :: u64) = uint h * uint m + uint w div 2"
    using \<open>uint h * uint m \<le> 12000 * 2 ^ 32\<close> assms(2)
    by (simp add: uint_plus_if' hm uint_up_ucast is_up uint_div)
  then show ?thesis
    using assms(2) by (simp add: uint_div uint_up_ucast is_up half_up)
qed

text \<open>C22. For an image the inspection accepts, the output is never wider than the requested width nor larger than
  the input, keeps at least one row, and its height is the exact proportional height rounded to the
  nearest integer (halves up): the 64-bit arithmetic of the code does not overflow.\<close>
theorem output_dimensions_fit:
  assumes "validate_dimensions w h = Inr ()" and "m \<noteq> 0"
  shows "resized_dimensions w h m = (w', h') \<Longrightarrow>
     uint w' = min (uint w) (uint m) \<and> 1 \<le> uint h' \<and> uint h' \<le> uint h \<and>
     uint h' = (if uint w \<le> uint m then uint h
                else max 1 ((2 * (uint h * uint m) + uint w) div (2 * uint w))) \<and>
     validate_dimensions w' h' = Inr ()"
proof -
  assume r: "resized_dimensions w h m = (w', h')"
  have b: "0 < uint w" "0 < uint h" "uint w \<le> 12000" "uint h \<le> 12000" "uint w * uint h \<le> 12000000"
    using assms(1) by (simp_all add: validate_dimensions_Inr)
  have m: "0 < uint m" using assms(2) by (simp add: word_neq_0_conv [symmetric] uint_0_iff order_less_le)
  show ?thesis
  proof (cases "w \<le> m")
    case True
    with r assms(1) b show ?thesis by (auto simp: resized_dimensions_def word_le_def)
  next
    case False
    then have less: "uint m < uint w" by (simp add: word_le_def)
    let ?v = "(2 * (uint h * uint m) + uint w) div (2 * uint w)"
    have "2 * (uint h * uint m) + uint w < 2 * (uint w * (uint h + 1))"
    proof -
      have "uint h * uint m \<le> uint h * uint w" using less b by (intro mult_left_mono) simp_all
      moreover have "2 * (uint w * (uint h + 1)) = 2 * (uint h * uint w) + 2 * uint w"
        by (simp add: algebra_simps)
      ultimately show ?thesis using b(1) by linarith
    qed
    then have "?v < uint h + 1" by (rule div_below [OF b(1)])
    moreover have "0 \<le> ?v" using b m by (intro pos_imp_zdiv_nonneg_iff [THEN iffD2]) simp_all
    ultimately have v: "0 \<le> ?v" "?v \<le> uint h" by simp_all
    then have t: "to_word ?v = Some (word_of_int ?v :: u32)" and u: "uint (word_of_int ?v :: u32) = ?v"
      using b by (auto simp: to_word_def uint_word_of_int intro!: take_bit_int_eq_self)
    have w': "w' = m" and h': "h' = max (word_of_int ?v) 1"
      using r False by (auto simp: resized_dimensions_def scaled_height [OF b(3,1,4)] t Let_def)
    have uh': "uint h' = max 1 ?v"
      by (simp add: h' max_def word_le_def u)
    with v b have h: "1 \<le> uint h'" "uint h' \<le> uint h" by auto
    have "uint w' * uint h' \<le> uint w * uint h"
      using h less m by (simp add: w' mult_mono)
    with b h m less w' have "validate_dimensions w' h' = Inr ()" by (simp add: validate_dimensions_Inr)
    with less h uh' show ?thesis by (simp add: w')
  qed
qed

theorem output_dimensions_fit_witness:
  "resized_dimensions 3000 2001 1600 = (1600, 1067) \<and> validate_dimensions 1600 1067 = Inr ()"
proof -
  have v: "validate_dimensions 3000 2001 = Inr ()" by code_simp
  have r: "resized_dimensions 3000 2001 1600 = (1600, 1067)" by code_simp
  from output_dimensions_fit [OF v _ r] r show ?thesis by simp
qed

section \<open>Colours\<close>

text \<open>Blending a channel over white gives the exact weighted mean of the channel and 255, rounded to the
  nearest integer, without overflow of the 16-bit arithmetic or truncation to 8 bits; an opaque pixel keeps
  its channel and a transparent one becomes white.\<close>
lemma blend_is_exact:
  "uint (blend alpha c) = (uint c * uint alpha + 255 * (255 - uint alpha) + 127) div 255 \<and>
   uint c \<le> uint (blend alpha c) \<and> uint (blend alpha c) \<le> 255 \<and>
   (alpha = 255 \<longrightarrow> blend alpha c = c) \<and> (alpha = 0 \<longrightarrow> blend alpha c = 255)"
proof -
  have a: "0 \<le> uint alpha" "uint alpha \<le> 255" using uint_bounded [of alpha] by simp_all
  have c: "0 \<le> uint c" "uint c \<le> 255" using uint_bounded [of c] by simp_all
  let ?n = "uint c * uint alpha + 255 * (255 - uint alpha) + 127"
  have ca: "uint c * uint alpha \<le> 255 * uint alpha" using a c by (intro mult_right_mono) simp_all
  have p: "0 \<le> (255 - uint c) * (255 - uint alpha)" using a c by (intro mult_nonneg_nonneg) simp_all
  have n: "255 * uint c + 127 \<le> ?n" "?n \<le> 65152" using p ca by (simp_all add: algebra_simps)
  define A B :: u16 where "A = ucast c * ucast alpha" and "B = 255 * (255 - ucast alpha)"
  have f: "uint A = uint c * uint alpha"
    using ca a c by (simp add: A_def uint_word_ariths uint_up_ucast is_up)
  have m: "(65025 - 255 * uint alpha) mod 65536 = 65025 - 255 * uint alpha"
    by (rule mod_pos_pos_trivial) (use a in linarith)+
  have g: "uint B = 255 * (255 - uint alpha)"
    using a by (simp add: B_def uint_word_ariths uint_up_ucast is_up m)
  have "uint (A + B + 127) = ?n"
    using n a c by (simp add: uint_plus_if' f g)
  then have q: "uint ((A + B + 127) div 255) = ?n div 255"
    by (simp add: uint_div)
  have d: "uint c \<le> ?n div 255" "?n div 255 \<le> 255" using n by simp_all
  have bd: "blend alpha c = ucast ((A + B + 127) div 255)"
    by (simp only: blend_def Let_def A_def B_def)
  from c(1) d(1) have "0 \<le> ?n div 255" by (rule order_trans)
  moreover from d(2) have "?n div 255 < 2 ^ 8" by simp
  ultimately have e: "uint (blend alpha c) = ?n div 255"
    unfolding bd unsigned_ucast_eq q by (intro take_bit_int_eq_self) simp_all
  have "blend alpha c = c" if "alpha = 255"
  proof -
    from e that have "uint (blend alpha c) = uint c" by simp
    then show ?thesis by (simp only: word_uint_eq_iff)
  qed
  moreover have "blend alpha c = 255" if "alpha = 0"
  proof -
    from e that have "uint (blend alpha c) = uint (255 :: u8)" by simp
    then show ?thesis by (simp only: word_uint_eq_iff)
  qed
  ultimately show ?thesis using d e by simp
qed

section \<open>Files\<close>

lemma encode_output_files:
  assumes "encode_output cd io path output q fs = (r, fs')"
  shows "\<And>p. p \<noteq> path \<Longrightarrow> fs' p = fs p"
    and "r = Inr bytes \<Longrightarrow> cd_encode cd q output = Some bytes \<and> fs' = fs(path \<mapsto> bytes)"
    and "r = Inl e \<Longrightarrow> fs' = fs \<or> fs' path = None \<or> io_remove_fails io path \<or> io_write io path = StatFails \<and> e = ImageIo"
  using assms
  by (auto simp: encode_output_def write_output_def discard_output_def split: if_splits option.splits)

lemma process_path_cases:
  assumes "process_path cd io input out key m q fs = (r, fs')"
  obtains (rejected) e where "r = Inl e" and "fs' = fs"
  | (encoded) metadata content decoded w h image res where
      "inspect_path cd io fs input = Inr metadata" and "fs input = Some content" and "cd_decode cd content = Some decoded"
      and "(w, h) = resized_dimensions (im_width metadata) (im_height metadata) m"
      and "image = (if w = im_width metadata \<and> h = im_height metadata then flatten_on_white decoded
                     else cd_resize cd (flatten_on_white decoded) w h)"
      and "encode_output cd io out image q fs = (res, fs')"
      and "r = (case res of Inl e \<Rightarrow> Inl e
                | Inr bytes \<Rightarrow> Inr \<lparr>pi_storage_key = key, pi_media_type = lit ''image/jpeg'',
                    pi_byte_size = word_of_nat (length bytes), pi_width = w, pi_height = h\<rparr>)"
proof (cases "try_bind (inspect_path cd io fs input) (\<lambda>metadata.
    try_bind (read_file io fs input) (\<lambda>content.
    try_bind (ok_or ImageDecode (cd_decode cd content)) (\<lambda>decoded. Inr (metadata, decoded))))")
  case (Inl e)
  with assms show thesis by (intro rejected [of e]) (simp_all add: process_path_def)
next
  case (Inr p)
  then obtain metadata content decoded where
    found: "inspect_path cd io fs input = Inr metadata" "fs input = Some content" "cd_decode cd content = Some decoded"
    and p: "p = (metadata, decoded)"
    by (auto simp: try_bind_Inr_iff read_file_def split: if_splits)
  obtain w h where wh: "resized_dimensions (im_width metadata) (im_height metadata) m = (w, h)" by fastforce
  let ?image = "if w = im_width metadata \<and> h = im_height metadata then flatten_on_white decoded
    else cd_resize cd (flatten_on_white decoded) w h"
  obtain res fs1 where "encode_output cd io out ?image q fs = (res, fs1)" by fastforce
  with assms Inr found p wh show thesis
    by (intro encoded [of metadata content decoded w h ?image res])
      (auto simp: process_path_def Let_def split: sum.splits)
qed

lemma resize_outcome:
  assumes "resize_to_jpeg cd io input_key out_key m q fs = (r, fs')"
  shows "case r of
      Inr p \<Rightarrow> (\<exists>input path content metadata decoded w h bytes.
        resolve_key input_key = Inr input \<and> resolve_key out_key = Inr path \<and>
        inspect cd io fs input_key = Inr metadata \<and> fs input = Some content \<and> cd_decode cd content = Some decoded \<and>
        (w, h) = resized_dimensions (im_width metadata) (im_height metadata) m \<and>
        cd_encode cd q (if w = im_width metadata \<and> h = im_height metadata then flatten_on_white decoded
                        else cd_resize cd (flatten_on_white decoded) w h) = Some bytes \<and>
        fs' = fs(path \<mapsto> bytes) \<and>
        p = \<lparr>pi_storage_key = out_key, pi_media_type = lit ''image/jpeg'', pi_byte_size = word_of_nat (length bytes),
             pi_width = w, pi_height = h\<rparr>)
    | Inl e \<Rightarrow> fs' = fs \<or>
        (\<exists>path. resolve_key out_key = Inr path \<and> (\<forall>p. p \<noteq> path \<longrightarrow> fs' p = fs p) \<and>
          (fs' path = None \<or> io_remove_fails io path \<or> io_write io path = StatFails \<and> e = ImageIo))"
proof (cases "m = 0 \<or> m > max_output_width \<or> \<not> (1 \<le> q \<and> q \<le> 100) \<or> isl (resolve_key input_key) \<or> isl (resolve_key out_key)")
  case True
  with assms have "fs' = fs \<and> isl r"
    by (cases "resolve_key input_key"; cases "resolve_key out_key") (auto simp: resize_to_jpeg_def split: if_splits)
  then show ?thesis by (cases r) simp_all
next
  case False
  then obtain input path where keys: "resolve_key input_key = Inr input" "resolve_key out_key = Inr path"
    by (metis obj_sumE sum.disc(1))
  have run: "process_path cd io input path out_key m q fs = (r, fs')"
    using assms False keys by (auto simp: resize_to_jpeg_def)
  then show ?thesis
  proof (cases rule: process_path_cases)
    case rejected
    then show ?thesis by simp
  next
    case (encoded metadata content decoded w h image res)
    have "inspect cd io fs input_key = Inr metadata" using encoded(1) keys(1) by (simp add: inspect_def)
    note inspected = this and files = encode_output_files [OF encoded(6)]
    show ?thesis
    proof (cases res)
      case (Inl e)
      with encoded(7) keys(2) files show ?thesis by auto
    next
      case (Inr bytes)
      note written = files(2) [OF Inr, unfolded encoded(5)]
      show ?thesis
        unfolding encoded(7) Inr sum.case
        by (intro exI conjI, rule keys(1), rule keys(2), rule inspected, rule encoded(2), rule encoded(3),
            rule encoded(4), rule written [THEN conjunct1], rule written [THEN conjunct2], rule refl)
    qed
  qed
qed

text \<open>C23. Resizing changes the output file only. On success it holds exactly the encoding, at the requested quality, of the
  input it decoded, set on white and scaled to the computed dimensions, and the result names its key, type, size and
  dimensions; the input had passed the inspection. After a failure no output is left, neither a new one nor an old one
  that was being overwritten, unless nothing was attempted at all: it stays only if the file system refuses to remove it, or
  if it is complete and only its size could not be read back.\<close>
theorem resize_writes_one_file:
  assumes "resize_to_jpeg cd io input_key out_key m q fs = (r, fs')"
  shows "case r of
      Inr p \<Rightarrow> (\<exists>input path content metadata decoded w h bytes.
        resolve_key input_key = Inr input \<and> resolve_key out_key = Inr path \<and>
        inspect cd io fs input_key = Inr metadata \<and> fs input = Some content \<and> cd_decode cd content = Some decoded \<and>
        (w, h) = resized_dimensions (im_width metadata) (im_height metadata) m \<and>
        cd_encode cd q (if w = im_width metadata \<and> h = im_height metadata then flatten_on_white decoded
                        else cd_resize cd (flatten_on_white decoded) w h) = Some bytes \<and>
        fs' = fs(path \<mapsto> bytes) \<and>
        p = \<lparr>pi_storage_key = out_key, pi_media_type = lit ''image/jpeg'', pi_byte_size = word_of_nat (length bytes),
             pi_width = w, pi_height = h\<rparr>)
    | Inl e \<Rightarrow> fs' = fs \<or>
        (\<exists>path. resolve_key out_key = Inr path \<and> (\<forall>p. p \<noteq> path \<longrightarrow> fs' p = fs p) \<and>
          (fs' path = None \<or> io_remove_fails io path \<or> io_write io path = StatFails \<and> e = ImageIo))"
  by (rule resize_outcome [OF assms])

text \<open>An error of the file system that the encoder meets while it writes is reported as an error of the codec, and so
  ends the job as permanently failed, although the same error when the file is created or flushed would let it be retried.\<close>

lemma write_errors_are_permanent:
  assumes "io_write io path = WriteFails"
  shows "\<exists>e. fst (encode_output cd io path output q fs) = Inl e \<and> image_failure_kind e = Permanent"
  using assms by (auto simp: encode_output_def write_output_def split: option.splits)

definition ex_codecs :: codecs where
  "ex_codecs =
     \<lparr>cd_format = (\<lambda>c. Some (if c = [1] then PngFormat else OtherFormat)), cd_dimensions = (\<lambda>_. Some (4, 2)),
      cd_is_apng = (\<lambda>_. Some False),
      cd_decode = (\<lambda>_. Some \<lparr>ra_width = 4, ra_height = 2, ra_pixel = (\<lambda>x y. (240, 20, 20, 0))\<rparr>),
      cd_resize = (\<lambda>r w h. r\<lparr>ra_width := w, ra_height := h\<rparr>), cd_encode = (\<lambda>q r. Some [2, 3])\<rparr>"

definition ex_io :: "(ustring list \<Rightarrow> write_outcome) \<Rightarrow> file_io" where
  "ex_io outcome = \<lparr>io_read_fails = (\<lambda>_. False), io_write = outcome, io_partial = (\<lambda>_. [2]), io_remove_fails = (\<lambda>_. False)\<rparr>"

lemma ex_keys_dimensions:
  "resolve_key (lit ''a'') = Inr [lit ''a'']" "resolve_key (lit ''b'') = Inr [lit ''b'']"
  "validate_dimensions 4 2 = Inr ()" "resized_dimensions 4 2 2 = (2, 1)"
  by code_simp+

lemmas resize_evaluation =
  resize_to_jpeg_def process_path_def inspect_path_def read_file_def ex_codecs_def ex_io_def ex_keys_dimensions
  encode_output_def write_output_def discard_output_def max_output_width_def Let_def

theorem resize_writes_one_file_witness:
  "(\<exists>p. resize_to_jpeg ex_codecs (ex_io (\<lambda>_. Written)) (lit ''a'') (lit ''b'') 2 90 [[lit ''a''] \<mapsto> [1]] =
        (Inr p, [[lit ''a''] \<mapsto> [1], [lit ''b''] \<mapsto> [2, 3]]) \<and> pi_width p = 2 \<and> pi_height p = 1 \<and> pi_byte_size p = 2) \<and>
   (\<exists>fs'. resize_to_jpeg ex_codecs (ex_io (\<lambda>_. FlushFails)) (lit ''a'') (lit ''b'') 2 90 [[lit ''a''] \<mapsto> [1]] =
        (Inl ImageIo, fs') \<and> fs' [lit ''b''] = None \<and> fs' [lit ''a''] = Some [1])"
proof (rule conjI)
  let ?fs = "[[lit ''a''] \<mapsto> [1]] :: stored"
  have run: "resize_to_jpeg ex_codecs (ex_io (\<lambda>_. Written)) (lit ''a'') (lit ''b'') 2 90 ?fs =
      (Inr \<lparr>pi_storage_key = lit ''b'', pi_media_type = lit ''image/jpeg'', pi_byte_size = 2, pi_width = 2,
            pi_height = 1\<rparr>, [[lit ''a''] \<mapsto> [1], [lit ''b''] \<mapsto> [2, 3]])"
    by (simp add: resize_evaluation)
  then show "\<exists>p. resize_to_jpeg ex_codecs (ex_io (\<lambda>_. Written)) (lit ''a'') (lit ''b'') 2 90 ?fs =
      (Inr p, [[lit ''a''] \<mapsto> [1], [lit ''b''] \<mapsto> [2, 3]]) \<and> pi_width p = 2 \<and> pi_height p = 1 \<and> pi_byte_size p = 2"
    by simp
  have "fst (resize_to_jpeg ex_codecs (ex_io (\<lambda>_. FlushFails)) (lit ''a'') (lit ''b'') 2 90 ?fs) = Inl ImageIo"
    by (simp add: resize_evaluation)
  then obtain fs' where failed: "resize_to_jpeg ex_codecs (ex_io (\<lambda>_. FlushFails)) (lit ''a'') (lit ''b'') 2 90 ?fs =
      (Inl ImageIo, fs')"
    by (metis prod.collapse)
  have "[lit ''a''] \<noteq> [lit ''b'']" by (simp add: lit_def)
  with resize_writes_one_file [OF failed]
  have "fs' [lit ''b''] = None" "fs' [lit ''a''] = Some [1]"
    by (auto simp: ex_keys_dimensions ex_io_def)
  with failed show "\<exists>fs'. resize_to_jpeg ex_codecs (ex_io (\<lambda>_. FlushFails)) (lit ''a'') (lit ''b'') 2 90 ?fs =
      (Inl ImageIo, fs') \<and> fs' [lit ''b''] = None \<and> fs' [lit ''a''] = Some [1]" by blast
qed

end
