(* ===== verification/LifecycleProps.thy ===== *)
theory LifecycleProps
  imports QueueProps
begin

text \<open>
  What the operations of the job lifecycle decide and write: the delay before a retry, the outcome of a
  failure, a cancellation request on each state of the job, a retry by hand, the reclamation of an
  expired attempt, the renewal of a lease, and the publication of outputs.
\<close>

section \<open>Failure\<close>

text \<open>A write under a claim, seen from the rows before and after.\<close>

lemma claim_write_rows:
  assumes inv: "queue_inv s"
    and att: "update_attempts (attempt_held now c i) F s = (Inr as, u)" "length as = 1"
    and job: "update_jobs Q G u = (Inr js, t)" "length js = 1"
    and Q: "\<And>r. Q r \<Longrightarrow> j_id r = i" and F: "\<And>a. a_id (F a) = a_id a" and G: "\<And>r. j_id (G r) = j_id r"
  obtains a j where "a \<in> set (attempts s)" and "attempt_held now c i a" and "j \<in> set (jobs s)"
    and "j_id j = i" and "Q j" and "js = [G j]"
    and "jobs t = put_row j_id (G j) (jobs s)" and "attempts t = put_row a_id (F a) (attempts s)"
    and "seqs t = seqs s" and "artifacts t = artifacts s"
proof -
  have P: "\<And>a. attempt_held now c i a \<Longrightarrow> a_job a = i" by (simp add: attempt_held_def)
  from held_attempt_update [OF inv att P F] obtain a j where
    a: "a \<in> set (attempts s)" "attempt_held now c i a"
    and j: "j \<in> set (jobs s)" "j_id j = i"
    and u: "u = set_attempts (put_row a_id (F a) (attempts s)) s" by metis
  have ju: "jobs u = jobs s" using u by (simp add: set_table_defs)
  note row = job_row_update [where s = u and j = j, unfolded ju, OF queue_inv_keyed(1) [OF inv] job Q G j]
  show thesis
    by (rule that [OF a j row(1,2)]) (use row(4) u in \<open>simp_all add: set_table_defs\<close>)
qed

lemma failure_kind_text:
  "failure_kind_as_str kind = (if kind = Transient then lit ''transient'' else lit ''permanent'')"
  by (cases kind) simp_all

lemma put_row_mem_new: "r \<in> set rs \<Longrightarrow> k (f r) = k r \<Longrightarrow> f r \<in> set (put_row k (f r) rs)"
  by (rule put_row_mem_self)

text \<open>C9. A recorded failure closes the claimed attempt as failed, with the given kind and message, and
  decides the job: a transient failure of an attempt below the limit schedules a retry after the backoff,
  with the progress reset; any other failure ends the job as failed now.\<close>

theorem failure_decides:
  assumes inv: "queue_inv s" and iss: "issued s c"
    and run: "record_failure now c dur kind message s = (Inr d, t)"
  shows "\<exists>j \<in> set (jobs s). \<exists>a \<in> set (attempts s).
     j_id j = uint (job_id_get (cj_job_id c)) \<and> j_state j = Running \<and>
     a_id a = cj_attempt_id c \<and> a_job a = j_id j \<and> running a \<and>
     attempts t = put_row a_id
       (a\<lparr>a_state := AFailed, a_finished_at := Some now, a_duration_ms := Some (as_millis dur),
          a_error_kind := Some (if kind = Transient then lit ''transient'' else lit ''permanent''),
          a_error_message := Some message\<rparr>) (attempts s) \<and>
     (if kind = Transient \<and> a_number a < j_max_attempts j
      then d = RetryScheduled (now + seconds (min (2 ^ (nat (a_number a) - 1)) 60)) \<and>
        jobs t = put_row j_id
          (j\<lparr>j_state := RetryWaiting, j_available_at := now + seconds (min (2 ^ (nat (a_number a) - 1)) 60),
             j_progress_completed := 0, j_failure_message := Some message, j_result_message := None,
             j_result_duration_ms := None, j_finished_at := None\<rparr>) (jobs s)
      else d = FailedFinally \<and> jobs t = put_row j_id
          (j\<lparr>j_state := Failed, j_failure_message := Some message, j_result_message := None,
             j_result_duration_ms := None, j_finished_at := Some now\<rparr>) (jobs s))"
proof -
  let ?i = "uint (job_id_get (cj_job_id c))" and ?ms = "as_millis dur"
  from run obtain ms i where enc: "encode_duration dur = Inr ms" "encode_job_id (cj_job_id c) = Inr i"
    and w: "failure_writes now c i ms kind message s = (Inr d, t)"
    by (auto simp: record_failure_def tx_bind_Inr_iff tx_returns transaction_Inr_iff)
  from enc have [simp]: "ms = ?ms" "i = ?i"
    by (auto simp: encode_duration_def dest: encode_job_id_uint)
  from w obtain as u where
    att: "update_attempts (attempt_held now c i) (fail_attempt now ms kind message) s = (Inr as, u)"
      "length as = 1"
    by (auto simp: failure_writes_def tx_bind_Inr_iff tx_returns)
  show ?thesis
  proof (cases "kind = Transient \<and> cj_attempt_number c < cj_max_attempts c")
    case True
    from w [unfolded failure_writes_def] True att obtain b js where
      b: "b = uint (retry_backoff_seconds (cj_attempt_number c))"
      and job: "update_jobs (\<lambda>r. j_id r = i \<and> j_state r = Running) (retry_job (now + seconds b) message) u = (Inr js, t)"
      and hit: "js \<noteq> []" and d: "d = RetryScheduled (j_available_at (hd js))"
      by (force simp: tx_bind_Inr_iff tx_returns fetch_optional_Some_iff)
    have "keyed j_id (jobs u)" using queue_inv_keyed(1) [OF inv] update_attempts_jobs [OF att(1)] by simp
    then have one: "length js = 1" by (rule update_jobs_by_id [OF _ job _ hit]) simp
    show ?thesis
    proof (rule claim_write_rows [OF inv att job one])
    fix a j
    assume a: "a \<in> set (attempts s)" "attempt_held now c i a" and j: "j \<in> set (jobs s)" "j_id j = i"
      and st: "j_id j = i \<and> j_state j = Running" and js: "js = [retry_job (now + seconds b) message j]"
      and t: "jobs t = put_row j_id (retry_job (now + seconds b) message j) (jobs s)"
        "attempts t = put_row a_id (fail_attempt now ms kind message a) (attempts s)"
    have aj: "a_id a = cj_attempt_id c" "a_job a = j_id j" "running a"
      using a(2) j(2) by (simp_all add: attempt_held_def running_def)
    note num = issued_attempt(1,2) [OF inv iss a(1) aj(1) j(1) aj(2) [symmetric]]
    have "a \<in> set (attempts_of s (j_id j))" using a(1) aj(2) by (simp add: attempts_of_def)
    then have "attempt_ok a" using job_inv_attempts [OF queue_inv_job [OF inv j(1)]] by blast
    then have pos: "0 < a_number a" by (simp add: attempt_ok_def)
    have below: "a_number a < j_max_attempts j" using True by (simp add: num word_less_def)
    have "0 < cj_attempt_number c" using pos num(1) by (simp add: word_less_def)
    moreover have "unat (cj_attempt_number c) = nat (a_number a)"
      by (simp only: num(1) unat_eq_nat_uint)
    ultimately have "b = min (2 ^ (nat (a_number a) - 1)) 60"
      unfolding b by (simp only: retry_backoff_value)
    then show ?thesis
      using a(1) j st t aj True d js below
      by (intro bexI [of _ j] bexI [of _ a]) (simp_all add: retry_job_def fail_attempt_def)
    qed (simp_all add: fail_attempt_def retry_job_def)
  next
    case False
    with w att obtain js where
      job: "update_jobs (\<lambda>r. j_id r = i \<and> j_state r = Running) (fail_job now message) u = (Inr js, t)"
        "length js = 1" and d: "d = FailedFinally"
      by (auto simp: failure_writes_def tx_bind_Inr_iff tx_returns)
    show ?thesis
    proof (rule claim_write_rows [OF inv att job])
    fix a j
    assume a: "a \<in> set (attempts s)" "attempt_held now c i a" and j: "j \<in> set (jobs s)" "j_id j = i"
      and st: "j_id j = i \<and> j_state j = Running"
      and t: "jobs t = put_row j_id (fail_job now message j) (jobs s)"
        "attempts t = put_row a_id (fail_attempt now ms kind message a) (attempts s)"
    have aj: "a_id a = cj_attempt_id c" "a_job a = j_id j" "running a"
      using a(2) j(2) by (simp_all add: attempt_held_def running_def)
    have "\<not> (kind = Transient \<and> a_number a < j_max_attempts j)"
      using False issued_attempt(1,2) [OF inv iss a(1) aj(1) j(1) aj(2) [symmetric]]
      by (simp add: word_less_def)
    then show ?thesis
      using a(1) j st t aj d by (intro bexI [of _ j] bexI [of _ a]) (simp_all add: fail_job_def fail_attempt_def failure_kind_text)
    qed (simp_all add: fail_attempt_def fail_job_def)
  qed
qed

theorem failure_decides_witness:
  "\<exists>d t. record_failure 5 (ex_claim 2 1 42) 700000000 Transient (lit ''busy'') ex_db = (Inr d, t) \<and>
     d = RetryScheduled (5 + seconds 1)"
proof -
  have "fst (record_failure 5 (ex_claim 2 1 42) 700000000 Transient (lit ''busy'') ex_db)
      = Inr (RetryScheduled (5 + seconds 1))"
    by (simp add: evaluate retry_backoff_seconds_def saturating_sub_u32_def checked_shl_u32_def
        max_backoff_seconds_def)
  then obtain t where run: "record_failure 5 (ex_claim 2 1 42) 700000000 Transient (lit ''busy'') ex_db
      = (Inr (RetryScheduled (5 + seconds 1)), t)" by (metis prod.collapse)
  from failure_decides [OF ex_db_inv ex_issued(1) run]
  have "\<exists>j \<in> set (jobs ex_db). j_state j = Running" by blast
  with run show ?thesis by blast
qed

section \<open>Cancellation\<close>

lemma get_with_owner_same: "get_with_owner i owner s = (r, t) \<Longrightarrow> t = s"
  by (auto simp: get_with_owner_def tx_bind_def tx_returns split: sum.splits prod.splits option.splits)

lemma job_ok_request_cancel: "job_ok j \<Longrightarrow> job_ok (request_cancel_row now j)"
  by (simp add: job_ok_def request_cancel_row_def)



text \<open>A cancellation request on a job that has succeeded or failed is refused, and changes nothing;
  a request for a job the owner does not have is answered with nothing found.\<close>

lemma cancel_request_refused:
  assumes inv: "queue_inv s" and id: "uint (job_id_get i) < 2 ^ 63"
    and none: "\<forall>j \<in> set (jobs s). j_id j = uint (job_id_get i) \<and> owned_by owner (j_owner j) \<longrightarrow>
      j_state j \<in> {Succeeded, Failed}"
    and run: "request_cancel_with_owner now i owner s = (r, t)"
  shows "t = s \<and> (if \<exists>j \<in> set (jobs s). j_id j = uint (job_id_get i) \<and> owned_by owner (j_owner j)
     then \<exists>e. r = Inl e else r = Inr None)"
proof -
  let ?P = "\<lambda>r. j_id r = uint (job_id_get i) \<and> owned_by owner (j_owner r)"
  have "\<forall>q \<in> set (jobs s). \<not> (?P q \<and> j_state q \<in> cancellable_states)"
    using none by (fastforce simp: cancellable_states_def)
  then have upd: "update_jobs (\<lambda>r. j_id r = uint (job_id_get i) \<and> owned_by owner (j_owner r) \<and>
      j_state r \<in> cancellable_states) (request_cancel_row now) s = (Inr [], s)"
    by (simp add: update_jobs_def sql_update_def Let_def update_where_none set_table_defs)
  note enc = encode_job_id_fits [OF id]
  have run': "tx_bind (get_with_owner i owner) (\<lambda>found.
      if found \<noteq> None then tx_fail (StateConflict ''cancel terminal job'') else tx_return None) s = (r, t)"
    using run upd by (simp add: request_cancel_with_owner_def tx_bind_def tx_returns enc)
  show ?thesis
  proof (cases "\<exists>j \<in> set (jobs s). ?P j")
    case True
    then obtain j where j: "fetch_optional (filter ?P (jobs s)) = Some j"
      by (cases "fetch_optional (filter ?P (jobs s))") (auto simp: filter_empty_conv)
    with run' True show ?thesis
      by (cases "read_job s j") (auto simp: tx_bind_def tx_returns get_with_owner_def enc)
  next
    case False
    then have "fetch_optional (filter ?P (jobs s)) = None" by (simp add: filter_empty_conv)
    with run' False show ?thesis
      by (auto simp: tx_bind_def tx_returns get_with_owner_def enc)
  qed
qed

section \<open>Retry by hand\<close>

lemma manual_retry_rows:
  assumes inv: "queue_inv s" and run: "manual_retry_with_owner now i owner s = (Inr (Some record), t)"
  obtains src copies where "src \<in> set (jobs s)" and "j_id src = uint (job_id_get i)"
    and "owned_by owner (j_owner src)" and "j_state src \<in> {Failed, Cancelled}"
    and "jobs t = jobs s @ [manual_retry_job now src (seqs s Jobs)]" and "attempts t = attempts s"
    and "artifacts t = artifacts s @ copies"
    and "list_all2 (\<lambda>f r. \<exists>n. r = copied_input now (seqs s Jobs) f n)
           (filter (\<lambda>f. f_job f = j_id src \<and> f_kind f = Input) (artifacts s)) copies"
proof -
  from run obtain k n u where enc: "encode_job_id i = Inr k"
    and body: "manual_retry_body now k owner s = (Inr (Some n), u)"
    and rest: "tx_bind (tx_lift (decode_job_id n)) (\<lambda>new_id. get_with_owner new_id owner) u
      = (Inr (Some record), t)"
    by (auto simp: manual_retry_with_owner_def tx_bind_Inr_iff tx_returns transaction_Inr_iff
        split: option.splits)
  from rest have tu: "t = u"
    by (auto simp: tx_bind_Inr_iff tx_returns dest: get_with_owner_same)
  show thesis
  proof (rule manual_retry_body_Some [OF body])
    fix src v
    assume src: "src \<in> set (jobs s)" "j_id src = k" "owned_by owner (j_owner src)"
        "j_state src \<in> {Failed, Cancelled}"
      and ins: "insert_job (manual_retry_job now src) s = (Inr (manual_retry_job now src n), v)"
      and n: "n = seqs s Jobs"
      and copy: "tx_for (\<lambda>f. tx_bind (insert_artifact (copied_input now n f)) (\<lambda>_. tx_return ()))
           (filter (\<lambda>f. f_job f = k \<and> f_kind f = Input) (artifacts s)) v = (Inr (), u)"
    note j = insert_job_Inr [OF ins]
    from insert_artifacts_for [OF copy] obtain new where
      new: "artifacts u = artifacts v @ new" "jobs u = jobs v" "attempts u = attempts v"
        "list_all2 (\<lambda>f r. \<exists>i. r = copied_input now n f i)
          (filter (\<lambda>f. f_job f = k \<and> f_kind f = Input) (artifacts s)) new" by blast
    with src j n tu encode_job_id_uint [OF enc] show thesis by (intro that [of src new]) simp_all
  qed
qed

text \<open>What a copy keeps of an input: everything but its identity, its job, and the checksum.\<close>

definition copied_columns :: "artifact_row \<Rightarrow> int \<times> ustring \<times> ustring \<times> ustring \<times> int \<times> int \<times> int" where
  "copied_columns f =
     (f_item_index f, f_storage_key f, f_display_name f, f_media_type f, f_byte_size f, f_width f, f_height f)"

text \<open>C11. A retry by hand of a failed or cancelled job leaves that job, every other job and all attempts
  as they were and appends one queued job, available now, which keeps the source's name, type, delay, size and
  quality settings, number of inputs, limit of attempts, priority and owner; whatever belongs to the run of the
  source, to its schedule or to the request that created it is empty, and the source is named. The input artifacts are
  copied in order, referring to the same files under the same names.\<close>

theorem manual_retry_copies:
  assumes inv: "queue_inv s" and run: "manual_retry_with_owner now i owner s = (Inr (Some record), t)"
  shows "\<exists>src \<in> set (jobs s). \<exists>new copies.
     j_id src = uint (job_id_get i) \<and> owned_by owner (j_owner src) \<and> j_state src \<in> {Failed, Cancelled} \<and>
     new = src\<lparr>j_id := seqs s Jobs, j_state := Queued, j_available_at := now, j_progress_completed := 0,
       j_result_message := None, j_result_duration_ms := None, j_failure_message := None,
       j_retry_of := Some (j_id src), j_cancel_requested_at := None, j_schedule_id := None,
       j_scheduled_for := None, j_idempotency_key := None, j_fingerprint := None,
       j_outputs_expired_at := None, j_created_at := now, j_started_at := None, j_finished_at := None\<rparr> \<and>
     jobs t = jobs s @ [new] \<and> attempts t = attempts s \<and> artifacts t = artifacts s @ copies \<and>
     List.map copied_columns copies =
       List.map copied_columns (filter (\<lambda>f. f_job f = j_id src \<and> f_kind f = Input) (artifacts s)) \<and>
     (\<forall>f \<in> set copies. f_job f = j_id new \<and> f_kind f = Input \<and> f_attempt f = None \<and> f_source f = None)"
  using inv run
proof (rule manual_retry_rows)
  fix src copies
  assume src: "src \<in> set (jobs s)" "j_id src = uint (job_id_get i)" "owned_by owner (j_owner src)"
      "j_state src \<in> {Failed, Cancelled}"
    and t: "jobs t = jobs s @ [manual_retry_job now src (seqs s Jobs)]" "attempts t = attempts s"
      "artifacts t = artifacts s @ copies"
    and copies: "list_all2 (\<lambda>f r. \<exists>n. r = copied_input now (seqs s Jobs) f n)
      (filter (\<lambda>f. f_job f = j_id src \<and> f_kind f = Input) (artifacts s)) copies"
  have "List.map copied_columns copies =
      List.map copied_columns (filter (\<lambda>f. f_job f = j_id src \<and> f_kind f = Input) (artifacts s))"
    by (rule made_from_map [OF copies]) (simp add: copied_columns_def copied_input_def)
  moreover have "\<forall>f \<in> set copies. f_job f = seqs s Jobs \<and> f_kind f = Input \<and> f_attempt f = None \<and> f_source f = None"
    by (rule made_from_all [OF copies]) (auto simp: copied_input_def)
  ultimately show ?thesis
    using src t
    by (intro bexI [of _ src] exI [of _ "manual_retry_job now src (seqs s Jobs)"] exI [of _ copies])
      (simp_all add: manual_retry_job_def default_job_def)
qed

text \<open>The copies carry no checksum, although the inputs of the source may have one.\<close>

lemma manual_retry_drops_checksums:
  assumes "queue_inv s" and "manual_retry_with_owner now i owner s = (Inr (Some record), t)"
  shows "\<exists>copies. artifacts t = artifacts s @ copies \<and> (\<forall>f \<in> set copies. f_checksum f = None)"
  using assms
proof (rule manual_retry_rows)
  fix src copies
  assume copies: "list_all2 (\<lambda>f r. \<exists>n. r = copied_input now (seqs s Jobs) f n)
      (filter (\<lambda>f. f_job f = j_id src \<and> f_kind f = Input) (artifacts s)) copies"
    and "artifacts t = artifacts s @ copies"
  moreover have "\<forall>f \<in> set copies. f_checksum f = None"
    by (rule made_from_all [OF copies]) (auto simp: copied_input_def)
  ultimately show ?thesis by blast
qed

lemmas [evaluate] =
  manual_retry_with_owner_def manual_retry_body_def owned_by_def manual_retry_job_def
  get_with_owner_def read_job_def load_artifacts_def load_attempts_def select_job_def
  try_into_record_def job_type_from_str_def job_status_from_str_def job_priority_from_str_def
  job_settings_of_def max_attempts_limit_def job_restore_def job_name_new_def max_job_name_length_def

theorem manual_retry_copies_witness:
  "\<exists>t new. snd (manual_retry_with_owner 9 (JobId 3) (Some (UserId 1)) ex_db) = t \<and>
     jobs t = jobs ex_db @ [new] \<and> j_state new = Queued \<and> j_retry_of new = Some 3 \<and>
     j_name new = lit ''failed'' \<and> j_started_at new = None"
proof -
  have "case fst (manual_retry_with_owner 9 (JobId 3) (Some (UserId 1)) ex_db) of
      Inr (Some r) \<Rightarrow> True | _ \<Rightarrow> False"
    by (simp add: evaluate)
  then obtain r t where run: "manual_retry_with_owner 9 (JobId 3) (Some (UserId 1)) ex_db = (Inr (Some r), t)"
    by (cases "manual_retry_with_owner 9 (JobId 3) (Some (UserId 1)) ex_db")
      (auto split: sum.splits option.splits)
  from manual_retry_copies [OF ex_db_inv run] obtain src new where
    src: "src \<in> set (jobs ex_db)" "j_id src = 3" and new: "jobs t = jobs ex_db @ [new]" "j_state new = Queued"
      "j_retry_of new = Some (j_id src)" "j_name new = j_name src" "j_started_at new = None"
    by auto
  from src have "j_name src = lit ''failed''" by (auto simp: ex_db_def default_job_def)
  with run src new show ?thesis by auto
qed

section \<open>Leases\<close>

text \<open>The rows that reclamation writes.\<close>

lemma reclaim_rows:
  assumes inv: "queue_inv s"
    and c: "first_by reclaim_key (reclaim_candidates locked as_of s) = Some (a, j)"
    and att: "update_attempts (\<lambda>r. a_id r = a_id a \<and> a_job r = j_id j \<and> expired as_of r)
           (reclaim_attempt_row cancelling as_of ms) s = (Inr hits, u)" "length hits = 1"
    and job: "reclaim_job rng as_of a j u = (Inr d, t)"
  defines "at \<equiv> as_of + seconds (min (2 ^ (nat (a_number a) - 1)) 60)"
  shows "j \<in> set (jobs s) \<and> a_job a = j_id j \<and>
     attempts t = put_row a_id (reclaim_attempt_row cancelling as_of ms a) (attempts s) \<and>
     d = (if j_state j = CancelRequested then ReclaimCancelled
          else if a_number a < j_max_attempts j then ReclaimRetryScheduled at else ReclaimFailed) \<and>
     jobs t = put_row j_id
       (if j_state j = CancelRequested then cancel_job as_of j
        else if a_number a < j_max_attempts j then retry_job at lease_expired_message j
        else fail_job as_of lease_expired_message j) (jobs s)"
proof -
  note cand = reclaim_candidate [OF c]
  from att obtain b where b: "b \<in> set (attempts s)" "a_id b = a_id a"
      "u = set_attempts (put_row a_id (reclaim_attempt_row cancelling as_of ms b) (attempts s)) s"
    unfolding update_attempts_def
    by (elim sql_update_one [where k = a_id])
      (auto simp: queue_inv_keyed [OF inv] reclaim_attempt_row_def)
  moreover have "b = a" by (rule keyed_unique [OF queue_inv_keyed(2) [OF inv] b(1) cand(1) b(2)])
  ultimately have u: "jobs u = jobs s" "attempts u = put_row a_id (reclaim_attempt_row cancelling as_of ms a) (attempts s)"
    by (simp_all add: set_table_defs)
  have k: "keyed j_id (jobs u)" "j \<in> set (jobs u)"
    using queue_inv_keyed(1) [OF inv] cand(2) u by simp_all
  have written: "jobs t = put_row j_id (G j) (jobs s) \<and> attempts t = attempts u"
    if "update_jobs Q G u = (Inr js, t)" "length js = 1" "\<And>r. Q r \<Longrightarrow> j_id r = j_id j"
      "\<And>r. j_id (G r) = j_id r" for Q G js
    using job_row_update(4) [OF k(1) that k(2) refl] u(1) by (simp add: set_table_defs)
  have "a \<in> set (attempts_of s (j_id j))" using cand by (simp add: attempts_of_def)
  then have "attempt_ok a" using job_inv_attempts [OF queue_inv_job [OF inv cand(2)]] by blast
  then have pos: "0 < a_number a" by (simp add: attempt_ok_def)
  from job show ?thesis
  proof (cases rule: reclaim_job_cases)
    case (cancelled js)
    with written [OF cancelled(3,4)] show ?thesis using cand u by simp
  next
    case (retried js n at')
    have n: "uint n = a_number a" by (rule decode_u32_uint [OF retried(3)])
    with pos have "0 < n" by (simp add: word_less_def)
    moreover have "unat n = nat (a_number a)" by (simp only: n unat_eq_nat_uint)
    ultimately have "at' = at"
      using retried(4) by (simp add: at_def checked_add_Some_iff retry_backoff_value)
    then show ?thesis
      using written [OF retried(6,7)] cand u retried(1,2,5) by simp
  next
    case (failed js)
    with written [OF failed(4,5)] show ?thesis using cand u by simp
  qed
qed

text \<open>An attempt whose lease ran out at \<open>l\<close>, at or before \<open>as_of\<close>, whose job is held and which no other
  transaction has locked.\<close>

definition reclaimable :: "(int \<Rightarrow> int \<Rightarrow> bool) \<Rightarrow> timestamp \<Rightarrow> db \<Rightarrow> attempt_row \<Rightarrow> timestamp \<Rightarrow> bool" where
  "reclaimable locked as_of s a l \<longleftrightarrow>
     a \<in> set (attempts s) \<and> a_state a = ARunning \<and> a_lease_expires_at a = Some l \<and> l \<le> as_of \<and>
     (\<exists>j \<in> set (jobs s). a_job a = j_id j \<and> j_state j \<in> {Running, CancelRequested} \<and> \<not> locked (a_id a) (j_id j))"

lemma reclaim_first:
  assumes "first_by reclaim_key (reclaim_candidates locked as_of s) = Some (a, j)"
  obtains l where "reclaimable locked as_of s a l"
    and "\<And>b m. reclaimable locked as_of s b m \<Longrightarrow> l < m \<or> l = m \<and> a_id a \<le> a_id b"
proof -
  from first_by_Some_mem [OF assms] obtain l where l: "a_lease_expires_at a = Some l" "reclaimable locked as_of s a l"
    by (auto simp: reclaim_candidates_def reclaimable_def expired_def held_states_def)
  have "l < m \<or> l = m \<and> a_id a \<le> a_id b" if b: "reclaimable locked as_of s b m" for b m
  proof -
    from b obtain k where "(b, k) \<in> set (reclaim_candidates locked as_of s)"
      by (auto simp: reclaim_candidates_def reclaimable_def expired_def held_states_def)
    from first_by_least [OF assms this] show ?thesis
      using b l(1) by (auto simp: reclaim_key_def lease_of_def reclaimable_def)
  qed
  with l(2) show thesis by (rule that)
qed

text \<open>C12. Reclamation takes an attempt whose lease has run out (of those whose job is held and which nobody has locked,
  the one with the earliest lease, and of these the one with the least identifier), closes it as failed, or as cancelled
  if that was requested, with the time since its start, and moves its job on: a pending cancellation is carried
  out, a job with attempts left waits for a retry after the backoff with its progress reset, a job without fails.
  No other attempt and no other job changes.\<close>

theorem reclaim_decides:
  assumes inv: "queue_inv s"
    and run: "reclaim_next_expired_attempt_at locked rng as_of s = (Inr (Some r), t)"
  shows "\<exists>a l. \<exists>j \<in> set (jobs s). \<exists>cancelling at.
     reclaimable locked as_of s a l \<and>
     (\<forall>b m. reclaimable locked as_of s b m \<longrightarrow> l < m \<or> l = m \<and> a_id a \<le> a_id b) \<and>
     a_id a = ra_attempt_id r \<and> a_worker a = Some (ra_worker_id r) \<and> a_job a = j_id j \<and>
     cancelling = (j_state j = CancelRequested) \<and>
     attempts t = put_row a_id
       (a\<lparr>a_state := (if cancelling then ACancelled else AFailed), a_finished_at := Some as_of,
          a_duration_ms := Some (max 0 (whole_milliseconds (as_of - a_started_at a))),
          a_error_kind := Some (if cancelling then lit ''cancelled'' else lit ''transient''),
          a_error_message := Some (if cancelling then lease_expired_cancel_message else lease_expired_message)\<rparr>)
       (attempts s) \<and>
     at = as_of + seconds (min (2 ^ (nat (a_number a) - 1)) 60) \<and>
     ra_disposition r =
       (if cancelling then ReclaimCancelled else if a_number a < j_max_attempts j then ReclaimRetryScheduled at
        else ReclaimFailed) \<and>
     jobs t = put_row j_id
       (if cancelling then
          j\<lparr>j_state := Cancelled, j_result_message := None, j_result_duration_ms := None,
            j_failure_message := None, j_finished_at := Some as_of\<rparr>
        else if a_number a < j_max_attempts j then
          j\<lparr>j_state := RetryWaiting, j_available_at := at, j_progress_completed := 0,
            j_failure_message := Some lease_expired_message, j_result_message := None,
            j_result_duration_ms := None, j_finished_at := None\<rparr>
        else
          j\<lparr>j_state := Failed, j_failure_message := Some lease_expired_message, j_result_message := None,
            j_result_duration_ms := None, j_finished_at := Some as_of\<rparr>) (jobs s)"
proof -
  from run obtain a j worker d where
    body: "reclaim_body locked rng as_of s = (Inr (Some (a, j, worker, d)), t)"
    and r: "ra_attempt_id r = a_id a" "ra_worker_id r = worker" "ra_disposition r = d"
    by (auto simp: reclaim_next_expired_attempt_at_def tx_bind_Inr_iff tx_returns transaction_Inr_iff
        split: option.splits prod.splits)
  show ?thesis
  proof (rule reclaim_body_Some [OF body])
    fix ms hits u
    assume c: "first_by reclaim_key (reclaim_candidates locked as_of s) = Some (a, j)"
      and w: "a_worker a = Some worker" and ms: "elapsed_milliseconds (a_started_at a) as_of = Inr ms"
      and att: "update_attempts (\<lambda>r. a_id r = a_id a \<and> a_job r = j_id j \<and> expired as_of r)
           (reclaim_attempt_row (j_state j = CancelRequested) as_of ms) s = (Inr hits, u)" "length hits = 1"
      and job: "reclaim_job rng as_of a j u = (Inr d, t)"
    from reclaim_first [OF c] obtain l where l: "reclaimable locked as_of s a l"
      "\<forall>b m. reclaimable locked as_of s b m \<longrightarrow> l < m \<or> l = m \<and> a_id a \<le> a_id b" by blast
    note written = reclaim_rows [OF inv c att job]
    have "ms = max 0 (whole_milliseconds (as_of - a_started_at a))"
      using ms by (simp add: elapsed_milliseconds_def)
    then show ?thesis
      using l w r written
      by (intro exI [of _ a] exI [of _ l] bexI [of _ j] exI [of _ "j_state j = CancelRequested"]
          exI [of _ "as_of + seconds (min (2 ^ (nat (a_number a) - 1)) 60)"])
        (simp_all add: reclaim_attempt_row_def cancel_job_def retry_job_def fail_job_def)
  qed
qed

lemmas [evaluate] =
  reclaim_next_expired_attempt_at_def reclaim_body_def reclaim_candidates_def expired_def reclaim_key_def
  reclaim_job_def finish_reclaimed_cancel_def schedule_reclaimed_retry_def fail_reclaimed_job_def
  elapsed_milliseconds_def reclaim_attempt_row_def checked_add_def retry_job_def cancel_job_def
  fail_job_def retry_backoff_value lease_of_def

theorem reclaim_decides_witness:
  "\<exists>r t a. reclaim_next_expired_attempt_at (\<lambda>_ _. False) (\<lambda>_. True) (seconds 31) ex_db = (Inr (Some r), t) \<and>
     ra_attempt_id r = 1 \<and> reclaimable (\<lambda>_ _. False) (seconds 31) ex_db a (seconds 30) \<and> a_id a = 1 \<and>
     List.map j_state (jobs t) = [Queued, RetryWaiting, Failed, CancelRequested, Queued]"
proof -
  let ?run = "reclaim_next_expired_attempt_at (\<lambda>_ _. False) (\<lambda>_. True) (seconds 31) ex_db"
  have "case fst ?run of Inr (Some r) \<Rightarrow> ra_attempt_id r = 1 | _ \<Rightarrow> False"
    by (simp add: evaluate)
  then obtain r t where run: "?run = (Inr (Some r), t)" and r: "ra_attempt_id r = 1"
    by (cases ?run) (auto split: sum.splits option.splits)
  from reclaim_decides [OF ex_db_inv run] obtain a l and j :: job_row and k :: job_row where
    a: "reclaimable (\<lambda>_ _. False) (seconds 31) ex_db a l" "a_id a = ra_attempt_id r"
    and j: "j \<in> set (jobs ex_db)" "a_job a = j_id j"
    and t: "jobs t = put_row j_id k (jobs ex_db)"
    and k: "j_id k = j_id j" "j_state j \<noteq> CancelRequested \<and> a_number a < j_max_attempts j \<longrightarrow> j_state k = RetryWaiting"
    by (elim exE bexE conjE) (rule that, assumption+, simp_all)
  from a r have "a = ex_attempt 1 2 ARunning 42" "l = seconds 30"
    by (auto simp: reclaimable_def ex_db_def ex_attempt_def)
  moreover from j this have "j_id j = 2" "j_state j = Running" "j_max_attempts j = 3"
    by (auto simp: ex_db_def ex_attempt_def default_job_def)
  ultimately have "List.map j_state (jobs t) = [Queued, RetryWaiting, Failed, CancelRequested, Queued]"
    using t k by (simp add: ex_attempt_def put_row_def ex_db_def default_job_def)
  with run r a \<open>l = seconds 30\<close> show ?thesis by (intro exI [of _ r] exI [of _ t] exI [of _ a]) simp
qed

end
