(* ===== verification/ImageProps.thy ===== *)
theory ImageProps
  imports LifecycleProps
begin

text \<open>
  Properties of image jobs: completion publishes one output per input together with the outcome, and a
  repeated creation request finds the job it created.
\<close>

section \<open>Publication\<close>

text \<open>The artifact row that publishes an output of an attempt.\<close>

definition publishes :: "timestamp \<Rightarrow> int \<Rightarrow> int \<Rightarrow> pending_output_artifact \<Rightarrow> artifact_row \<Rightarrow> bool" where
  "publishes now job attempt out f \<longleftrightarrow>
     f_kind f = Output \<and> f_job f = job \<and> f_attempt f = Some attempt \<and>
     f_source f = Some (uint (po_source_artifact_id out)) \<and> f_item_index f = uint (po_item_index out) \<and>
     f_storage_key f = po_storage_key out \<and> f_display_name f = po_display_name out \<and>
     f_media_type f = po_media_type out \<and> f_byte_size f = uint (po_byte_size out) \<and>
     f_width f = uint (po_width out) \<and> f_height f = uint (po_height out) \<and> f_created_at f = now \<and> artifact_ok f"

definition input_for :: "int \<Rightarrow> pending_output_artifact \<Rightarrow> artifact_row \<Rightarrow> bool" where
  "input_for job out f \<longleftrightarrow>
     f_id f = uint (po_source_artifact_id out) \<and> f_job f = job \<and> f_kind f = Input \<and>
     f_item_index f = uint (po_item_index out)"

lemma insert_output_Inr:
  assumes "insert_output_artifact now job attempt out s = (Inr x, t)"
  shows "\<exists>src f. src \<in> set (artifacts s) \<and> input_for job out src \<and> publishes now job attempt out f \<and>
    (\<forall>g \<in> set (artifacts s). f_job g = job \<and> f_kind g = Output \<longrightarrow> f_item_index g \<noteq> f_item_index f) \<and>
    artifacts t = artifacts s @ [f] \<and> jobs t = jobs s \<and> attempts t = attempts s"
proof -
  obtain index bytes w h source where
    v: "index = uint (po_item_index out)" "encode_u64 (po_byte_size out) ''output byte size'' = Inr bytes"
      "w = uint (po_width out)" "h = uint (po_height out)"
      "encode_u64 (po_source_artifact_id out) ''source artifact ID'' = Inr source"
    and one: "length (filter (\<lambda>f. f_id f = source \<and> f_job f = job \<and> f_kind f = Input \<and> f_item_index f = index)
               (artifacts s)) = 1"
    and ins: "tx_for (\<lambda>f. tx_bind (insert_artifact (output_row now job attempt (f_id f) index out bytes w h))
                 (\<lambda>_. tx_return ()))
               (filter (\<lambda>f. f_id f = source \<and> f_job f = job \<and> f_kind f = Input \<and> f_item_index f = index)
                 (artifacts s)) s = (Inr (), t)"
    using assms unfolding insert_output_artifact_def
    by (auto simp: tx_bind_Inr_iff tx_returns)
  from one obtain src where
    src: "filter (\<lambda>f. f_id f = source \<and> f_job f = job \<and> f_kind f = Input \<and> f_item_index f = index) (artifacts s) = [src]"
    by (auto simp: length_Suc_conv)
  then have mem: "src \<in> set (artifacts s)" "f_id src = source" "f_job src = job" "f_kind src = Input"
      "f_item_index src = index"
    by (auto dest!: arg_cong [where f = set])
  from ins src obtain f where f: "insert_artifact (output_row now job attempt (f_id src) index out bytes w h) s = (Inr f, t)"
    by (auto simp: tx_ignored tx_bind_Inr_iff tx_returns)
  note row = insert_artifact_Inr [OF f]
  have b: "bytes = uint (po_byte_size out)" "source = uint (po_source_artifact_id out)"
    using v by (simp_all add: encode_u64_def split: if_splits)
  have fresh: "\<forall>g \<in> set (artifacts s). f_job g = job \<and> f_kind g = Output \<longrightarrow> f_item_index g \<noteq> f_item_index f"
    using f row(1) by (auto simp: insert_artifact_def sql_insert_Inr_iff artifact_insert_error_def output_row_def
        split: if_splits)
  have "publishes now job attempt out f"
    using row(1,2) v b mem(2) by (simp add: publishes_def output_row_def)
  with mem v b fresh row(3) show ?thesis
    by (intro exI [of _ src] exI [of _ f]) (simp add: input_for_def)
qed

lemma publish_outputs:
  assumes "tx_for (insert_output_artifact now job attempt) outputs s = (Inr x, t)"
  shows "\<exists>new. artifacts t = artifacts s @ new \<and> list_all2 (publishes now job attempt) outputs new \<and>
    list_all (\<lambda>out. \<exists>src \<in> set (artifacts s). input_for job out src) outputs \<and>
    distinct (List.map f_item_index new) \<and>
    (\<forall>f \<in> set new. \<forall>g \<in> set (artifacts s). f_job g = job \<and> f_kind g = Output \<longrightarrow> f_item_index g \<noteq> f_item_index f) \<and>
    jobs t = jobs s \<and> attempts t = attempts s"
  using assms
proof (induction outputs arbitrary: s)
  case Nil
  then show ?case by (simp add: tx_returns)
next
  case (Cons out outputs)
  from Cons.prems obtain u where one: "insert_output_artifact now job attempt out s = (Inr (), u)"
    and rest: "tx_for (insert_output_artifact now job attempt) outputs u = (Inr x, t)"
    by (auto simp: tx_bind_Inr_iff)
  from insert_output_Inr [OF one] obtain src f where
    f: "src \<in> set (artifacts s)" "input_for job out src" "publishes now job attempt out f"
      "\<forall>g \<in> set (artifacts s). f_job g = job \<and> f_kind g = Output \<longrightarrow> f_item_index g \<noteq> f_item_index f"
      "artifacts u = artifacts s @ [f]" "jobs u = jobs s" "attempts u = attempts s" by blast
  from Cons.IH [OF rest] obtain new where
    new: "artifacts t = artifacts u @ new" "list_all2 (publishes now job attempt) outputs new"
      "list_all (\<lambda>out. \<exists>src \<in> set (artifacts u). input_for job out src) outputs" "distinct (List.map f_item_index new)"
      "\<forall>g' \<in> set new. \<forall>g \<in> set (artifacts u). f_job g = job \<and> f_kind g = Output \<longrightarrow> f_item_index g \<noteq> f_item_index g'"
      "jobs t = jobs u" "attempts t = attempts u" by blast
  have kind: "f_kind f = Output" "f_job f = job" using f(3) by (simp_all add: publishes_def)
  have "\<forall>out. input_for job out f \<longrightarrow> False" using kind by (simp add: input_for_def)
  then have "list_all (\<lambda>out. \<exists>src \<in> set (artifacts s). input_for job out src) outputs"
    using new(3) f(5) by (auto simp: list_all_iff)
  moreover have "f_item_index f \<notin> f_item_index ` set new"
    using new(5) f(5) kind by fastforce
  ultimately show ?case
    using f new by (intro exI [of _ "f # new"]) auto
qed

lemma completion_publishes_outputs_rows:
  assumes inv: "queue_inv s" and run: "complete_image_job now c dur outputs s = (Inr (), t)"
  shows "\<exists>j \<in> set (jobs s). \<exists>a \<in> set (attempts s). \<exists>new width quality inputs.
     j_id j = uint (job_id_get (cj_job_id c)) \<and> j_state j = Running \<and> attempt_held now c (j_id j) a \<and>
     cj_work c = WImageResize width quality inputs \<and> length outputs = length inputs \<and>
     artifacts t = artifacts s @ new \<and> list_all2 (publishes now (j_id j) (a_id a)) outputs new \<and>
     list_all (\<lambda>out. \<exists>src \<in> set (artifacts s). input_for (j_id j) out src) outputs \<and>
     distinct (List.map f_item_index new) \<and>
     attempts t = put_row a_id (succeed_attempt now (as_millis dur) a) (attempts s) \<and>
     jobs t = put_row j_id (succeed_job now (as_millis dur) (images_message (length inputs)) j) (jobs s)"
proof -
  from run obtain width quality inputs ms i where
    work: "cj_work c = WImageResize width quality inputs" "length outputs = length inputs"
    and ms: "encode_duration dur = Inr ms" and i: "encode_job_id (cj_job_id c) = Inr i"
    and body: "complete_image_body now c (length inputs) i ms outputs s = (Inr (), t)"
    by (auto simp: complete_image_job_def tx_bind_Inr_iff tx_returns transaction_Inr_iff
        split: claimed_work.splits if_splits)
  have ids: "i = uint (job_id_get (cj_job_id c))" "ms = as_millis dur"
    using encode_job_id_uint [OF i] ms by (simp_all add: encode_duration_def)
  from body obtain u as v js where
    out: "tx_for (insert_output_artifact now i (cj_attempt_id c)) outputs s = (Inr (), u)"
    and att: "update_attempts (attempt_held now c i) (succeed_attempt now ms) u = (Inr as, v)" "length as = 1"
    and job: "update_jobs (\<lambda>r. j_id r = i \<and> j_state r = Running \<and> j_type r = ImageResize)
        (succeed_job now ms (images_message (length inputs))) v = (Inr js, t)" "length js = 1"
    by (auto simp: complete_image_body_def lock_active_claim_def complete_attempt_def
        tx_bind_Inr_iff tx_returns split: if_splits)
  have "keeps queue_inv (tx_for (insert_output_artifact now i (cj_attempt_id c)) outputs)"
    by (intro keeps_for insert_artifacts_keep)
  then have u: "queue_inv u" using inv out by (rule keepsD)
  from publish_outputs [OF out] obtain new where new:
    "artifacts u = artifacts s @ new" "list_all2 (publishes now i (cj_attempt_id c)) outputs new"
    "list_all (\<lambda>out. \<exists>src \<in> set (artifacts s). input_for i out src) outputs"
    "distinct (List.map f_item_index new)" "jobs u = jobs s" "attempts u = attempts s" by blast
  show ?thesis
  proof (rule claim_write_rows [OF u att job], goal_cases)
    case (4 a j)
    then have "a_id a = cj_attempt_id c" by (simp add: attempt_held_def)
    with 4 new work ids show ?case
      by (intro bexI [of _ j] bexI [of _ a] exI [of _ new] exI [of _ width] exI [of _ quality] exI [of _ inputs]) simp_all
  qed (simp_all add: succeed_attempt_def succeed_job_def)
qed

text \<open>C25. Completing an image job succeeds only under the live claim of a running job. It appends one artifact for
  each input of the claim, made from an input of that job and with a position of its own, closes the attempt
  as succeeded, and ends the job as succeeded with full progress; nothing else changes.\<close>
theorem completion_publishes_outputs:
  assumes inv: "queue_inv s" and run: "complete_image_job now c dur outputs s = (Inr (), t)"
  shows "\<exists>j \<in> set (jobs s). \<exists>a \<in> set (attempts s). \<exists>new width quality inputs.
     j_id j = uint (job_id_get (cj_job_id c)) \<and> j_state j = Running \<and> attempt_held now c (j_id j) a \<and>
     cj_work c = WImageResize width quality inputs \<and> length outputs = length inputs \<and>
     artifacts t = artifacts s @ new \<and> list_all2 (publishes now (j_id j) (a_id a)) outputs new \<and>
     list_all (\<lambda>out. \<exists>src \<in> set (artifacts s). input_for (j_id j) out src) outputs \<and>
     distinct (List.map f_item_index new) \<and>
     attempts t = put_row a_id (succeed_attempt now (as_millis dur) a) (attempts s) \<and>
     jobs t = put_row j_id (succeed_job now (as_millis dur) (images_message (length inputs)) j) (jobs s)"
  by (rule completion_publishes_outputs_rows [OF inv run])

definition ex_image_db :: db where
  "ex_image_db =
     ex_db\<lparr>jobs :=
        [default_job 0 2 (lit ''images'')
           \<lparr>j_type := ImageResize, j_max_width := Some 2, j_jpeg_quality := Some 90,
            j_state := Running, j_started_at := Some 0\<rparr>],
      attempts := [ex_attempt 1 2 ARunning 42],
      artifacts :=
        [\<lparr>f_id = 1, f_job = 2, f_attempt = None, f_source = None, f_kind = Input, f_item_index = 0,
          f_storage_key = lit ''a'', f_display_name = lit ''a.png'', f_media_type = lit ''image/png'',
          f_byte_size = 1, f_width = 4, f_height = 2, f_created_at = 0, f_checksum = None\<rparr>]\<rparr>"

definition ex_image_claim :: claimed_job where
  "ex_image_claim = (ex_claim 2 1 42)\<lparr>cj_work := WImageResize 2 90
     [\<lparr>art_id = 1, art_job_id = JobId 2, art_attempt_id = None, art_source_id = None, art_kind = Input,
       art_item_index = 0, art_storage_key = lit ''a'', art_display_name = lit ''a.png'',
       art_media_type = lit ''image/png'', art_byte_size = 1, art_width = 4, art_height = 2, art_created_at = 0\<rparr>]\<rparr>"

definition ex_output :: pending_output_artifact where
  "ex_output =
     \<lparr>po_source_artifact_id = 1, po_item_index = 0, po_storage_key = lit ''b'', po_display_name = lit ''a.jpg'',
      po_media_type = lit ''image/jpeg'', po_byte_size = 2, po_width = 2, po_height = 1\<rparr>"

lemmas [evaluate] =
  ex_image_db_def ex_image_claim_def ex_output_def image_media_types_def
  complete_image_job_def complete_image_body_def lock_active_claim_def insert_output_artifact_def output_row_def
  complete_attempt_def images_message_def encode_duration_def encode_u64_def

lemma ex_image_db_inv: "queue_inv ex_image_db"
  by (simp add: evaluate)

theorem completion_publishes_outputs_witness:
  "\<exists>t new. complete_image_job 100 ex_image_claim 0 [ex_output] ex_image_db = (Inr (), t) \<and>
     artifacts t = artifacts ex_image_db @ [new] \<and> f_storage_key new = lit ''b'' \<and>
     List.map j_state (jobs t) = [Succeeded]"
proof -
  obtain t where run: "complete_image_job 100 ex_image_claim 0 [ex_output] ex_image_db = (Inr (), t)"
    and state: "List.map j_state (jobs t) = [Succeeded]"
    by (simp add: evaluate)
  from completion_publishes_outputs [OF ex_image_db_inv run]
  have "\<exists>i k new. artifacts t = artifacts ex_image_db @ new \<and> list_all2 (publishes 100 i k) [ex_output] new"
    by blast
  with run state show ?thesis
    by (auto simp: list_all2_Cons1 publishes_def ex_output_def)
qed

section \<open>Idempotent creation\<close>

lemma insert_inputs_keep_jobs:
  assumes "tx_for (\<lambda>(index, input).
         tx_bind (tx_ok_or e (to_signed i16_range (int index)))
           (\<lambda>index. insert_input_artifact now job index input)) inputs s = (Inr x, t)"
  shows "jobs t = jobs s \<and> attempts t = attempts s"
  using assms
proof (induction inputs arbitrary: s)
  case (Cons p inputs)
  obtain k inp where p: "p = (k, inp)" by fastforce
  from Cons.prems [unfolded p tx_for.simps prod.case] obtain x' u where
    one: "tx_bind (tx_ok_or e (to_signed i16_range (int k))) (\<lambda>index. insert_input_artifact now job index inp) s = (Inr x', u)"
    and rest: "tx_for (\<lambda>(index, input). tx_bind (tx_ok_or e (to_signed i16_range (int index)))
           (\<lambda>index. insert_input_artifact now job index input)) inputs u = (Inr x, t)"
    by (rule tx_bind_InrE)
  from one obtain bytes w h r where r: "insert_artifact (input_row now job (int k) inp bytes w h) s = (Inr r, u)"
    by (auto simp: tx_bind_Inr_iff tx_returns insert_input_artifact_def)
  from Cons.IH [OF rest] insert_artifact_Inr(3) [OF r] show ?case by simp
qed (simp add: tx_returns)

definition found_again :: "db \<Rightarrow> user_id \<Rightarrow> idempotency_request \<Rightarrow> job_row \<Rightarrow> bool" where
  "found_again t owner i row \<longleftrightarrow>
     idempotent_row owner (ir_key i) t = Some row \<and> fingerprint_of row = Inr (ir_fingerprint i) \<and>
     row \<in> set (jobs t) \<and> j_owner row = user_id_get owner"

lemma idempotent_row_mem:
  "idempotent_row owner key s = Some row \<Longrightarrow>
     row \<in> set (jobs s) \<and> j_owner row = user_id_get owner \<and> j_idempotency_key row = Some key"
  by (auto simp: idempotent_row_def dest!: fetch_optional_filter_Some)

lemma create_body_found:
  assumes run: "create_image_job_body now r s = (Inr created, t)" and i: "nj_idempotency r = Some i"
  shows "\<exists>row. found_again t (nj_owner_user_id r) i row \<and>
     (created = ExistingJob (j_id row) \<or> created = CreatedJob (j_id row))"
proof (cases "idempotent_row (nj_owner_user_id r) (ir_key i) s")
  case (Some row)
  with run i idempotent_row_mem [OF Some] show ?thesis
    by (auto simp: create_image_job_body_def tx_bind_Inr_iff tx_returns found_again_def split: if_splits)
next
  case None
  with run i obtain job u x total width where
    ins: "insert_job (image_job_row now r total width) s = (Inr job, u)"
    and inputs: "tx_for (\<lambda>(index, input).
         tx_bind (tx_ok_or (InvalidData ''item index exceeds SMALLINT'') (to_signed i16_range (int index)))
           (\<lambda>index. insert_input_artifact now (j_id job) index input)) (enumerate 0 (nj_inputs r)) u = (Inr x, t)"
    and created: "created = CreatedJob (j_id job)"
    by (auto simp: create_image_job_body_def tx_bind_Inr_iff tx_returns)
  have jobs: "jobs t = jobs s @ [job]"
    using insert_job_Inr(4) [OF ins] insert_inputs_keep_jobs [OF inputs] by simp
  have job: "j_owner job = user_id_get (nj_owner_user_id r)" "j_idempotency_key job = Some (ir_key i)"
    "j_fingerprint job = Some (ir_fingerprint i)"
    using insert_job_Inr(1) [OF ins] i by (simp_all add: image_job_row_def)
  have "idempotent_row (nj_owner_user_id r) (ir_key i) t = Some job"
    using None job by (auto simp: idempotent_row_def jobs fetch_optional_None_iff fetch_optional_Some_iff)
  with job jobs created show ?thesis by (auto simp: found_again_def fingerprint_of_def)
qed

lemma create_body_again:
  assumes "found_again t (nj_owner_user_id r) i row" and "nj_idempotency r = Some i'" "ir_key i' = ir_key i"
    and "new_image_job_validate r = Inr ()"
  shows "create_image_job_body now r t =
     (if ir_fingerprint i' = ir_fingerprint i then Inr (ExistingJob (j_id row)) else Inl IdempotencyConflict, t)"
proof -
  have "i32_range (int (length (nj_inputs r)))"
    using assms(4) by (auto simp: new_image_job_validate_def max_files_per_job_def i32_range_def split: if_splits)
  moreover have "uint (nj_max_width r) \<le> 8192"
    using assms(4) by (auto simp: new_image_job_validate_def max_output_width_def word_less_def not_less split: if_splits)
  then have "i32_range (uint (nj_max_width r))"
    by (auto simp: i32_range_def intro: order_trans [OF _ uint_ge_0])
  ultimately show ?thesis
    using assms(1-3)
    by (auto simp: create_image_job_body_def tx_bind_def tx_returns to_signed_def found_again_def)
qed

lemma get_with_owner_of_row:
  assumes "keyed j_id (jobs t)" and "row \<in> set (jobs t)" and "j_owner row = user_id_get owner"
    and "decode_job_id (j_id row) = Inr i"
  shows "get_with_owner i (Some owner) t = get_with_owner i None t"
proof -
  have "encode_job_id i = Inr (j_id row)"
    using assms(4) by (auto simp: decode_job_id_Inr_iff encode_job_id_Inr_iff uint_word_of_int i64_range_def)
  moreover have "filter (\<lambda>r. j_id r = j_id row \<and> owned_by (Some owner) (j_owner r)) (jobs t) =
      filter (\<lambda>r. j_id r = j_id row \<and> owned_by None (j_owner r)) (jobs t)"
    using keyed_unique [OF assms(1) _ assms(2)] assms(3) by (intro filter_cong) (auto simp: owned_by_def)
  ultimately show ?thesis by (simp add: get_with_owner_def tx_bind_def tx_returns)
qed

text \<open>C26. A creation request with an idempotency key that is sent again, at any later time, creates nothing: with
  the same fingerprint it returns the record of the job the first request returned, with another one it is
  refused as a conflict, and the database does not change.\<close>
theorem creation_is_idempotent:
  assumes inv: "queue_inv s" and name: "job_name_new n = Inr (nj_name r)"
    and run: "create_image_job now r s = (Inr rec, t)" and i: "nj_idempotency r = Some i"
    and again: "nj_owner_user_id r' = nj_owner_user_id r" "nj_idempotency r' = Some i'" "ir_key i' = ir_key i"
      "new_image_job_validate r' = Inr ()"
  shows "create_image_job later r' t =
     (if ir_fingerprint i' = ir_fingerprint i then Inr rec else Inl IdempotencyConflict, t)"
proof -
  from run obtain created u where
    body: "create_image_job_body now r s = (Inr created, u)"
    and tail: "(case created of
       ExistingJob job_id \<Rightarrow>
         tx_bind (tx_lift (decode_job_id job_id)) (\<lambda>i.
         tx_bind (get_with_owner i (Some (nj_owner_user_id r))) (\<lambda>found.
         tx_ok_or (StateConflict ''read idempotent image job'') found))
     | CreatedJob job_id \<Rightarrow>
         tx_bind (tx_lift (decode_job_id job_id)) (\<lambda>i.
         tx_bind (get_with_owner i None) (\<lambda>found.
         tx_ok_or (StateConflict ''read created image job'') found))) u = (Inr rec, t)"
    by (auto simp: create_image_job_def tx_bind_Inr_iff tx_returns transaction_Inr_iff)
  from create_body_found [OF body i] obtain row where row: "found_again u (nj_owner_user_id r) i row"
    and created: "created = ExistingJob (j_id row) \<or> created = CreatedJob (j_id row)" by blast
  have k: "keyed j_id (jobs u)"
    by (rule queue_inv_keyed, rule keepsD [OF create_image_job_body_keeps [OF name] inv body])
  from created tail obtain j where j: "decode_job_id (j_id row) = Inr j"
    by (cases "decode_job_id (j_id row)") (auto simp: tx_bind_def tx_returns)
  have same: "get_with_owner j (Some (nj_owner_user_id r)) u = get_with_owner j None u"
    using row j by (intro get_with_owner_of_row [OF k]) (auto simp: found_again_def)
  from created tail j obtain u' where get: "get_with_owner j None u = (Inr (Some rec), u')" and tu: "t = u'"
    by (auto simp: tx_bind_Inr_iff tx_returns same)
  with get_with_owner_same [OF get] have t: "t = u" "u' = u" by simp_all
  note second = create_body_again [OF row [folded again(1)] again(2-4), of later]
  show ?thesis
    using get j t(2)
    by (auto simp: create_image_job_def again(1,4) tx_bind_def tx_returns transaction_def second t same)
qed

definition ex_new_job :: "u8 \<Rightarrow> new_image_job" where
  "ex_new_job v =
     \<lparr>nj_owner_user_id = UserId 1, nj_name = JobName (lit ''n''), nj_max_width = 800, nj_jpeg_quality = 80,
      nj_available_at = None, nj_priority = Normal,
      nj_inputs = [\<lparr>ni_storage_key = lit ''inputs/a/b'', ni_display_name = lit ''a.png'',
        ni_media_type = lit ''image/png'', ni_byte_size = 9, ni_width = 4, ni_height = 2,
        ni_checksum_sha256 = replicate 32 0\<rparr>],
      nj_idempotency = Some \<lparr>ir_key = lit ''key'', ir_fingerprint = replicate 32 v\<rparr>\<rparr>"

lemmas [evaluate] =
  ex_new_job_def create_image_job_def create_image_job_body_def new_image_job_validate_def max_files_per_job_def
  max_output_width_def idempotency_invalid_def idempotent_row_def fingerprint_of_def image_job_row_def
  insert_input_artifact_def input_row_def decode_job_id_def decode_u64_def job_id_new_def i64_max_as_u64_def
  byte_len_def utf8_width_def artifact_try_from_def select_artifact_def decode_u8_def decode_u16_def decode_u32_def
  replicate_eq_replicate artifact_kind_from_str_def

lemma ex_created: "\<exists>rec t. create_image_job 5 (ex_new_job 1) ex_db = (Inr rec, t)"
proof -
  have "case fst (create_image_job 5 (ex_new_job 1) ex_db) of Inr rec \<Rightarrow> True | Inl e \<Rightarrow> False"
    by (simp add: evaluate)
  then show ?thesis by (cases "create_image_job 5 (ex_new_job 1) ex_db") (auto split: sum.splits)
qed

theorem creation_is_idempotent_witness:
  "\<exists>rec t. create_image_job 5 (ex_new_job 1) ex_db = (Inr rec, t) \<and>
     create_image_job 9 (ex_new_job 1) t = (Inr rec, t) \<and>
     create_image_job 9 (ex_new_job 2) t = (Inl IdempotencyConflict, t)"
proof -
  obtain rec t where run: "create_image_job 5 (ex_new_job 1) ex_db = (Inr rec, t)" using ex_created by blast
  have name: "job_name_new (lit ''n'') = Inr (nj_name (ex_new_job 1))"
    by (simp add: evaluate job_name_new_Inr_iff max_job_name_length_def)
  have i: "nj_idempotency (ex_new_job v) = Some \<lparr>ir_key = lit ''key'', ir_fingerprint = replicate 32 v\<rparr>" for v
    by (simp add: ex_new_job_def)
  have valid: "new_image_job_validate (ex_new_job v) = Inr ()" for v
    by (simp add: evaluate)
  have o: "nj_owner_user_id (ex_new_job v) = nj_owner_user_id (ex_new_job 1)" for v by (simp add: ex_new_job_def)
  have "create_image_job 9 (ex_new_job v) t =
      (if (replicate 32 v :: u8 list) = replicate 32 1 then Inr rec else Inl IdempotencyConflict, t)" for v
    using creation_is_idempotent [OF ex_db_inv name run i o i _ valid, of v 9] by simp
  from this [of 1] this [of 2] run show ?thesis by (auto simp: replicate_eq_replicate)
qed

end
