(* ===== verification/RateLimit.thy ===== *)
theory RateLimit
  imports Prelude
begin

text \<open>
  The sliding-window rate limiter of the API (\<open>apps/api/src/rate_limit.rs\<close>). The state maps each key
  that has made requests to the queue of the times at which its requests were let through; the map is an
  association list without duplicate keys. A call reads the clock before it waits for the mutex of the
  state: the time it read is an argument, and the calls of a run take their steps in the order of the mutex,
  so that their times need not be in order, although the clock never runs backwards.
\<close>

definition max_tracked_keys :: nat where
  "max_tracked_keys = 1024"

record rate_limiter =
  rl_state :: "(ustring \<times> timestamp list) list"
  rl_limit :: nat
  rl_window :: duration

definition rate_limiter_new :: "nat \<Rightarrow> duration \<Rightarrow> rate_limiter" where
  "rate_limiter_new limit window = \<lparr>rl_state = [], rl_limit = limit, rl_window = window\<rparr>"

text \<open>\<open>Instant::duration_since\<close> is zero when the argument is later.\<close>

definition duration_since :: "timestamp \<Rightarrow> timestamp \<Rightarrow> duration" where
  "duration_since later earlier = nat (later - earlier)"

definition drop_expired :: "timestamp \<Rightarrow> duration \<Rightarrow> timestamp list \<Rightarrow> timestamp list" where
  "drop_expired now window ts = dropWhile (\<lambda>t. duration_since now t \<ge> window) ts"

definition prune :: "timestamp \<Rightarrow> duration \<Rightarrow> (ustring \<times> timestamp list) list \<Rightarrow> (ustring \<times> timestamp list) list" where
  "prune now window m =
     filter (\<lambda>(k, ts). ts \<noteq> []) (List.map (\<lambda>(k, ts). (k, drop_expired now window ts)) m)"

text \<open>\<open>entry(key).or_default()\<close>, and appending to the queue of a key.\<close>

definition entry_or_default :: "ustring \<Rightarrow> (ustring \<times> timestamp list) list \<Rightarrow> (ustring \<times> timestamp list) list" where
  "entry_or_default key m = (case map_of m key of None \<Rightarrow> m @ [(key, [])] | Some _ \<Rightarrow> m)"

definition push :: "ustring \<Rightarrow> timestamp \<Rightarrow> (ustring \<times> timestamp list) list \<Rightarrow> (ustring \<times> timestamp list) list" where
  "push key now m = List.map (\<lambda>(k, ts). (k, if k = key then ts @ [now] else ts)) m"

definition queue_of :: "ustring \<Rightarrow> (ustring \<times> timestamp list) list \<Rightarrow> timestamp list" where
  "queue_of key m = (case map_of m key of None \<Rightarrow> [] | Some ts \<Rightarrow> ts)"

definition check :: "timestamp \<Rightarrow> ustring \<Rightarrow> rate_limiter \<Rightarrow> (duration + unit) \<times> rate_limiter" where
  "check now key l =
     (let m = prune now (rl_window l) (rl_state l)
      in if map_of m key = None \<and> length m \<ge> max_tracked_keys then (Inl (rl_window l), l\<lparr>rl_state := m\<rparr>)
         else let m = entry_or_default key m; attempts = queue_of key m
              in if length attempts \<ge> rl_limit l
                 then (Inl (case attempts of [] \<Rightarrow> rl_window l
                            | t # _ \<Rightarrow> rl_window l - duration_since now t),
                       l\<lparr>rl_state := m\<rparr>)
                 else (Inr (), l\<lparr>rl_state := push key now m\<rparr>))"

text \<open>A run of the limiter: the outcomes of a sequence of calls, each with the time it read, in the order in which they
  got the mutex.\<close>

fun run_checks :: "(timestamp \<times> ustring) list \<Rightarrow> rate_limiter \<Rightarrow> (duration + unit) list \<times> rate_limiter" where
  "run_checks [] l = ([], l)"
| "run_checks ((now, key) # calls) l =
     (let (r, l') = check now key l; (rs, l'') = run_checks calls l' in (r # rs, l''))"

definition allowed :: "ustring \<Rightarrow> (timestamp \<times> ustring) list \<Rightarrow> (duration + unit) list \<Rightarrow> timestamp list" where
  "allowed key calls rs = List.map (fst \<circ> fst) (filter (\<lambda>((now, k), r). k = key \<and> r = Inr ()) (zip calls rs))"

section \<open>The state\<close>

lemma keys_prune: "set (List.map fst (prune now w m)) \<subseteq> set (List.map fst m)"
  by (force simp: prune_def)

lemma distinct_prune: "distinct (List.map fst m) \<Longrightarrow> distinct (List.map fst (prune now w m))"
  unfolding prune_def by (induction m) (auto, force)

lemma length_prune: "length (prune now w m) \<le> length m"
  unfolding prune_def by (metis length_filter_le length_map)

lemma queue_of_Nil [simp]: "queue_of key [] = []"
  by (simp add: queue_of_def)

lemma queue_of_Cons: "queue_of key ((k, ts) # m) = (if k = key then ts else queue_of key m)"
  by (auto simp: queue_of_def)

lemma queue_of_absent: "key \<notin> fst ` set m \<Longrightarrow> queue_of key m = []"
  by (simp add: queue_of_def map_of_eq_None_iff [THEN iffD2])

lemma queue_of_prune:
  "distinct (List.map fst m) \<Longrightarrow> queue_of key (prune now w m) = drop_expired now w (queue_of key m)"
proof (induction m)
  case (Cons a m)
  obtain k ts where a: "a = (k, ts)" by fastforce
  have "prune now w (a # m) =
      (if drop_expired now w ts = [] then prune now w m else (k, drop_expired now w ts) # prune now w m)"
    by (simp add: prune_def a)
  moreover have "queue_of k (prune now w m) = []" using Cons.prems keys_prune [of now w m]
    by (intro queue_of_absent) (auto simp: a)
  ultimately show ?case using Cons by (auto simp: a queue_of_Cons)
qed (simp add: prune_def drop_expired_def)

lemma entry_or_default_props:
  "queue_of k (entry_or_default key m) = queue_of k m"
  "distinct (List.map fst m) \<Longrightarrow> distinct (List.map fst (entry_or_default key m))"
  "key \<in> fst ` set (entry_or_default key m)"
  by (auto simp: entry_or_default_def queue_of_def map_of_eq_None_iff map_add_def split: option.splits;
      auto dest: map_of_SomeD intro: rev_image_eqI)+

lemma keys_push: "List.map fst (push key now m) = List.map fst m"
  by (induction m) (auto simp: push_def)

lemma map_of_push: "map_of (push key now m) k = map_option (\<lambda>ts. if k = key then ts @ [now] else ts) (map_of m k)"
  by (induction m) (auto simp: push_def)

lemma queue_of_push:
  "key \<in> fst ` set m \<Longrightarrow> queue_of k (push key now m) = (if k = key then queue_of k m @ [now] else queue_of k m)"
  using weak_map_of_SomeI [of key _ m] by (auto simp: queue_of_def map_of_push split: option.splits)

definition limiter_inv :: "rate_limiter \<Rightarrow> bool" where
  "limiter_inv l \<longleftrightarrow>
     distinct (List.map fst (rl_state l)) \<and> length (rl_state l) \<le> max_tracked_keys \<and>
     (\<forall>key. length (queue_of key (rl_state l)) \<le> rl_limit l)"

lemma drop_expired_suffix:
  "\<exists>d. ts = d @ drop_expired now w ts \<and> (\<forall>t \<in> set d. duration_since now t \<ge> w)"
  unfolding drop_expired_def
  by (rule exI [of _ "takeWhile (\<lambda>t. duration_since now t \<ge> w) ts"]) (auto dest: set_takeWhileD)

lemma length_drop_expired: "length (drop_expired now w ts) \<le> length ts"
  by (simp add: drop_expired_def length_dropWhile_le)

lemma check_cases:
  assumes inv: "limiter_inv l" and run: "check now key l = (r, l')"
  shows "limiter_inv l' \<and> rl_limit l' = rl_limit l \<and> rl_window l' = rl_window l \<and>
    (\<forall>k. queue_of k (rl_state l') = drop_expired now (rl_window l) (queue_of k (rl_state l)) @
           (if k = key \<and> r = Inr () then [now] else []))"
proof -
  let ?m = "prune now (rl_window l) (rl_state l)"
  have d: "distinct (List.map fst (rl_state l))" and n: "length (rl_state l) \<le> max_tracked_keys"
    and q: "length (queue_of k (rl_state l)) \<le> rl_limit l" for k
    using inv by (auto simp: limiter_inv_def)
  have qm: "queue_of k ?m = drop_expired now (rl_window l) (queue_of k (rl_state l))" for k
    by (rule queue_of_prune [OF d])
  have lm: "length (queue_of k ?m) \<le> rl_limit l" for k
    using length_drop_expired [of now "rl_window l" "queue_of k (rl_state l)"] q [of k] by (simp add: qm)
  show ?thesis
  proof (cases "map_of ?m key = None \<and> length ?m \<ge> max_tracked_keys")
    case True
    with run have "r = Inl (rl_window l)" "l' = l\<lparr>rl_state := ?m\<rparr>" by (auto simp: check_def Let_def)
    then show ?thesis
      using distinct_prune [OF d] length_prune [of now "rl_window l" "rl_state l"] n lm
      by (simp add: limiter_inv_def qm)
  next
    case False
    let ?e = "entry_or_default key ?m"
    have len: "length ?e \<le> max_tracked_keys"
      using False length_prune [of now "rl_window l" "rl_state l"] n
      by (auto simp: entry_or_default_def split: option.splits)
    show ?thesis
    proof (cases "length (queue_of key ?e) \<ge> rl_limit l")
      case True
      with False run have "l' = l\<lparr>rl_state := ?e\<rparr>" "r \<noteq> Inr ()" by (auto simp: check_def Let_def)
      then show ?thesis
        using len lm distinct_prune [OF d] by (simp add: limiter_inv_def entry_or_default_props qm)
    next
      case less: False
      with False run have "l' = l\<lparr>rl_state := push key now ?e\<rparr>" "r = Inr ()" by (auto simp: check_def Let_def)
      moreover have "length (push key now ?e) = length ?e" by (simp add: push_def)
      ultimately show ?thesis
        using len lm less distinct_prune [OF d]
        by (auto simp: limiter_inv_def keys_push queue_of_push entry_or_default_props qm)
    qed
  qed
qed

section \<open>Any window\<close>

definition in_window :: "duration \<Rightarrow> timestamp \<Rightarrow> timestamp list \<Rightarrow> timestamp list" where
  "in_window w T ts = filter (\<lambda>t. t \<le> T \<and> T < t + int w) ts"

text \<open>
  What the limiter remembers of a key, when no call has read a later time than \<open>hi\<close>: the requests it let
  through, less some at the front that are outside every window ending at \<open>hi\<close> or later. The bound is on windows
  shorter by \<open>delay\<close>, the longest time that a call waits for the mutex.
\<close>

definition remembers :: "timestamp \<Rightarrow> nat \<Rightarrow> duration \<Rightarrow> duration \<Rightarrow> timestamp list \<Rightarrow> timestamp list \<Rightarrow> bool" where
  "remembers hi limit w delay A q \<longleftrightarrow>
     (\<exists>d. A = d @ q \<and> (\<forall>t \<in> set d. t + int w \<le> hi)) \<and> (\<forall>t \<in> set A. t \<le> hi) \<and>
     length q \<le> limit \<and> (\<forall>T. length (in_window (w - delay) T A) \<le> limit)"

lemma remembers_drop:
  assumes "remembers hi limit w delay A q"
  shows "remembers (max hi now) limit w delay A (drop_expired now w q)"
proof -
  obtain d where d: "A = d @ q" "\<forall>t \<in> set d. t + int w \<le> hi" and le: "\<forall>t \<in> set A. t \<le> hi"
    using assms by (auto simp: remembers_def)
  obtain d' where d': "q = d' @ drop_expired now w q" "\<forall>t \<in> set d'. duration_since now t \<ge> w"
    using drop_expired_suffix by metis
  have "t + int w \<le> max hi now" if "t \<in> set d'" for t
  proof -
    have "t \<in> set A" using that d(1) d'(1) by (metis Un_iff set_append)
    with le have "t \<le> hi" by blast
    moreover have "w \<le> nat (now - t)" using d'(2) that by (simp add: duration_since_def)
    ultimately show ?thesis by linarith
  qed
  then have "\<forall>t \<in> set (d @ d'). t + int w \<le> max hi now" using d(2) by force
  moreover have "A = (d @ d') @ drop_expired now w q" using d(1) d'(1) by simp
  moreover have "\<forall>t \<in> set A. t \<le> max hi now" using le by force
  ultimately show ?thesis
    using assms length_drop_expired [of now w q] unfolding remembers_def by (metis order_trans)
qed

lemma remembers_push:
  assumes r: "remembers hi limit w delay A q" and room: "length q < limit"
    and now: "now \<le> hi" "hi \<le> now + int delay"
  shows "remembers hi limit w delay (A @ [now]) (q @ [now])"
proof -
  obtain d where d: "A = d @ q" "\<forall>t \<in> set d. t + int w \<le> hi"
    using r by (auto simp: remembers_def)
  have "length (in_window (w - delay) T (A @ [now])) \<le> limit" for T
  proof (cases "now \<le> T")
    case True
    have "in_window (w - delay) T d = []"
    proof -
      have "\<not> (t \<le> T \<and> T < t + int (w - delay))" if "t \<in> set d" for t
      proof -
        from d(2) that have "t + int w \<le> hi" by blast
        with now(2) True show ?thesis by linarith
      qed
      then show ?thesis by (simp add: in_window_def filter_empty_conv)
    qed
    then have "in_window (w - delay) T (A @ [now]) = in_window (w - delay) T (q @ [now])" by (simp add: in_window_def d(1))
    also have "length \<dots> \<le> length (q @ [now])" unfolding in_window_def by (rule length_filter_le)
    finally show ?thesis using room by simp
  next
    case False
    then have "in_window (w - delay) T (A @ [now]) = in_window (w - delay) T A" by (simp add: in_window_def)
    with r show ?thesis by (simp add: remembers_def)
  qed
  with r room d now(1) show ?thesis by (auto simp: remembers_def)
qed

lemma check_accepts_below_limit:
  "check now key l = (Inr (), l') \<Longrightarrow> limiter_inv l \<Longrightarrow>
     length (drop_expired now (rl_window l) (queue_of key (rl_state l))) < rl_limit l"
  by (auto simp: check_def Let_def entry_or_default_props queue_of_prune limiter_inv_def split: if_splits)

text \<open>Calls in the order of the mutex: a later one has read its time at most \<open>delay\<close> before an earlier one.\<close>

abbreviation delayed :: "duration \<Rightarrow> (timestamp \<times> ustring) list \<Rightarrow> bool" where
  "delayed delay \<equiv> sorted_wrt (\<lambda>c c'. fst c \<le> fst c' + int delay)"

lemma run_checks_remembers:
  assumes "run_checks calls l = (rs, l')" "limiter_inv l" "delayed delay calls"
    and "\<forall>c \<in> set calls. hi \<le> fst c + int delay"
    and "remembers hi (rl_limit l) (rl_window l) delay A (queue_of key (rl_state l))"
  shows "\<exists>hi q. remembers hi (rl_limit l) (rl_window l) delay (A @ allowed key calls rs) q"
  using assms
proof (induction calls arbitrary: l rs hi A)
  case Nil
  then show ?case by (auto simp: allowed_def)
next
  case (Cons c calls)
  obtain t k where c: "c = (t, k)" by fastforce
  obtain r l1 where ck: "check t k l = (r, l1)" by fastforce
  obtain rs' where rs': "run_checks calls l1 = (rs', l')" "rs = r # rs'"
    using Cons.prems(1) by (auto simp: c ck split: prod.splits)
  note step = check_cases [OF Cons.prems(2) ck]
  let ?A = "A @ (if k = key \<and> r = Inr () then [t] else [])"
  have all: "A @ allowed key (c # calls) rs = ?A @ allowed key calls rs'"
    by (simp add: allowed_def rs' c)
  have hi: "t \<le> max hi t" "max hi t \<le> t + int delay" using Cons.prems(4) by (auto simp: c)
  note drop = remembers_drop [OF Cons.prems(5), of t]
  have "remembers (max hi t) (rl_limit l1) (rl_window l1) delay ?A (queue_of key (rl_state l1))"
    using drop remembers_push [OF drop _ hi] check_accepts_below_limit [of t k l l1] ck Cons.prems(2) step by auto
  moreover have "\<forall>c \<in> set calls. max hi t \<le> fst c + int delay" using Cons.prems(3,4) by (auto simp: c)
  ultimately have "\<exists>hi q. remembers hi (rl_limit l1) (rl_window l1) delay (?A @ allowed key calls rs') q"
    using Cons.prems(3) step by (intro Cons.IH [OF rs'(1)]) auto
  then show ?case using step all by simp
qed

lemma limiter_inv_new: "limiter_inv (rate_limiter_new limit window)"
  by (simp add: limiter_inv_def rate_limiter_new_def max_tracked_keys_def)

text \<open>A request as it reaches the limiter: the key, the time it read from the clock, and the time at which it got the
  mutex.\<close>

record arrival =
  ar_key :: ustring
  ar_read_at :: timestamp
  ar_locked_at :: timestamp

definition call_of :: "arrival \<Rightarrow> timestamp \<times> ustring" where
  "call_of a = (ar_read_at a, ar_key a)"

lemma arrivals_delayed:
  assumes "sorted (List.map ar_locked_at as)"
    and "\<forall>a \<in> set as. ar_read_at a \<le> ar_locked_at a \<and> ar_locked_at a \<le> ar_read_at a + int delay"
  shows "delayed delay (List.map call_of as)"
  using assms
proof (induction as)
  case (Cons a as)
  have "ar_read_at a \<le> ar_read_at b + int delay" if "b \<in> set as" for b
  proof -
    have "ar_locked_at a \<le> ar_locked_at b" using Cons.prems(1) that by simp
    with Cons.prems(2) that show ?thesis by (meson list.set_intros order_trans)
  qed
  with Cons show ?case by (simp add: call_of_def)
qed simp

text \<open>C24. However the requests interleave, each reading the clock and then waiting for the mutex, of the requests
  of one key that are let through at most as many as the limit have read times in any one interval shorter than the window
  by the longest wait. Without waiting this is the whole window.\<close>
theorem limit_holds_in_every_window:
  assumes "run_checks (List.map call_of as) (rate_limiter_new limit window) = (rs, l)"
    and "sorted (List.map ar_locked_at as)"
    and "\<forall>a \<in> set as. ar_read_at a \<le> ar_locked_at a \<and> ar_locked_at a \<le> ar_read_at a + int delay"
  shows "length (filter (\<lambda>t. t \<le> T \<and> T < t + int (window - delay)) (allowed key (List.map call_of as) rs)) \<le> limit"
proof (cases as)
  case (Cons a as')
  let ?calls = "List.map call_of as"
  note delayed = arrivals_delayed [OF assms(2,3)]
  have "\<forall>c \<in> set ?calls. ar_read_at a \<le> fst c + int delay"
    using delayed by (auto simp: Cons call_of_def)
  moreover have "remembers (ar_read_at a) limit window delay [] []" by (simp add: remembers_def in_window_def)
  ultimately have "\<exists>hi q. remembers hi limit window delay ([] @ allowed key ?calls rs) q"
    using run_checks_remembers [OF assms(1) limiter_inv_new delayed, of "ar_read_at a" "[]" key]
    by (simp add: rate_limiter_new_def)
  then show ?thesis by (auto simp: remembers_def in_window_def)
qed (use assms in \<open>simp add: allowed_def\<close>)

lemmas limiter_evaluation =
  rate_limiter_new_def check_def prune_def drop_expired_def duration_since_def Let_def
  entry_or_default_def queue_of_def push_def max_tracked_keys_def

text \<open>The third request of the first key read the clock before the second, but got the mutex after it.\<close>

definition ex_arrivals :: "arrival list" where
  "ex_arrivals =
     [\<lparr>ar_key = [1], ar_read_at = 0, ar_locked_at = 0\<rparr>, \<lparr>ar_key = [1], ar_read_at = 10, ar_locked_at = 11\<rparr>,
      \<lparr>ar_key = [1], ar_read_at = 8, ar_locked_at = 12\<rparr>, \<lparr>ar_key = [2], ar_read_at = 25, ar_locked_at = 25\<rparr>,
      \<lparr>ar_key = [1], ar_read_at = 70, ar_locked_at = 72\<rparr>]"

theorem limit_holds_in_every_window_witness:
  "\<exists>l. run_checks (List.map call_of ex_arrivals) (rate_limiter_new 2 60) =
         ([Inr (), Inr (), Inl 52, Inr (), Inr ()], l) \<and>
       allowed [1] (List.map call_of ex_arrivals) [Inr (), Inr (), Inl 52, Inr (), Inr ()] = [0, 10, 70] \<and>
       length (filter (\<lambda>t. t \<le> 54 \<and> 54 < t + int (60 - 5)) [0, 10, 70]) \<le> 2"
proof -
  let ?calls = "List.map call_of ex_arrivals"
  let ?rs = "[Inr (), Inr (), Inl 52, Inr (), Inr ()] :: (duration + unit) list"
  obtain l where run: "run_checks ?calls (rate_limiter_new 2 60) = (?rs, l)"
    by (simp add: ex_arrivals_def call_of_def limiter_evaluation)
  have "sorted (List.map ar_locked_at ex_arrivals)"
      "\<forall>a \<in> set ex_arrivals. ar_read_at a \<le> ar_locked_at a \<and> ar_locked_at a \<le> ar_read_at a + int 5"
    by (simp_all add: ex_arrivals_def)
  note limit_holds_in_every_window [OF run this, of 54 "[1]"]
  moreover have "allowed [1] ?calls ?rs = [0, 10, 70]" by (simp add: allowed_def ex_arrivals_def call_of_def)
  ultimately show ?thesis using run by metis
qed

text \<open>The wait does cost: with a window of 60 and a limit of two, a request that reads 59 and gets the mutex after one that read
  60, which had the first two dropped, is let through as the third within the 60 before 60.\<close>

lemma overtaken_request_exceeds_window:
  "\<exists>l. run_checks [(0, [1]), (0, [1]), (60, [1]), (59, [1])] (rate_limiter_new 2 60) =
         ([Inr (), Inr (), Inr (), Inr ()], l) \<and>
       length (filter (\<lambda>t. t \<le> 59 \<and> 59 < t + int 60)
         (allowed [1] [(0, [1]), (0, [1]), (60, [1]), (59, [1])] [Inr (), Inr (), Inr (), Inr ()])) = 3"
  by (simp add: limiter_evaluation allowed_def)

section \<open>When to try again\<close>

lemma set_drop_expired: "set (drop_expired now w ts) \<subseteq> set ts"
  by (auto simp: drop_expired_def dest: set_dropWhileD)

lemma run_checks_state:
  "run_checks calls l = (rs, l') \<Longrightarrow> limiter_inv l \<Longrightarrow>
     limiter_inv l' \<and> rl_limit l' = rl_limit l \<and> rl_window l' = rl_window l \<and>
     (\<forall>k. set (queue_of k (rl_state l')) \<subseteq> set (queue_of k (rl_state l)) \<union> fst ` set calls)"
proof (induction calls arbitrary: l rs)
  case (Cons c calls)
  obtain t k where c: "c = (t, k)" by fastforce
  obtain r l1 rs' where ck: "check t k l = (r, l1)" and rs': "run_checks calls l1 = (rs', l')"
    using Cons.prems(1) by (auto simp: c split: prod.splits)
  note step = check_cases [OF Cons.prems(2) ck]
  have "set (queue_of k' (rl_state l1)) \<subseteq> insert t (set (queue_of k' (rl_state l)))" for k'
    using step set_drop_expired [of t "rl_window l" "queue_of k' (rl_state l)"] by auto
  with Cons.IH [OF rs'] step show ?case by (auto simp: c) blast
qed simp

lemma check_rejects:
  assumes "check now key l = (Inl d, l')" and inv: "limiter_inv l" and "0 < rl_limit l"
  obtains
    (full) "d = rl_window l"
  | (tracked) t q where "key \<in> fst ` set (rl_state l')" "queue_of key (rl_state l') = t # q"
      "d = rl_window l - duration_since now t"
proof -
  let ?m = "prune now (rl_window l) (rl_state l)"
  show thesis
  proof (cases "map_of ?m key = None \<and> length ?m \<ge> max_tracked_keys")
    case True
    with assms(1) show thesis by (intro full) (simp add: check_def Let_def)
  next
    case False
    let ?e = "entry_or_default key ?m"
    from False assms(1) have r: "rl_limit l \<le> length (queue_of key ?e)" "l' = l\<lparr>rl_state := ?e\<rparr>"
      "d = (case queue_of key ?e of [] \<Rightarrow> rl_window l | t # _ \<Rightarrow> rl_window l - duration_since now t)"
      by (auto simp: check_def Let_def split: if_splits)
    with assms(3) obtain t q where q: "queue_of key ?e = t # q" by (cases "queue_of key ?e") auto
    have k: "key \<in> fst ` set (rl_state l')" by (simp add: r(2) entry_or_default_props(3))
    have "queue_of key (rl_state l') = t # q" "d = rl_window l - duration_since now t" by (simp_all add: r q)
    from tracked [OF k this] show thesis .
  qed
qed

lemma prune_drops_key:
  assumes "key \<in> fst ` set m" and "map_of (prune now w m) key = None"
  shows "length (prune now w m) < length m"
proof -
  let ?f = "List.map (\<lambda>(k, ts). (k, drop_expired now w ts)) m"
  obtain ts where "(key, ts) \<in> set ?f" using assms(1) by force
  moreover have "(key, ts) \<notin> set (filter (\<lambda>(k, ts). ts \<noteq> []) ?f)"
    using assms(2) by (auto simp: prune_def map_of_eq_None_iff intro: rev_image_eqI)
  ultimately have "length (filter (\<lambda>(k, ts). ts \<noteq> []) ?f) < length ?f"
    by (intro length_filter_less) auto
  then show ?thesis by (simp add: prune_def)
qed

lemma check_accepts:
  assumes inv: "limiter_inv l"
    and "length (drop_expired now (rl_window l) (queue_of key (rl_state l))) < rl_limit l"
    and "map_of (prune now (rl_window l) (rl_state l)) key = None \<Longrightarrow>
           length (prune now (rl_window l) (rl_state l)) < max_tracked_keys"
  shows "fst (check now key l) = Inr ()"
  using assms by (auto simp: check_def Let_def entry_or_default_props queue_of_prune limiter_inv_def)

text \<open>A rejected caller is told a delay that suffices: no longer than the window, and after it, if nothing
  else was let through meanwhile, the same request is let through.\<close>
lemma retry_after_suffices:
  assumes run: "run_checks calls (rate_limiter_new limit window) = (rs, l)" and "\<forall>c \<in> set calls. fst c \<le> now"
    and "0 < limit" and ck: "check now key l = (Inl d, l')" and later: "now + int d \<le> later"
  shows "d \<le> window \<and> fst (check later key l') = Inr ()"
proof -
  have l: "limiter_inv l" "rl_limit l = limit" "rl_window l = window"
    and "\<forall>k. set (queue_of k (rl_state l)) \<subseteq> fst ` set calls"
    using run_checks_state [OF run limiter_inv_new] by (simp_all add: rate_limiter_new_def)
  with assms(2) have le: "\<forall>t \<in> set (queue_of k (rl_state l)). t \<le> now" for k by fastforce
  have l': "limiter_inv l'" "rl_limit l' = limit" "rl_window l' = window"
    and q': "queue_of k (rl_state l') = drop_expired now window (queue_of k (rl_state l))" for k
    using check_cases [OF l(1) ck] l by simp_all
  have le': "\<forall>t \<in> set (queue_of k (rl_state l')). t \<le> now" for k
    using le [of k] set_drop_expired [of now window "queue_of k (rl_state l)"] by (auto simp: q')
  note keyed = l'(1) [unfolded limiter_inv_def]
  from ck l(1) assms(3) [folded l(2)] show ?thesis
  proof (cases rule: check_rejects)
    case full
    have gone: "drop_expired later window (queue_of k (rl_state l')) = []" for k
      using le' [of k] later full by (auto simp: drop_expired_def duration_since_def l(3))
    have "prune later window (rl_state l') = []"
    proof -
      have "drop_expired later window ts = []" if "(k, ts) \<in> set (rl_state l')" for k ts
        using gone [of k] that keyed by (simp add: queue_of_def)
      then show ?thesis by (auto simp: prune_def filter_empty_conv)
    qed
    then show ?thesis
      using full l assms(3) gone by (intro conjI check_accepts l') (simp_all add: l' max_tracked_keys_def)
  next
    case (tracked t q)
    have "t \<le> now" using le' [of key] tracked by simp
    then have "duration_since later t \<ge> window"
      using tracked later by (auto simp: duration_since_def l(3))
    then have "drop_expired later window (queue_of key (rl_state l')) = drop_expired later window q"
      by (simp add: tracked drop_expired_def)
    then have "length (drop_expired later window (queue_of key (rl_state l'))) < length (t # q)"
      using length_drop_expired [of later window q] by simp
    also have "\<dots> \<le> limit" using keyed by (metis l'(2) tracked(2))
    finally show ?thesis
      using tracked l prune_drops_key [OF tracked(1)] keyed
      by (intro conjI check_accepts l') (auto simp: l' dest: order_less_le_trans)
  qed
qed

end
