(* ===== verification/Worker.thy ===== *)
theory Worker
  imports Imaging Fencing
begin

text \<open>
  The worker (\<open>apps/worker/src/lib.rs\<close>): what it does with a claimed job, from the first check for a
  cancellation to the completion, with the renewals of the lease that run beside it. Every database call
  is one step of the world; before each step the rest of the system (other workers, the API, maintenance)
  may change the database and the stored files, and the renewal timer may fire before the call reaches
  the database or before its answer reaches the worker. The database's clock, the measured durations, the
  interference and the answers of the storage are arguments (\<open>surroundings\<close>), indexed by the number of
  the step. Logging has no effect.
\<close>

section \<open>The world\<close>

record world =
  wd_db :: db
  wd_files :: stored
  wd_step :: nat
  wd_lost :: bool

record surroundings =
  sr_clock :: "nat \<Rightarrow> timestamp"
  sr_elapsed :: "nat \<Rightarrow> duration"
  sr_db :: "nat \<Rightarrow> db \<Rightarrow> db"
  sr_files :: "nat \<Rightarrow> stored \<Rightarrow> stored"
  sr_ticks_before :: "nat \<Rightarrow> nat"
  sr_ticks_after :: "nat \<Rightarrow> nat"
  sr_remove_fails :: "nat \<Rightarrow> bool"
  sr_usage :: "nat \<Rightarrow> storage_error + u64"
  sr_codecs :: codecs
  sr_io :: file_io

text \<open>A computation of the worker: \<open>proc_bind\<close> is \<open>?\<close>, \<open>attempted\<close> hands the result over as a value.\<close>

type_synonym 'a proc = "world \<Rightarrow> (repository_error + 'a) \<times> world"

definition proc_return :: "'a \<Rightarrow> 'a proc" where
  "proc_return x = (\<lambda>w. (Inr x, w))"

definition proc_fail :: "repository_error \<Rightarrow> 'a proc" where
  "proc_fail e = (\<lambda>w. (Inl e, w))"

definition proc_bind :: "'a proc \<Rightarrow> ('a \<Rightarrow> 'b proc) \<Rightarrow> 'b proc" where
  "proc_bind m f = (\<lambda>w. case m w of (Inl e, w') \<Rightarrow> (Inl e, w') | (Inr x, w') \<Rightarrow> f x w')"

definition attempted :: "'a proc \<Rightarrow> (repository_error + 'a) proc" where
  "attempted m = (\<lambda>w. case m w of (r, w') \<Rightarrow> (Inr r, w'))"

section \<open>Renewals and calls\<close>

text \<open>
  One tick of the renewal timer: the lease is renewed; when the claim turns out to be lost the timer is
  no longer polled, and other errors are only logged.
\<close>

definition renewal_tick :: "surroundings \<Rightarrow> claimed_job \<Rightarrow> world \<Rightarrow> world" where
  "renewal_tick e c w =
     (if wd_lost w then w
      else case renew_lease_with_time (sr_clock e (wd_step w)) c None (wd_db w) of
             (Inl ClaimLost, s) \<Rightarrow> w\<lparr>wd_db := s, wd_lost := True\<rparr>
           | (_, s) \<Rightarrow> w\<lparr>wd_db := s\<rparr>)"

definition renewal_ticks :: "surroundings \<Rightarrow> claimed_job \<Rightarrow> nat \<Rightarrow> world \<Rightarrow> world" where
  "renewal_ticks e c n w = (renewal_tick e c ^^ n) w"

definition interference :: "surroundings \<Rightarrow> world \<Rightarrow> world" where
  "interference e w =
     w\<lparr>wd_db := sr_db e (wd_step w) (wd_db w), wd_files := sr_files e (wd_step w) (wd_files w)\<rparr>"

definition call :: "surroundings \<Rightarrow> claimed_job \<Rightarrow> (timestamp \<Rightarrow> 'a tx) \<Rightarrow> 'a proc" where
  "call e c m w =
     (let w1 = renewal_ticks e c (sr_ticks_before e (wd_step w)) (interference e w);
          (r, s) = m (sr_clock e (wd_step w)) (wd_db w1);
          w2 = renewal_ticks e c (sr_ticks_after e (wd_step w)) (w1\<lparr>wd_db := s\<rparr>)
      in (r, w2\<lparr>wd_step := wd_step w + 1\<rparr>))"

definition elapsed :: "surroundings \<Rightarrow> duration proc" where
  "elapsed e = (\<lambda>w. (Inr (sr_elapsed e (wd_step w)), w))"

text \<open>\<open>remove_tree\<close> on the output directory of the attempt; a failure is only logged.\<close>

definition cleanup_attempt_outputs :: "surroundings \<Rightarrow> claimed_job \<Rightarrow> unit proc" where
  "cleanup_attempt_outputs e c w =
     (if sr_remove_fails e (wd_step w) then (Inr (), w)
      else (Inr (), w\<lparr>wd_files := snd (remove_tree
              (attempt_output_prefix (job_id_get (cj_job_id c)) (cj_attempt_id c)) (wd_files w))\<rparr>))"

definition finish_if_cancel_requested :: "surroundings \<Rightarrow> claimed_job \<Rightarrow> bool proc" where
  "finish_if_cancel_requested e c =
     proc_bind (call e c (\<lambda>now. cancellation_requested now c)) (\<lambda>requested.
     if \<not> requested then proc_return False
     else proc_bind (cleanup_attempt_outputs e c) (\<lambda>_.
          proc_bind (elapsed e) (\<lambda>dur.
          proc_bind (call e c (\<lambda>now. finish_cancelled now c dur)) (\<lambda>_.
          proc_return True))))"

section \<open>Failures\<close>

fun is_state_conflict :: "repository_error \<Rightarrow> bool" where
  "is_state_conflict (StateConflict _) = True"
| "is_state_conflict _ = False"

text \<open>A conflict may mean that the job is being cancelled: then the attempt ends cancelled.\<close>

definition or_cancelled :: "surroundings \<Rightarrow> claimed_job \<Rightarrow> repository_error + 'a \<Rightarrow> unit proc" where
  "or_cancelled e c r =
     (case r of
        Inr _ \<Rightarrow> proc_return ()
      | Inl error \<Rightarrow>
          if is_state_conflict error
          then proc_bind (finish_if_cancel_requested e c) (\<lambda>finished.
               if finished then proc_return () else proc_fail error)
          else proc_fail error)"

definition record_image_failure :: "surroundings \<Rightarrow> claimed_job \<Rightarrow> failure_kind \<Rightarrow> string \<Rightarrow> unit proc" where
  "record_image_failure e c kind message =
     proc_bind (cleanup_attempt_outputs e c) (\<lambda>_.
     proc_bind (elapsed e) (\<lambda>dur.
     proc_bind (attempted (call e c (\<lambda>now. record_failure now c dur kind (lit message)))) (\<lambda>failure.
     or_cancelled e c failure)))"

section \<open>Images\<close>

definition rsplit_once_dot :: "ustring \<Rightarrow> ustring option" where
  "rsplit_once_dot s =
     (if 46 \<in> set s then Some (rev (tl (dropWhile (\<lambda>ch. ch \<noteq> 46) (rev s)))) else None)"

definition output_name :: "ustring \<Rightarrow> ustring" where
  "output_name input_name =
     (let stem = trim (case rsplit_once_dot input_name of None \<Rightarrow> input_name | Some stem \<Rightarrow> stem);
          stem = (if stem = [] then lit ''image'' else stem)
      in take 251 stem @ lit ''.jpg'')"

definition resize :: "surroundings \<Rightarrow> ustring \<Rightarrow> ustring \<Rightarrow> u32 \<Rightarrow> u8 \<Rightarrow> (image_error + processed_image) proc" where
  "resize e input_key out_key max_width jpeg_quality w =
     (let (r, fs) = resize_to_jpeg (sr_codecs e) (sr_io e) input_key out_key max_width jpeg_quality (wd_files w)
      in (Inr r, w\<lparr>wd_files := fs\<rparr>))"

definition pending_output :: "artifact_record \<Rightarrow> processed_image \<Rightarrow> pending_output_artifact" where
  "pending_output input processed =
     \<lparr>po_source_artifact_id = art_id input, po_item_index = art_item_index input,
      po_storage_key = pi_storage_key processed, po_display_name = output_name (art_display_name input),
      po_media_type = pi_media_type processed, po_byte_size = pi_byte_size processed,
      po_width = pi_width processed, po_height = pi_height processed\<rparr>"

text \<open>
  One input: \<open>None\<close> is the early return of \<open>process_images\<close> (the attempt has been closed), \<open>Some\<close> the
  output to publish. \<open>completed\<close> is the index of the input.
\<close>

definition process_image ::
  "surroundings \<Rightarrow> claimed_job \<Rightarrow> u32 \<Rightarrow> u8 \<Rightarrow> u64 \<Rightarrow> nat \<Rightarrow> artifact_record \<Rightarrow>
   pending_output_artifact option proc" where
  "process_image e c max_width jpeg_quality budget completed input =
     proc_bind (finish_if_cancel_requested e c) (\<lambda>finished.
     if finished then proc_return None
     else proc_bind (resize e (art_storage_key input)
            (output_key (job_id_get (cj_job_id c)) (cj_attempt_id c) (art_id input)) max_width jpeg_quality) (\<lambda>result.
     proc_bind (elapsed e) (\<lambda>encoding.
     proc_bind (call e c (\<lambda>now. record_encoding_duration now c encoding)) (\<lambda>_.
     case result of
       Inl error \<Rightarrow>
         proc_bind (record_image_failure e c (image_failure_kind error) (safe_message error)) (\<lambda>_. proc_return None)
     | Inr processed \<Rightarrow>
     proc_bind (\<lambda>w. (Inr (sr_usage e (wd_step w)), w)) (\<lambda>usage.
     if isl usage
     then proc_bind (record_image_failure e c Transient ''storage usage could not be measured'') (\<lambda>_. proc_return None)
     else if projr usage > budget
     then proc_bind (record_image_failure e c Permanent ''storage budget exceeded while writing output'')
            (\<lambda>_. proc_return None)
     else proc_bind (finish_if_cancel_requested e c) (\<lambda>finished.
     if finished then proc_return None
     else proc_bind (attempted (proc_bind (\<lambda>w. (ok_or (InvalidData ''image progress exceeds u32'')
              (to_word (int completed + 1)), w)) (\<lambda>n. call e c (\<lambda>now. update_progress now c n)))) (\<lambda>progress.
     case progress of
       Inr _ \<Rightarrow> proc_return (Some (pending_output input processed))
     | Inl error \<Rightarrow>
         if is_state_conflict error
         then proc_bind (finish_if_cancel_requested e c) (\<lambda>finished.
              if finished then proc_return None else proc_fail error)
         else proc_fail error)))))))"

fun process_inputs ::
  "surroundings \<Rightarrow> claimed_job \<Rightarrow> u32 \<Rightarrow> u8 \<Rightarrow> u64 \<Rightarrow> nat \<Rightarrow> artifact_record list \<Rightarrow>
   pending_output_artifact list \<Rightarrow> pending_output_artifact list option proc" where
  "process_inputs e c max_width jpeg_quality budget completed [] outputs = proc_return (Some outputs)"
| "process_inputs e c max_width jpeg_quality budget completed (input # inputs) outputs =
     proc_bind (process_image e c max_width jpeg_quality budget completed input) (\<lambda>output.
     case output of
       None \<Rightarrow> proc_return None
     | Some output \<Rightarrow>
         process_inputs e c max_width jpeg_quality budget (completed + 1) inputs (outputs @ [output]))"

definition process_images ::
  "surroundings \<Rightarrow> claimed_job \<Rightarrow> artifact_record list \<Rightarrow> u32 \<Rightarrow> u8 \<Rightarrow> u64 \<Rightarrow> unit proc" where
  "process_images e c inputs max_width jpeg_quality budget =
     proc_bind (process_inputs e c max_width jpeg_quality budget 0 inputs []) (\<lambda>outputs.
     case outputs of
       None \<Rightarrow> proc_return ()
     | Some outputs \<Rightarrow>
         proc_bind (finish_if_cancel_requested e c) (\<lambda>finished.
         if finished then proc_return ()
         else proc_bind (elapsed e) (\<lambda>dur.
              proc_bind (attempted (call e c (\<lambda>now. complete_image_job now c dur outputs))) (\<lambda>result.
              or_cancelled e c result))))"

section \<open>A claimed job\<close>

definition process_claimed_inner :: "surroundings \<Rightarrow> claimed_job \<Rightarrow> u64 \<Rightarrow> unit proc" where
  "process_claimed_inner e c budget =
     (case cj_work c of
        WDemoDelay delay \<Rightarrow>
          proc_bind (finish_if_cancel_requested e c) (\<lambda>finished.
          if finished then proc_return ()
          else proc_bind (elapsed e) (\<lambda>dur.
               proc_bind (attempted (call e c (\<lambda>now. complete now c dur))) (\<lambda>result.
               or_cancelled e c result)))
      | WImageResize max_width jpeg_quality inputs \<Rightarrow>
          process_images e c inputs max_width jpeg_quality budget)"

definition finish_claimed_result :: "surroundings \<Rightarrow> claimed_job \<Rightarrow> repository_error + unit \<Rightarrow> unit proc" where
  "finish_claimed_result e c r =
     (if r = Inl ClaimLost then proc_bind (cleanup_attempt_outputs e c) (\<lambda>_. proc_return ())
      else (\<lambda>w. (r, w)))"

text \<open>\<open>process_claimed\<close> runs without renewals: its surroundings have no ticks.\<close>

definition process_claimed :: "surroundings \<Rightarrow> claimed_job \<Rightarrow> unit proc" where
  "process_claimed e c =
     proc_bind (attempted (process_claimed_inner (e\<lparr>sr_ticks_before := (\<lambda>_. 0), sr_ticks_after := (\<lambda>_. 0)\<rparr>) c (- 1)))
       (\<lambda>r. finish_claimed_result e c r)"

text \<open>
  With renewals: when a renewal finds the claim lost, the processing is still awaited, and
  \<open>result.and(Err(ClaimLost))\<close> is its error if it failed and \<open>ClaimLost\<close> otherwise.
\<close>

definition process_with_lease_renewal :: "surroundings \<Rightarrow> claimed_job \<Rightarrow> u64 \<Rightarrow> unit proc" where
  "process_with_lease_renewal e c budget w =
     (case process_claimed_inner e c budget (w\<lparr>wd_lost := False\<rparr>) of
        (r, w') \<Rightarrow>
          finish_claimed_result e c
            (if wd_lost w' then (case r of Inl error \<Rightarrow> Inl error | Inr _ \<Rightarrow> Inl ClaimLost) else r) w')"

section \<open>Configuration\<close>

record worker_config =
  wc_id :: uuid
  wc_name :: ustring
  wc_concurrency_limit :: nat
  wc_lease_duration :: duration
  wc_lease_renewal_interval :: duration
  wc_heartbeat_interval :: duration
  wc_heartbeat_ttl :: duration
  wc_shutdown_grace :: duration
  wc_maintenance_interval :: duration
  wc_output_retention :: duration
  wc_orphan_grace :: duration
  wc_storage_budget_bytes :: u64

definition worker_config_new :: "uuid \<Rightarrow> ustring \<Rightarrow> nat \<Rightarrow> worker_config" where
  "worker_config_new new_id name concurrency_limit =
     \<lparr>wc_id = new_id, wc_name = name, wc_concurrency_limit = concurrency_limit,
      wc_lease_duration = from_secs 15, wc_lease_renewal_interval = from_secs 5,
      wc_heartbeat_interval = from_secs 2, wc_heartbeat_ttl = from_secs 10,
      wc_shutdown_grace = from_secs 30, wc_maintenance_interval = from_secs (60 * 60),
      wc_output_retention = from_secs (7 * 24 * 60 * 60), wc_orphan_grace = from_secs (60 * 60),
      wc_storage_budget_bytes = 1024 * 1024 * 1024\<rparr>"

definition worker_config_validate :: "worker_config \<Rightarrow> repository_error + unit" where
  "worker_config_validate cfg =
     (if wc_lease_renewal_interval cfg = 0 \<or> wc_lease_renewal_interval cfg \<ge> wc_lease_duration cfg
      then Inl (InvalidData ''lease renewal interval must be positive and shorter than the lease'')
      else if wc_heartbeat_interval cfg = 0 \<or> wc_heartbeat_interval cfg \<ge> wc_heartbeat_ttl cfg
      then Inl (InvalidData ''heartbeat interval must be positive and shorter than its TTL'')
      else if wc_shutdown_grace cfg = 0
      then Inl (InvalidData ''shutdown grace period must be greater than zero'')
      else if wc_maintenance_interval cfg = 0 \<or> wc_output_retention cfg = 0 \<or> wc_orphan_grace cfg = 0 \<or>
              wc_storage_budget_bytes cfg = 0
      then Inl (InvalidData ''maintenance intervals and storage budget must be greater than zero'')
      else Inr ())"

definition worker_config_registration :: "worker_config \<Rightarrow> worker_registration" where
  "worker_config_registration cfg =
     \<lparr>wr_id = wc_id cfg, wr_name = wc_name cfg, wr_concurrency_limit = wc_concurrency_limit cfg,
      wr_lease_duration = wc_lease_duration cfg, wr_heartbeat_ttl = wc_heartbeat_ttl cfg\<rparr>"

end
