(* ===== verification/WorkerLoop.thy ===== *)
theory WorkerLoop
  imports Worker Storage Maintenance Schedules Accounts
begin

text \<open>
  The loop of a worker (\<open>apps/worker/src/lib.rs\<close>): reclaiming expired attempts, materialising schedules,
  claiming jobs up to the concurrency limit, waiting for the next event, periodic maintenance, and the
  drain at the end. The tasks that process the claimed jobs run concurrently: what they do to the database
  and the files is part of the interference (\<open>surroundings\<close>), their results are events. The rows other
  transactions hold locked, the tokens drawn and the events are arguments, indexed by the number of the
  step. A loop that may not end is a partial function with result \<open>None\<close> when it does not.
\<close>

section \<open>The scene\<close>

datatype wake =
  ShutdownChanged bool
| TaskJoined nat "string + repository_error + unit"
| HeartbeatDue
| MaintenanceDue
| PollElapsed

datatype drain_event =
  DrainJoined nat "string + repository_error + unit"
| DrainHeartbeat
| DrainDeadline "string option"

record scene =
  sc_around :: surroundings
  sc_pair_locked :: "nat \<Rightarrow> int \<Rightarrow> int \<Rightarrow> bool"
  sc_row_locked :: "nat \<Rightarrow> int \<Rightarrow> bool"
  sc_range :: "timestamp \<Rightarrow> bool"
  sc_token :: "nat \<Rightarrow> uuid"
  sc_shutdown :: "nat \<Rightarrow> bool"
  sc_wake :: "nat \<Rightarrow> wake"
  sc_drain :: "nat \<Rightarrow> drain_event"
  sc_system_time :: "nat \<Rightarrow> timestamp"
  sc_listing :: "nat \<Rightarrow> stored \<Rightarrow> entries"
  sc_entry_fails :: "nat \<Rightarrow> ustring list \<Rightarrow> bool"

definition scene_call :: "scene \<Rightarrow> (nat \<Rightarrow> timestamp \<Rightarrow> 'a tx) \<Rightarrow> 'a proc" where
  "scene_call e m w =
     (let w1 = interference (sc_around e) w;
          (r, s) = m (wd_step w) (sr_clock (sc_around e) (wd_step w)) (wd_db w1)
      in (r, w1\<lparr>wd_db := s, wd_step := wd_step w + 1\<rparr>))"

section \<open>Reclaiming\<close>

definition reclaim_call :: "scene \<Rightarrow> reclaimed_attempt option proc" where
  "reclaim_call e =
     scene_call e (\<lambda>n now. reclaim_next_expired_attempt_at (sc_pair_locked e n) (sc_range e) now)"

definition discard_outputs :: "scene \<Rightarrow> reclaimed_attempt \<Rightarrow> world \<Rightarrow> world" where
  "discard_outputs e r w =
     (if sr_remove_fails (sc_around e) (wd_step w) then w
      else w\<lparr>wd_files := snd (remove_tree
             (attempt_output_prefix (job_id_get (ra_job_id r)) (ra_attempt_id r)) (wd_files w))\<rparr>)"

partial_function (option) reclaim_expired_attempts ::
  "scene \<Rightarrow> world \<Rightarrow> ((repository_error + unit) \<times> world) option" where
  "reclaim_expired_attempts e w =
     (case reclaim_call e w of
        (r, w') \<Rightarrow>
          (case r of
             Inl error \<Rightarrow> Some (Inl error, w')
           | Inr found \<Rightarrow>
               (case found of
                  None \<Rightarrow> Some (Inr (), w')
                | Some reclaimed \<Rightarrow> reclaim_expired_attempts e (discard_outputs e reclaimed w'))))"

section \<open>Maintenance\<close>

datatype upkeep_error = RepositoryFailed repository_error | StorageFailed storage_error

type_synonym 'a upkeep = "world \<Rightarrow> (upkeep_error + 'a) \<times> world"

definition upkeep_bind :: "'a upkeep \<Rightarrow> ('a \<Rightarrow> 'b upkeep) \<Rightarrow> 'b upkeep" where
  "upkeep_bind m f = (\<lambda>w. case m w of (Inl e, w') \<Rightarrow> (Inl e, w') | (Inr x, w') \<Rightarrow> f x w')"

definition upkeep_call :: "scene \<Rightarrow> (nat \<Rightarrow> timestamp \<Rightarrow> 'a tx) \<Rightarrow> 'a upkeep" where
  "upkeep_call e m w = (case scene_call e m w of (r, w') \<Rightarrow> (map_err RepositoryFailed r, w'))"

text \<open>\<open>remove_file\<close>: a missing file is no error; a failure is only logged by the caller.\<close>

definition remove_file :: "scene \<Rightarrow> ustring \<Rightarrow> world \<Rightarrow> world" where
  "remove_file e key w =
     (case resolve_key key of
        Inl error \<Rightarrow> w
      | Inr path \<Rightarrow> if sc_entry_fails e (wd_step w) path then w else w\<lparr>wd_files := (wd_files w)(path := None)\<rparr>)"

text \<open>\<open>checked_sub\<close> with the Unix epoch when the result is out of range.\<close>

definition cutoff :: "scene \<Rightarrow> worker_config \<Rightarrow> nat \<Rightarrow> timestamp" where
  "cutoff e cfg n =
     (case checked_add (sc_range e) (sc_system_time e n) (- int (wc_orphan_grace cfg)) of None \<Rightarrow> 0 | Some t \<Rightarrow> t)"

text \<open>The cleanup walks the tree it finds on the disk; what it removes is gone from the files.\<close>

definition cleanup_storage :: "scene \<Rightarrow> ustring set \<Rightarrow> ustring list \<Rightarrow> timestamp \<Rightarrow> cleanup_report upkeep" where
  "cleanup_storage e referenced prefixes older_than w =
     (let root = sc_listing e (wd_step w) (wd_files w);
          (r, left) = cleanup_unreferenced (sc_entry_fails e (wd_step w)) root referenced prefixes older_than;
          gone = fst ` set (files [] root) - fst ` set (files [] left)
      in (map_err StorageFailed r, w\<lparr>wd_files := (\<lambda>path. if path \<in> gone then None else wd_files w path)\<rparr>))"

definition measure_usage :: "scene \<Rightarrow> u64 upkeep" where
  "measure_usage e w = (map_err StorageFailed (sr_usage (sc_around e) (wd_step w)), w)"

definition run_maintenance :: "scene \<Rightarrow> worker_config \<Rightarrow> unit upkeep" where
  "run_maintenance e cfg =
     upkeep_bind (upkeep_call e (\<lambda>_ now. expire_output_artifacts now (wc_output_retention cfg))) (\<lambda>expired.
     upkeep_bind (\<lambda>w. (Inr (), fold (remove_file e) expired w)) (\<lambda>_.
     upkeep_bind (upkeep_call e (\<lambda>_ _. storage_references)) (\<lambda>references.
     upkeep_bind (upkeep_call e (\<lambda>_ _. active_attempt_output_prefixes)) (\<lambda>protected_prefixes.
     upkeep_bind (\<lambda>w. (Inr (cutoff e cfg (wd_step w)), w)) (\<lambda>older_than.
     upkeep_bind (cleanup_storage e references protected_prefixes older_than) (\<lambda>cleaned.
     upkeep_bind (upkeep_call e (\<lambda>_ now. purge_expired_sessions now)) (\<lambda>sessions_purged.
     upkeep_bind (upkeep_call e (\<lambda>_ now. queue_metrics now)) (\<lambda>queue.
     upkeep_bind (measure_usage e) (\<lambda>storage_bytes. \<lambda>w. (Inr (), w))))))))))"

section \<open>The loop\<close>

definition join_error :: "string \<Rightarrow> repository_error" where
  "join_error error = InvalidData (''worker task terminated unexpectedly: '' @ error)"

fun handle_task_result :: "(string + repository_error + unit) option \<Rightarrow> repository_error + unit" where
  "handle_task_result (Some (Inr result)) = result"
| "handle_task_result (Some (Inl error)) = Inl (join_error error)"
| "handle_task_result None = Inr ()"

definition claim_call :: "scene \<Rightarrow> worker_config \<Rightarrow> claimed_job option proc" where
  "claim_call e cfg =
     scene_call e (\<lambda>n now. claim_next_with_time (sc_row_locked e n) now (sc_token e n) (wc_id cfg) None)"

text \<open>The tasks are the claims under which this worker is processing.\<close>

function fill_tasks ::
  "scene \<Rightarrow> worker_config \<Rightarrow> claimed_job list \<Rightarrow> world \<Rightarrow> (repository_error + unit) \<times> claimed_job list \<times> world" where
  "fill_tasks e cfg tasks w =
     (if length tasks < wc_concurrency_limit cfg \<and> \<not> sc_shutdown e (wd_step w) then
        (case claim_call e cfg w of
           (Inl error, w') \<Rightarrow> (Inl error, tasks, w')
         | (Inr None, w') \<Rightarrow> (Inr (), tasks, w')
         | (Inr (Some claimed), w') \<Rightarrow> fill_tasks e cfg (tasks @ [claimed]) w')
      else (Inr (), tasks, w))"
  by pat_completeness auto

termination fill_tasks
  by (relation "measure (\<lambda>(e, cfg, tasks, w). wc_concurrency_limit cfg - length tasks)") auto

declare fill_tasks.simps [simp del]

datatype turn = Stopped | Aborted repository_error | Repeat | Await

definition materialize_call :: "scene \<Rightarrow> schedule_tick option proc" where
  "materialize_call e =
     scene_call e (\<lambda>n now. materialize_next_schedule_at (sc_row_locked e n) (sc_range e) now now)"

definition worker_pass ::
  "scene \<Rightarrow> worker_config \<Rightarrow> claimed_job list \<Rightarrow> world \<Rightarrow> (turn \<times> claimed_job list \<times> world) option" where
  "worker_pass e cfg tasks w =
     (if sc_shutdown e (wd_step w) then Some (Stopped, tasks, w)
      else case reclaim_expired_attempts e w of
        None \<Rightarrow> None
      | Some (Inl error, w) \<Rightarrow> Some (Aborted error, tasks, w)
      | Some (Inr _, w) \<Rightarrow>
          (case materialize_call e w of
             (Inl error, w) \<Rightarrow> Some (Aborted error, tasks, w)
           | (Inr (Some tick), w) \<Rightarrow> Some (Repeat, tasks, w)
           | (Inr None, w) \<Rightarrow>
               (case fill_tasks e cfg tasks w of
                  (Inl error, tasks, w) \<Rightarrow> Some (Aborted error, tasks, w)
                | (Inr _, tasks, w) \<Rightarrow> Some (Await, tasks, w))))"

definition remove_task :: "nat \<Rightarrow> claimed_job list \<Rightarrow> claimed_job list" where
  "remove_task k tasks = take k tasks @ drop (Suc k) tasks"

definition heartbeat_call :: "scene \<Rightarrow> worker_config \<Rightarrow> timestamp proc" where
  "heartbeat_call e cfg = scene_call e (\<lambda>_ now. heartbeat_worker now (wc_id cfg) (wc_heartbeat_ttl cfg))"

text \<open>One event of the \<open>select!\<close>: what the loop returns, or \<open>None\<close> when it goes on.\<close>

definition on_wake ::
  "scene \<Rightarrow> worker_config \<Rightarrow> wake \<Rightarrow> claimed_job list \<Rightarrow> world \<Rightarrow>
   (repository_error + unit) option \<times> claimed_job list \<times> world" where
  "on_wake e cfg event tasks w =
     (case event of
        ShutdownChanged stop \<Rightarrow> (if stop then Some (Inr ()) else None, tasks, w)
      | TaskJoined k result \<Rightarrow>
          if k < length tasks
          then (case handle_task_result (Some result) of
                  Inl error \<Rightarrow> (Some (Inl error), remove_task k tasks, w)
                | Inr _ \<Rightarrow> (None, remove_task k tasks, w))
          else (None, tasks, w)
      | HeartbeatDue \<Rightarrow>
          (case heartbeat_call e cfg w of
             (Inl error, w') \<Rightarrow> (Some (Inl error), tasks, w')
           | (Inr _, w') \<Rightarrow> (None, tasks, w'))
      | MaintenanceDue \<Rightarrow> (None, tasks, snd (run_maintenance e cfg w))
      | PollElapsed \<Rightarrow> (None, tasks, w))"

partial_function (option) worker_loop ::
  "scene \<Rightarrow> worker_config \<Rightarrow> claimed_job list \<Rightarrow> world \<Rightarrow>
   ((repository_error + unit) \<times> claimed_job list \<times> world) option" where
  "worker_loop e cfg tasks w =
     Option.bind (worker_pass e cfg tasks w) (\<lambda>(turn, tasks, w).
       case turn of
         Stopped \<Rightarrow> Some (Inr (), tasks, w)
       | Aborted error \<Rightarrow> Some (Inl error, tasks, w)
       | Repeat \<Rightarrow> worker_loop e cfg tasks w
       | Await \<Rightarrow>
           (case on_wake e cfg (sc_wake e (wd_step w)) tasks w of
              (result, tasks, w) \<Rightarrow>
                (case result of
                   None \<Rightarrow> worker_loop e cfg tasks w
                 | Some result \<Rightarrow> Some (result, tasks, w))))"

section \<open>Draining and the whole run\<close>

partial_function (option) drain_tasks ::
  "scene \<Rightarrow> worker_config \<Rightarrow> nat \<Rightarrow> claimed_job list \<Rightarrow> world \<Rightarrow> ((repository_error + unit) \<times> world) option" where
  "drain_tasks e cfg k tasks w =
     (if tasks = [] then Some (Inr (), w)
      else case sc_drain e k of
        DrainJoined i result \<Rightarrow>
          (if i < length tasks
           then case handle_task_result (Some result) of
                  Inl error \<Rightarrow> Some (Inl error, w)
                | Inr _ \<Rightarrow> drain_tasks e cfg (Suc k) (remove_task i tasks) w
           else drain_tasks e cfg (Suc k) tasks w)
      | DrainHeartbeat \<Rightarrow>
          (case heartbeat_call e cfg w of
             (r, w') \<Rightarrow>
               (case r of
                  Inl error \<Rightarrow> Some (Inl error, w')
                | Inr _ \<Rightarrow> drain_tasks e cfg (Suc k) tasks w'))
      | DrainDeadline failed \<Rightarrow>
          Some (case failed of None \<Rightarrow> Inr () | Some error \<Rightarrow> Inl (join_error error), w))"

definition run_with_config :: "scene \<Rightarrow> worker_config \<Rightarrow> world \<Rightarrow> ((repository_error + unit) \<times> world) option" where
  "run_with_config e cfg w =
     (case worker_config_validate cfg of
        Inl error \<Rightarrow> Some (Inl error, w)
      | Inr _ \<Rightarrow>
      case scene_call e (\<lambda>_ now. register_worker now (worker_config_registration cfg)) w of
        (Inl error, w) \<Rightarrow> Some (Inl error, w)
      | (Inr _, w) \<Rightarrow>
      Option.bind (worker_loop e cfg [] (snd (run_maintenance e cfg w))) (\<lambda>(loop_result, tasks, w).
      Option.bind (drain_tasks e cfg 0 tasks w) (\<lambda>(drain_result, w).
      case scene_call e (\<lambda>_ now. stop_worker now (wc_id cfg)) w of
        (stop_result, w) \<Rightarrow>
          Some (try_bind loop_result (\<lambda>_. try_bind drain_result (\<lambda>_. stop_result)), w))))"

section \<open>One job\<close>

definition process_next_for_worker :: "scene \<Rightarrow> uuid \<Rightarrow> bool proc" where
  "process_next_for_worker e worker_id =
     proc_bind (scene_call e (\<lambda>n now. claim_next_with_time (sc_row_locked e n) now (sc_token e n) worker_id None))
       (\<lambda>claimed. case claimed of
          None \<Rightarrow> proc_return False
        | Some c \<Rightarrow> proc_bind (process_claimed (sc_around e) c) (\<lambda>_. proc_return True))"

text \<open>\<open>WorkerConfig::default\<close>, with the drawn identifier and its text.\<close>

definition worker_config_default :: "uuid \<Rightarrow> ustring \<Rightarrow> worker_config" where
  "worker_config_default new_id shown = worker_config_new new_id (lit ''worker-'' @ take 8 shown) 2"

definition process_next :: "scene \<Rightarrow> uuid \<Rightarrow> ustring \<Rightarrow> bool proc" where
  "process_next e new_id shown =
     (let cfg = worker_config_default new_id shown in
     proc_bind (scene_call e (\<lambda>_ now. register_worker now (worker_config_registration cfg))) (\<lambda>_.
     proc_bind (attempted (process_next_for_worker e (wc_id cfg))) (\<lambda>result.
     proc_bind (attempted (scene_call e (\<lambda>_ now. stop_worker now (wc_id cfg)))) (\<lambda>stopped.
     \<lambda>w. (case (result, stopped) of
            (Inl error, _) \<Rightarrow> Inl error
          | (Inr _, Inl error) \<Rightarrow> Inl error
          | (Inr processed, Inr _) \<Rightarrow> Inr processed, w)))))"

end
