(* ===== verification/WorkerProps.thy ===== *)
theory WorkerProps
  imports Worker ImagingProps ImageProps
begin

text \<open>
  Properties of the processing of a claimed job: whatever the rest of the system does between its
  database calls, it keeps the invariant, ends the attempt whenever it reports success, and changes no
  file outside the output directory of the attempt.
\<close>

section \<open>The calls close the attempt\<close>

abbreviation progresses :: "db \<Rightarrow> db \<Rightarrow> bool" where
  "progresses \<equiv> evolves_by (\<lambda>_. True)"

definition closed :: "claimed_job \<Rightarrow> db \<Rightarrow> bool" where
  "closed c s \<longleftrightarrow> (\<forall>a \<in> set (attempts s). a_id a = cj_attempt_id c \<longrightarrow> \<not> running a)"

lemma progresses_refl: "progresses s s"
  by (rule history.refl)

lemma closed_stable:
  assumes "closed c s" and "issued s c" and "progresses s t" and "queue_inv t"
  shows "closed c t"
  unfolding closed_def
proof (intro ballI impI)
  fix b assume b: "b \<in> set (attempts t)" "a_id b = cj_attempt_id c"
  obtain a where a: "a \<in> set (attempts s)" "a_id a = cj_attempt_id c" using assms(2) by (auto simp: issued_def)
  with assms(1) have "\<not> running a" by (simp add: closed_def)
  moreover obtain a' where "a' \<in> set (attempts t)" "attempt_step a a'"
    using assms(3) a(1) unfolding evolves_by_def by blast
  ultimately have "a \<in> set (attempts t)" by (simp add: attempt_step_def)
  with keyed_unique [OF queue_inv_keyed(2) [OF assms(4)]] a b have "b = a" by simp
  with \<open>\<not> running a\<close> show "\<not> running b" by simp
qed

lemma held_update_closes:
  assumes "keyed a_id (attempts s)" and "update_attempts (attempt_held now c i) F s = (Inr hits, u)"
    and "length hits = 1" and "\<And>a. a_id (F a) = a_id a" and "\<And>a. \<not> running (F a)"
  shows "closed c u"
proof -
  from assms(2,3) obtain r where "attempt_held now c i r" "u = set_attempts (put_row a_id (F r) (attempts s)) s"
    unfolding update_attempts_def
    by (elim sql_update_one [where k = a_id]) (auto simp: assms(1,4))
  then show ?thesis
    using assms(4,5) by (auto simp: closed_def set_table_defs put_row_def attempt_held_def)
qed

lemma update_jobs_attempts: "update_jobs P F s = (Inr js, t) \<Longrightarrow> attempts t = attempts s"
  by (auto simp: update_jobs_def sql_update_Inr_iff set_table_defs)

lemma calls_close:
  assumes inv: "queue_inv s"
  shows "complete now c dur s = (Inr (), t) \<Longrightarrow> closed c t"
    and "finish_cancelled now c dur s = (Inr (), t) \<Longrightarrow> closed c t"
    and "record_failure now c dur kind message s = (Inr d, t) \<Longrightarrow> closed c t"
    and "complete_image_job now c dur outputs s = (Inr (), t) \<Longrightarrow> closed c t"
proof -
  note k = queue_inv_keyed(2) [OF inv]
  have close: "closed c t"
    if "update_attempts (attempt_held now c i) F s = (Inr hits, u)" "length hits = 1"
      "update_jobs P G u = (Inr js, t)" "\<And>a. a_id (F a) = a_id a" "\<And>a. \<not> running (F a)" for i F hits u P G js t
    using held_update_closes [OF k that(1,2,4,5)] update_jobs_attempts [OF that(3)] by (simp add: closed_def)
  show "closed c t" if "complete now c dur s = (Inr (), t)"
    using that by (auto simp: complete_def tx_bind_Inr_iff tx_returns transaction_Inr_iff
        intro!: close simp: succeed_attempt_def running_def)
  show "closed c t" if "finish_cancelled now c dur s = (Inr (), t)"
    using that by (auto simp: finish_cancelled_def tx_bind_Inr_iff tx_returns transaction_Inr_iff
        intro!: close simp: cancel_attempt_def running_def)
  show "closed c t" if "record_failure now c dur kind message s = (Inr d, t)"
    using that by (auto simp: record_failure_def failure_writes_def tx_bind_Inr_iff tx_returns transaction_Inr_iff
        intro!: close simp: fail_attempt_def running_def split: if_splits)
  show "closed c t" if "complete_image_job now c dur outputs s = (Inr (), t)"
    using completion_publishes_outputs_rows [OF inv that]
    by (auto simp: closed_def put_row_def attempt_held_def succeed_attempt_def running_def)
qed

section \<open>Triples\<close>

text \<open>The rest of the system runs the same operations: it keeps the invariant and the history.\<close>

definition orderly :: "surroundings \<Rightarrow> bool" where
  "orderly e \<longleftrightarrow> (\<forall>n s. queue_inv s \<longrightarrow> queue_inv (sr_db e n s) \<and> progresses s (sr_db e n s))"

definition sound :: "claimed_job \<Rightarrow> db \<Rightarrow> bool" where
  "sound c s \<longleftrightarrow> queue_inv s \<and> issued s c"

definition triple :: "claimed_job \<Rightarrow> (db \<Rightarrow> bool) \<Rightarrow> 'a proc \<Rightarrow> ('a \<Rightarrow> db \<Rightarrow> bool) \<Rightarrow> bool" where
  "triple c P m Q \<longleftrightarrow>
     (\<forall>w r w'. sound c (wd_db w) \<longrightarrow> P (wd_db w) \<longrightarrow> m w = (r, w') \<longrightarrow>
        sound c (wd_db w') \<and> progresses (wd_db w) (wd_db w') \<and> (\<forall>x. r = Inr x \<longrightarrow> Q x (wd_db w')))"

named_theorems triple_rules

lemma sound_trans: "sound c s \<Longrightarrow> progresses s t \<Longrightarrow> queue_inv t \<Longrightarrow> sound c t"
  by (auto simp: sound_def intro: evolves_issued)

lemma triple_bind:
  assumes "triple c P m R" and "\<And>x. triple c (R x) (f x) Q"
  shows "triple c P (proc_bind m f) Q"
  unfolding triple_def
proof (intro allI impI)
  fix w r w' assume s: "sound c (wd_db w)" "P (wd_db w)" and run: "proc_bind m f w = (r, w')"
  obtain q u where m: "m w = (q, u)" by fastforce
  note 1 = assms(1) [unfolded triple_def, rule_format, OF s m]
  show "sound c (wd_db w') \<and> progresses (wd_db w) (wd_db w') \<and> (\<forall>x. r = Inr x \<longrightarrow> Q x (wd_db w'))"
  proof (cases q)
    case (Inl e)
    with run m 1 show ?thesis by (auto simp: proc_bind_def)
  next
    case (Inr x)
    with run m have f: "f x u = (r, w')" by (simp add: proc_bind_def)
    from assms(2) [unfolded triple_def, rule_format, OF _ _ f] 1 Inr
    show ?thesis by (auto intro: evolves_trans)
  qed
qed

lemma triple_weaken:
  "triple c P m Q \<Longrightarrow> (\<And>s. P' s \<Longrightarrow> P s) \<Longrightarrow> (\<And>x s. Q x s \<Longrightarrow> Q' x s) \<Longrightarrow> triple c P' m Q'"
  unfolding triple_def by blast

lemma triple_pure [triple_rules]:
  "(\<And>s. P s \<Longrightarrow> Q x s) \<Longrightarrow> triple c P (proc_return x) Q"
  "triple c P (proc_fail e) Q"
  "triple c P (elapsed sr) (\<lambda>_. P)"
  "triple c P (cleanup_attempt_outputs sr k) (\<lambda>_. P)"
  "triple c P (resize sr i out m q) (\<lambda>_. P)"
  by (auto simp: triple_def proc_return_def proc_fail_def elapsed_def cleanup_attempt_outputs_def resize_def
      progresses_refl split: if_splits prod.splits)

lemma triple_value [triple_rules]: "triple c P (\<lambda>w. (f w, w)) (\<lambda>_. P)"
  by (auto simp: triple_def progresses_refl)

lemma triple_attempted:
  "triple c P m Q \<Longrightarrow> triple c P (attempted m) (\<lambda>r s. \<forall>x. r = Inr x \<longrightarrow> Q x s)"
  unfolding triple_def attempted_def by (fastforce split: prod.splits)

section \<open>Calls\<close>

lemma renewal_tick_sound:
  assumes "sound c (wd_db w)"
  shows "sound c (wd_db (renewal_tick e c w)) \<and> progresses (wd_db w) (wd_db (renewal_tick e c w))"
proof -
  obtain r t where run: "renew_lease_with_time (sr_clock e (wd_step w)) c None (wd_db w) = (r, t)" by fastforce
  have "progresses (wd_db w) t"
    using obeysD [OF history_renew run] by (rule evolves_weaken)
  moreover have "queue_inv t"
    using keepsD [OF renew_lease_keeps _ run] assms by (simp add: sound_def)
  ultimately have "sound c t \<and> progresses (wd_db w) t" using sound_trans [OF assms] by blast
  then show ?thesis
    using assms by (auto simp: renewal_tick_def run progresses_refl split: sum.splits repository_error.splits)
qed

lemma renewal_ticks_sound:
  "sound c (wd_db w) \<Longrightarrow>
     sound c (wd_db (renewal_ticks e c n w)) \<and> progresses (wd_db w) (wd_db (renewal_ticks e c n w))"
proof (induction n)
  case (Suc n)
  then show ?case
    using renewal_tick_sound [of c "renewal_ticks e c n w" e]
    by (auto simp: renewal_ticks_def intro: evolves_trans)
qed (simp add: renewal_ticks_def progresses_refl)

text \<open>A call that keeps the invariant and the history; its postcondition survives the later renewals.\<close>

lemma triple_call:
  assumes e: "orderly e"
    and step: "\<And>now s r t. sound c s \<Longrightarrow> m now s = (r, t) \<Longrightarrow> queue_inv t \<and> progresses s t"
    and post: "\<And>now s x t. sound c s \<Longrightarrow> m now s = (Inr x, t) \<Longrightarrow> Q x \<Longrightarrow> closed c t"
  shows "triple c P (call e c m) (\<lambda>x s. Q x \<longrightarrow> closed c s)"
  unfolding triple_def
proof (intro allI impI)
  fix w r w' assume w: "sound c (wd_db w)" and run: "call e c m w = (r, w')"
  let ?w0 = "interference e w"
  let ?w1 = "renewal_ticks e c (sr_ticks_before e (wd_step w)) ?w0"
  obtain q t where q: "m (sr_clock e (wd_step w)) (wd_db ?w1) = (q, t)" by fastforce
  let ?w2 = "renewal_ticks e c (sr_ticks_after e (wd_step w)) (?w1\<lparr>wd_db := t\<rparr>)"
  have res: "r = q" "wd_db w' = wd_db ?w2" using run q by (auto simp: call_def Let_def)
  have p0: "progresses (wd_db w) (wd_db ?w0)" and s0: "sound c (wd_db ?w0)"
    using e w sound_trans [OF w] by (auto simp: orderly_def interference_def sound_def)
  from renewal_ticks_sound [OF s0] have s1: "sound c (wd_db ?w1)" and p1: "progresses (wd_db ?w0) (wd_db ?w1)"
    by blast+
  from step [OF s1 q] have p2: "progresses (wd_db ?w1) t" and t: "sound c t"
    using sound_trans [OF s1] by blast+
  have s3: "sound c (wd_db ?w2)" and p3: "progresses t (wd_db ?w2)"
    using renewal_ticks_sound [of c "?w1\<lparr>wd_db := t\<rparr>"] t by auto
  have "closed c (wd_db ?w2)" if "q = Inr x" "Q x" for x
    using post [OF s1] q that t closed_stable [OF _ _ p3] s3 by (auto simp: sound_def)
  moreover have "progresses (wd_db w) (wd_db ?w2)"
    using p0 p1 p2 p3 by (blast intro: evolves_trans)
  ultimately show "sound c (wd_db w') \<and> progresses (wd_db w) (wd_db w') \<and>
      (\<forall>x. r = Inr x \<longrightarrow> Q x \<longrightarrow> closed c (wd_db w'))"
    using s3 by (simp add: res)
qed

lemma call_steps:
  assumes "sound c s"
  shows "cancellation_requested now c s = (r1, t) \<Longrightarrow> queue_inv t \<and> progresses s t"
    and "finish_cancelled now c dur s = (r2, t) \<Longrightarrow> queue_inv t \<and> progresses s t"
    and "record_failure now c dur kind message s = (r3, t) \<Longrightarrow> queue_inv t \<and> progresses s t"
    and "record_encoding_duration now c dur s = (r4, t) \<Longrightarrow> queue_inv t \<and> progresses s t"
    and "update_progress now c n s = (r5, t) \<Longrightarrow> queue_inv t \<and> progresses s t"
    and "complete_image_job now c dur outputs s = (r6, t) \<Longrightarrow> queue_inv t \<and> progresses s t"
    and "complete now c dur s = (r7, t) \<Longrightarrow> queue_inv t \<and> progresses s t"
proof -
  have inv: "queue_inv s" and iss: "issued s c" using assms by (simp_all add: sound_def)
  note step = keepsD [where I = queue_inv, OF _ inv] evolves_weaken [OF obeysD]
  show "queue_inv t \<and> progresses s t" if "cancellation_requested now c s = (r1, t)"
  proof -
    have "keeps queue_inv (cancellation_requested now c)"
      unfolding cancellation_requested_def
      by (intro keeps_bind keeps_simple) (auto split: option.split job_status.split)
    with that show ?thesis using step(1) step(2) [OF lifecycle_history(1)] by blast
  qed
  show "queue_inv t \<and> progresses s t" if "finish_cancelled now c dur s = (r2, t)"
    using that step(1) [OF finish_cancelled_keeps] step(2) [OF lifecycle_history(2)] by blast
  show "queue_inv t \<and> progresses s t" if "record_failure now c dur kind message s = (r3, t)"
    using record_failure_keeps [OF inv iss that] step(2) [OF lifecycle_history(3) that] by blast
  show "queue_inv t \<and> progresses s t" if "record_encoding_duration now c dur s = (r4, t)"
    using that step(1) [OF record_encoding_duration_keeps] step(2) [OF images_history(5)] by blast
  show "queue_inv t \<and> progresses s t" if "update_progress now c n s = (r5, t)"
    using that step(1) [OF update_progress_keeps] step(2) [OF images_history(4)] by blast
  show "queue_inv t \<and> progresses s t" if "complete_image_job now c dur outputs s = (r6, t)"
    using that step(1) [OF complete_image_job_keeps] step(2) [OF images_history(6)] by blast
  show "queue_inv t \<and> progresses s t" if "complete now c dur s = (r7, t)"
    using that step(1) [OF complete_keeps] step(2) [OF complete_history] by blast
qed

section \<open>The processing\<close>

abbreviation anything :: "db \<Rightarrow> bool" where
  "anything \<equiv> \<lambda>_. True"

text \<open>Calls that leave the attempt open, and calls that close it when they succeed.\<close>

lemma triple_open_call:
  assumes "orderly e" and "\<And>now s r t. sound c s \<Longrightarrow> m now s = (r, t) \<Longrightarrow> queue_inv t \<and> progresses s t"
  shows "triple c P (call e c m) (\<lambda>_. anything)"
  by (rule triple_weaken [OF triple_call [where Q = "\<lambda>_. False", OF assms]]) simp_all

lemma triple_closing_call:
  assumes "orderly e" and "\<And>now s r t. sound c s \<Longrightarrow> m now s = (r, t) \<Longrightarrow> queue_inv t \<and> progresses s t"
    and "\<And>now s x t. sound c s \<Longrightarrow> m now s = (Inr x, t) \<Longrightarrow> closed c t"
  shows "triple c P (call e c m) (\<lambda>_. closed c)"
  by (rule triple_weaken [OF triple_call [where Q = "\<lambda>_. True", OF assms]]) simp_all

lemma triple_finish:
  assumes e: "orderly e"
  shows "triple c P (finish_if_cancel_requested e c) (\<lambda>b s. b \<longrightarrow> closed c s)"
  unfolding finish_if_cancel_requested_def
proof (rule triple_bind)
  show "triple c P (call e c (\<lambda>now. cancellation_requested now c)) (\<lambda>_. anything)"
    by (rule triple_open_call [OF e call_steps(1)])
  fix requested
  have "triple c anything (call e c (\<lambda>now. finish_cancelled now c dur)) (\<lambda>_. closed c)" for dur
    by (rule triple_closing_call [OF e call_steps(2)]) (auto simp: sound_def intro: calls_close(2))
  then have "triple c anything (proc_bind (call e c (\<lambda>now. finish_cancelled now c dur)) (\<lambda>_. proc_return True))
      (\<lambda>b s. b \<longrightarrow> closed c s)" for dur
    by (rule triple_bind) (rule triple_pure(1), simp)
  then show "triple c anything (if \<not> requested then proc_return False
     else proc_bind (cleanup_attempt_outputs e c) (\<lambda>_. proc_bind (elapsed e) (\<lambda>dur.
          proc_bind (call e c (\<lambda>now. finish_cancelled now c dur)) (\<lambda>_. proc_return True))))
     (\<lambda>b s. b \<longrightarrow> closed c s)"
    by (auto intro!: triple_bind [OF triple_pure(4)] triple_bind [OF triple_pure(3)] triple_pure(1))
qed

lemma triple_or_cancelled:
  assumes e: "orderly e"
  shows "triple c (\<lambda>s. \<forall>x. r = Inr x \<longrightarrow> closed c s) (or_cancelled e c r) (\<lambda>_. closed c)"
proof (cases r)
  case (Inl error)
  show ?thesis
    unfolding or_cancelled_def Inl sum.case
    by (auto intro!: triple_bind [OF triple_finish [OF e]] triple_pure(1,2))
qed (auto simp: or_cancelled_def intro!: triple_pure)

text \<open>A closing call whose conflict is turned into a cancellation.\<close>

lemma triple_closing:
  assumes "orderly e" and "\<And>now s r t. sound c s \<Longrightarrow> m now s = (r, t) \<Longrightarrow> queue_inv t \<and> progresses s t"
    and "\<And>now s x t. sound c s \<Longrightarrow> m now s = (Inr x, t) \<Longrightarrow> closed c t"
  shows "triple c P (proc_bind (attempted (call e c m)) (\<lambda>r. or_cancelled e c r)) (\<lambda>_. closed c)"
  by (rule triple_bind [OF triple_attempted [OF triple_closing_call [OF assms]] triple_or_cancelled [OF assms(1)]])

lemma triple_failure:
  assumes e: "orderly e"
  shows "triple c P (record_image_failure e c kind message) (\<lambda>_. closed c)"
  unfolding record_image_failure_def
  by (rule triple_bind [OF triple_pure(4) triple_bind [OF triple_pure(3) triple_closing [OF e call_steps(3)]]])
    (auto simp: sound_def intro: calls_close(3))

lemma triple_image:
  assumes e: "orderly e"
  shows "triple c P (process_image e c w q budget k input) (\<lambda>out s. out = None \<longrightarrow> closed c s)"
proof -
  have fail: "triple c anything (proc_bind (record_image_failure e c kind message) (\<lambda>_. proc_return None))
      (\<lambda>out s. out = None \<longrightarrow> closed c s)" for kind message
    by (rule triple_bind [OF triple_failure [OF e]]) (rule triple_pure(1), simp)
  have progress: "triple c P' (proc_bind (\<lambda>w. (ok_or (InvalidData ''image progress exceeds u32'') n, w))
      (\<lambda>n. call e c (\<lambda>now. update_progress now c n))) (\<lambda>_. anything)" for n P'
    by (rule triple_bind [OF triple_value triple_open_call [OF e call_steps(5)]])
  note finish = triple_finish [OF e]
  show ?thesis
    unfolding process_image_def
    by (auto intro!: fail triple_pure(1,2) triple_bind [OF finish] triple_bind [OF triple_pure(5)]
        triple_bind [OF triple_pure(3)] triple_bind [OF triple_open_call [OF e call_steps(4)]]
        triple_bind [OF triple_value] triple_bind [OF triple_attempted [OF progress]]
        split: sum.split)
qed

lemma triple_inputs:
  assumes e: "orderly e"
  shows "triple c P (process_inputs e c w q budget k inputs outputs) (\<lambda>outs s. outs = None \<longrightarrow> closed c s)"
proof (induction inputs arbitrary: k outputs P)
  case Nil
  then show ?case by (simp add: triple_pure(1))
next
  case (Cons input inputs)
  show ?case
    unfolding process_inputs.simps
    by (rule triple_bind [OF triple_image [OF e]]) (auto intro!: triple_pure(1) Cons.IH split: option.split)
qed

lemma triple_processing:
  assumes e: "orderly e"
  shows "triple c P (process_claimed_inner e c budget) (\<lambda>_. closed c)"
proof (cases "cj_work c")
  case (WDemoDelay delay)
  show ?thesis
    unfolding process_claimed_inner_def WDemoDelay claimed_work.case
    by (rule triple_bind [OF triple_finish [OF e]])
      (auto intro!: triple_pure(1) triple_bind [OF triple_pure(3)] triple_closing [OF e call_steps(7)]
        simp: sound_def intro: calls_close(1))
next
  case (WImageResize w q inputs)
  have pub: "closed c t" if "sound c s" "complete_image_job now c dur outputs s = (Inr x, t)" for now s dur outputs x t
    using that calls_close(4) [of s now c dur outputs t] by (simp add: sound_def)
  show ?thesis
    unfolding process_claimed_inner_def WImageResize claimed_work.case process_images_def
    by (rule triple_bind [OF triple_inputs [OF e]])
      (auto intro!: triple_pure(1) triple_bind [OF triple_finish [OF e]] triple_bind [OF triple_pure(3)]
        triple_closing [OF e call_steps(6) pub] split: option.split)
qed

text \<open>C27. Whatever the rest of the system does between the database calls of a worker, as long as it keeps the
  invariant and the history, the processing of a claimed job keeps them too; and when it reports success
  the attempt is no longer running, on every path: completed, failed, scheduled for a retry, or cancelled.\<close>
theorem processing_closes_attempt:
  assumes "queue_inv (wd_db w)" and "issued (wd_db w) c"
    and "\<forall>n s. queue_inv s \<longrightarrow> queue_inv (sr_db e n s) \<and> evolves_by (\<lambda>_. True) s (sr_db e n s)"
    and "process_claimed_inner e c budget w = (r, w')"
  shows "queue_inv (wd_db w') \<and> evolves_by (\<lambda>_. True) (wd_db w) (wd_db w') \<and>
    (r = Inr () \<longrightarrow> (\<forall>a \<in> set (attempts (wd_db w')). a_id a = cj_attempt_id c \<longrightarrow> a_state a \<noteq> ARunning))"
  using triple_processing [of e c anything budget] assms
  unfolding triple_def orderly_def sound_def closed_def running_def by blast

section \<open>Files\<close>

definition own_directory :: "claimed_job \<Rightarrow> ustring list" where
  "own_directory c =
     [lit ''outputs'', lit (''job-'' @ show_nat (unat (job_id_get (cj_job_id c)))),
      lit (''attempt-'' @ show_int (cj_attempt_id c))]"

definition undisturbed :: "surroundings \<Rightarrow> bool" where
  "undisturbed e \<longleftrightarrow> (\<forall>n fs. sr_files e n fs = fs)"

definition confined :: "claimed_job \<Rightarrow> 'a proc \<Rightarrow> bool" where
  "confined c m \<longleftrightarrow>
     (\<forall>w path. \<not> under (own_directory c) path \<longrightarrow> wd_files (snd (m w)) path = wd_files w path)"

lemma resolve_own_directory:
  "resolve_key (attempt_output_prefix (job_id_get (cj_job_id c)) (cj_attempt_id c)) = Inr (own_directory c)"
proof -
  have "attempt_output_prefix (job_id_get (cj_job_id c)) (cj_attempt_id c) = join_slash (own_directory c)"
    by (simp add: attempt_output_prefix_def own_directory_def lit_append; simp add: lit_def)
  moreover have "list_all plain_segment (own_directory c)"
    using output_path_plain(2) [of "job_id_get (cj_job_id c)" "cj_attempt_id c" 0]
    by (simp add: own_directory_def output_path_def)
  ultimately show ?thesis using resolve_join(1) [of "own_directory c"] by (simp add: own_directory_def)
qed

lemma under_own_directory: "under (own_directory c) (output_path (job_id_get (cj_job_id c)) (cj_attempt_id c) input)"
  by (simp add: under_def own_directory_def output_path_def)

lemma renewal_ticks_files: "wd_files (renewal_ticks e c n w) = wd_files w"
  by (induction n) (auto simp: renewal_ticks_def renewal_tick_def split: prod.splits sum.splits repository_error.splits)

lemma process_path_files:
  "process_path cd io inp out key m q fs = (r, fs') \<Longrightarrow> path \<noteq> out \<Longrightarrow> fs' path = fs path"
  by (elim process_path_cases) (auto dest: encode_output_files(1))

lemma resize_files:
  assumes "resize_to_jpeg cd io input_key out_key m q fs = (r, fs')" and "resolve_key out_key = Inr out" "path \<noteq> out"
  shows "fs' path = fs path"
  using assms
  by (auto simp: resize_to_jpeg_def Let_def try_bind_Inr_iff intro: process_path_files split: if_splits sum.splits)

named_theorems confined_rules

lemma confined_bind: "confined c m \<Longrightarrow> (\<And>x. confined c (f x)) \<Longrightarrow> confined c (proc_bind m f)"
  unfolding confined_def proc_bind_def by (auto split: prod.splits sum.splits) (metis snd_conv)+

lemma confined_pure [confined_rules]:
  "confined c (proc_return x)" "confined c (proc_fail e)" "confined c (elapsed sr)" "confined c (\<lambda>w. (f w, w))"
  by (simp_all add: confined_def proc_return_def proc_fail_def elapsed_def)

lemma confined_attempted [confined_rules]: "confined c m \<Longrightarrow> confined c (attempted m)"
  unfolding confined_def attempted_def by (auto split: prod.splits) (metis snd_conv)

lemma confined_call [confined_rules]: "undisturbed e \<Longrightarrow> confined c (call e c m)"
  by (simp add: confined_def call_def Let_def renewal_ticks_files interference_def undisturbed_def split: prod.splits)

lemma confined_cleanup [confined_rules]: "confined c (cleanup_attempt_outputs e c)"
  by (simp add: confined_def cleanup_attempt_outputs_def remove_tree_def resolve_own_directory)

lemma confined_resize [confined_rules]:
  "confined c (resize e input_key (output_key (job_id_get (cj_job_id c)) (cj_attempt_id c) i) m q)"
  unfolding confined_def
proof (intro allI impI)
  fix w :: world and path assume p: "\<not> under (own_directory c) path"
  let ?out = "output_key (job_id_get (cj_job_id c)) (cj_attempt_id c) i"
  obtain r fs where run: "resize_to_jpeg (sr_codecs e) (sr_io e) input_key ?out m q (wd_files w) = (r, fs)" by fastforce
  have "fs path = wd_files w path"
    by (rule resize_files [OF run output_keys_round_trip_path]) (use p under_own_directory in blast)
  then show "wd_files (snd (resize e input_key ?out m q w)) path = wd_files w path"
    by (simp add: resize_def run)
qed

lemma confined_finish [confined_rules]: "undisturbed e \<Longrightarrow> confined c (finish_if_cancel_requested e c)"
  unfolding finish_if_cancel_requested_def by (auto intro!: confined_bind confined_rules)

lemma confined_or_cancelled [confined_rules]: "undisturbed e \<Longrightarrow> confined c (or_cancelled e c r)"
  unfolding or_cancelled_def by (auto intro!: confined_bind confined_rules split: sum.split)

lemma confined_failure [confined_rules]: "undisturbed e \<Longrightarrow> confined c (record_image_failure e c kind message)"
  unfolding record_image_failure_def by (auto intro!: confined_bind confined_rules)

lemma confined_image [confined_rules]: "undisturbed e \<Longrightarrow> confined c (process_image e c w q budget k input)"
  unfolding process_image_def by (auto intro!: confined_bind confined_rules split: sum.split)

lemma confined_inputs [confined_rules]:
  "undisturbed e \<Longrightarrow> confined c (process_inputs e c w q budget k inputs outputs)"
  by (induction inputs arbitrary: k outputs) (auto intro!: confined_bind confined_rules split: option.split)

lemma confined_processing [confined_rules]: "undisturbed e \<Longrightarrow> confined c (process_claimed_inner e c budget)"
  unfolding process_claimed_inner_def process_images_def
  by (auto intro!: confined_bind confined_rules split: claimed_work.split option.split)

text \<open>C28. Processing a claimed job with its lease renewals changes no file outside the output directory of its
  own attempt, whatever the outcome: in particular no input and no output of another attempt.\<close>
theorem worker_writes_own_outputs:
  assumes "\<forall>n fs. sr_files e n fs = fs" and "process_with_lease_renewal e c budget w = (r, w')"
    and "take 3 path \<noteq> [lit ''outputs'', lit (''job-'' @ show_nat (unat (job_id_get (cj_job_id c)))),
           lit (''attempt-'' @ show_int (cj_attempt_id c))]"
  shows "wd_files w' path = wd_files w path"
proof -
  have e: "undisturbed e" and p: "\<not> under (own_directory c) path"
    using assms(1,3) by (simp_all add: undisturbed_def under_def own_directory_def numeral_3_eq_3)
  obtain q u where run: "process_claimed_inner e c budget (w\<lparr>wd_lost := False\<rparr>) = (q, u)" by fastforce
  have "wd_files u path = wd_files w path"
    using confined_processing [OF e, of c budget, unfolded confined_def, rule_format, OF p, of "w\<lparr>wd_lost := False\<rparr>"]
    by (simp add: run)
  moreover have "confined c (finish_claimed_result e c k)" for k
    unfolding finish_claimed_result_def by (auto intro!: confined_bind confined_rules)
  then have "wd_files (snd (finish_claimed_result e c k u)) path = wd_files u path" for k
    using p unfolding confined_def by blast
  ultimately show ?thesis
    using assms(2) by (simp add: process_with_lease_renewal_def run) (metis snd_conv)
qed

section \<open>An example run\<close>

text \<open>One input; the renewal timer fires after the commit of the sixth call, the completion.\<close>

definition ex_world :: world where
  "ex_world = \<lparr>wd_db = ex_image_db, wd_files = [[lit ''a''] \<mapsto> [1]], wd_step = 0, wd_lost = False\<rparr>"

definition ex_surroundings :: surroundings where
  "ex_surroundings =
     \<lparr>sr_clock = (\<lambda>_. 100), sr_elapsed = (\<lambda>_. 0), sr_db = (\<lambda>_ s. s), sr_files = (\<lambda>_ fs. fs),
      sr_ticks_before = (\<lambda>_. 0), sr_ticks_after = (\<lambda>n. if n = 5 then 1 else 0),
      sr_remove_fails = (\<lambda>_. False), sr_usage = (\<lambda>_. Inr 3), sr_codecs = ex_codecs,
      sr_io = ex_io (\<lambda>_. Written)\<rparr>"

lemma ex_keys:
  "resolve_key [97] = Inr [[97]]" "resolve_key (output_key 2 1 1) = Inr (output_path 2 1 1)"
  "output_name [97, 46, 112, 110, 103] = [97, 46, 106, 112, 103]"
  "validate_dimensions 4 2 = Inr ()" "resized_dimensions 4 2 2 = (2, 1)"
  by (simp add: output_keys_round_trip_path | code_simp)+

lemmas [evaluate] =
  ex_world_def ex_surroundings_def ex_codecs_def ex_io_def ex_keys
  process_claimed_inner_def process_images_def process_image_def finish_if_cancel_requested_def
  or_cancelled_def resize_def resize_to_jpeg_def process_path_def inspect_path_def read_file_def
  encode_output_def write_output_def Let_def proc_return_def proc_fail_def proc_bind_def attempted_def call_def
  renewal_ticks_def renewal_tick_def interference_def elapsed_def cancellation_requested_def
  record_encoding_duration_def update_progress_def progress_within_def renew_lease_with_time_def
  renewable_def renewing_worker_def pending_output_def

lemma ex_run:
  "\<exists>w. process_claimed_inner ex_surroundings ex_image_claim 10 (ex_world\<lparr>wd_lost := False\<rparr>) = (Inr (), w) \<and> wd_lost w \<and>
     List.map j_state (jobs (wd_db w)) = [Succeeded] \<and>
     List.map f_storage_key (artifacts (wd_db w)) = [lit ''a'', output_key 2 1 1]"
  by (simp add: evaluate)

lemma ex_quiet:
  "wd_db ex_world = ex_image_db" "sr_db ex_surroundings n s = s" "sr_files ex_surroundings n fs = fs"
  "\<not> sr_remove_fails ex_surroundings n" "ex_world\<lparr>wd_lost := False\<rparr> = ex_world"
  by (simp_all add: ex_world_def ex_surroundings_def)

lemma ex_image_issued: "issued ex_image_db ex_image_claim"
  by (simp add: issued_def evaluate)

theorem processing_closes_attempt_witness:
  "\<exists>w. process_claimed_inner ex_surroundings ex_image_claim 10 ex_world = (Inr (), w) \<and> queue_inv (wd_db w) \<and>
     List.map j_state (jobs (wd_db w)) = [Succeeded] \<and>
     (\<forall>a \<in> set (attempts (wd_db w)). a_id a = 1 \<longrightarrow> a_state a \<noteq> ARunning)"
proof -
  obtain w where run: "process_claimed_inner ex_surroundings ex_image_claim 10 ex_world = (Inr (), w)"
    and state: "List.map j_state (jobs (wd_db w)) = [Succeeded]"
    using ex_run by (auto simp: ex_quiet)
  have "cj_attempt_id ex_image_claim = 1" by (simp add: evaluate)
  with processing_closes_attempt [OF _ _ _ run, unfolded ex_quiet, OF ex_image_db_inv ex_image_issued] run state
  show ?thesis by (auto intro: progresses_refl)
qed

theorem worker_writes_own_outputs_witness:
  "wd_files (snd (process_with_lease_renewal ex_surroundings ex_image_claim 10 ex_world)) [lit ''a''] = Some [1]"
proof -
  obtain r w' where run: "process_with_lease_renewal ex_surroundings ex_image_claim 10 ex_world = (r, w')" by fastforce
  have "wd_files w' [lit ''a''] = wd_files ex_world [lit ''a'']"
    by (rule worker_writes_own_outputs [OF _ run]) (simp_all add: ex_quiet)
  moreover have "wd_files ex_world [lit ''a''] = Some [1]" by (simp add: ex_world_def)
  ultimately show ?thesis by (simp add: run)
qed

end
