(* ===== verification/WorkerLoopProps.thy ===== *)
theory WorkerLoopProps
  imports WorkerLoop WorkerProps MaintenanceProps
begin

text \<open>
  Properties of the worker's loop: the reclaim loop ends, the worker stays within its concurrency limit,
  and maintenance spares the inputs of stored jobs.
\<close>

section \<open>The reclaim loop\<close>

definition running_count :: "db \<Rightarrow> nat" where
  "running_count s = length (filter running (attempts s))"

lemma filter_put_row_length:
  assumes "r \<in> set rs" and "k r' = k r" and "P r" and "\<not> P r'"
  shows "length (filter P (put_row k r' rs)) < length (filter P rs)"
proof -
  have "filter P (put_row k r' rs) = filter (\<lambda>x. k x \<noteq> k r) (filter P rs)"
    using assms(2,4) by (induction rs) (auto simp: put_row_def)
  then show ?thesis using length_filter_less [of r "filter P rs" "\<lambda>x. k x \<noteq> k r"] assms(1,3) by simp
qed

lemma reclaim_closes_one:
  assumes inv: "queue_inv s" and run: "reclaim_next_expired_attempt_at locked rng now s = (Inr (Some r), t)"
  shows "running_count t < running_count s"
proof -
  from run obtain a j worker d where "reclaim_body locked rng now s = (Inr (Some (a, j, worker, d)), t)"
    by (auto simp: reclaim_next_expired_attempt_at_def tx_bind_Inr_iff transaction_Inr_iff tx_returns
        split: option.splits prod.splits)
  then show ?thesis
  proof (rule reclaim_body_Some)
    fix ms hits u
    assume upd: "update_attempts (\<lambda>r. a_id r = a_id a \<and> a_job r = j_id j \<and> expired now r)
        (reclaim_attempt_row (j_state j = CancelRequested) now ms) s = (Inr hits, u)" "length hits = 1"
      and job: "reclaim_job rng now a j u = (Inr d, t)"
    from upd(1) obtain r where r: "r \<in> set (attempts s)" "expired now r"
      "u = set_attempts (put_row a_id (reclaim_attempt_row (j_state j = CancelRequested) now ms r) (attempts s)) s"
      unfolding update_attempts_def
      by (elim sql_update_one [where k = a_id])
        (auto simp: upd(2) queue_inv_keyed(2) [OF inv] reclaim_attempt_row_def)
    have "attempts t = attempts u"
      using job by (cases rule: reclaim_job_cases) (auto dest: update_jobs_attempts)
    then have "attempts t = put_row a_id (reclaim_attempt_row (j_state j = CancelRequested) now ms r) (attempts s)"
      using r(3) by (simp add: set_table_defs)
    then show ?thesis
      using filter_put_row_length [OF r(1), of a_id "reclaim_attempt_row (j_state j = CancelRequested) now ms r" running]
        expired_running [OF r(2)]
      by (simp add: running_count_def) (simp add: reclaim_attempt_row_def running_def)
  qed
qed

lemma reclaim_stops_empty:
  assumes "reclaim_next_expired_attempt_at locked rng now s = (Inr None, t)"
  shows "reclaim_candidates locked now t = []"
proof -
  have "first_by reclaim_key (reclaim_candidates locked now s) = None \<and> t = s"
    using assms
    by (auto simp: reclaim_next_expired_attempt_at_def reclaim_body_def tx_bind_Inr_iff transaction_Inr_iff tx_returns
        split: option.splits prod.splits)
  then show ?thesis by (simp add: first_by_None_iff)
qed

text \<open>C30. The reclaim loop of a worker ends as long as the rest of the system keeps the invariant and from
  some step on starts no attempt: every round closes one running attempt. When it ends without an error,
  no expired attempt that other transactions leave unlocked is left.\<close>
theorem reclaim_loop_terminates:
  assumes "queue_inv (wd_db w)"
    and "\<forall>n s. queue_inv s \<longrightarrow> queue_inv (sr_db (sc_around e) n s)"
    and "\<forall>n \<ge> N. \<forall>s. running_count (sr_db (sc_around e) n s) \<le> running_count s"
  shows "\<exists>r w'. reclaim_expired_attempts e w = Some (r, w') \<and>
    (r = Inr () \<longrightarrow> (\<exists>n. reclaim_candidates (sc_pair_locked e n) (sr_clock (sc_around e) n) (wd_db w') = []))"
  using assms(1)
proof (induction "(N - wd_step w, running_count (wd_db w))" arbitrary: w
    rule: wf_induct_rule [OF wf_lex_prod [OF wf_less_than wf_less_than]])
  case 1
  let ?s = "wd_db (interference (sc_around e) w)"
  let ?n = "wd_step w"
  obtain r t where run: "reclaim_next_expired_attempt_at (sc_pair_locked e ?n) (sc_range e) (sr_clock (sc_around e) ?n) ?s = (r, t)"
    by fastforce
  let ?w = "interference (sc_around e) w\<lparr>wd_db := t, wd_step := Suc ?n\<rparr>"
  have inv: "queue_inv ?s" using assms(2) 1(2) by (simp add: interference_def)
  have call: "reclaim_call e w = (r, ?w)" by (simp add: reclaim_call_def scene_call_def run)
  show ?case
  proof (cases r)
    case (Inl error)
    then show ?thesis by (simp add: reclaim_expired_attempts.simps [of e w] call)
  next
    case (Inr found)
    show ?thesis
    proof (cases found)
      case None
      then have "reclaim_candidates (sc_pair_locked e ?n) (sr_clock (sc_around e) ?n) t = []"
        using reclaim_stops_empty run Inr by blast
      then show ?thesis by (auto simp: reclaim_expired_attempts.simps [of e w] call Inr None)
    next
      case (Some reclaimed)
      let ?v = "discard_outputs e reclaimed ?w"
      have v: "wd_db ?v = t" "wd_step ?v = Suc ?n" by (simp_all add: discard_outputs_def)
      have "running_count t < running_count ?s" using reclaim_closes_one [OF inv run [unfolded Inr Some]] .
      moreover have "N - ?n = 0 \<Longrightarrow> running_count ?s \<le> running_count (wd_db w)"
        using assms(3) by (simp add: interference_def)
      ultimately have "((N - wd_step ?v, running_count (wd_db ?v)), (N - wd_step w, running_count (wd_db w)))
          \<in> less_than <*lex*> less_than"
        by (cases "N \<le> ?n") (auto simp: v)
      moreover have "queue_inv (wd_db ?v)" using keepsD [OF reclaim_keeps inv run] by (simp add: v)
      ultimately show ?thesis
        using 1(1) [of ?v] by (simp add: reclaim_expired_attempts.simps [of e w] call Inr Some)
    qed
  qed
qed

definition ex_scene :: "(nat \<Rightarrow> db \<Rightarrow> db) \<Rightarrow> (nat \<Rightarrow> stored \<Rightarrow> entries) \<Rightarrow> timestamp \<Rightarrow> scene" where
  "ex_scene others listing now =
     \<lparr>sc_around = ex_surroundings\<lparr>sr_clock := (\<lambda>_. now), sr_db := others\<rparr>,
      sc_pair_locked = (\<lambda>_ _ _. False), sc_row_locked = (\<lambda>_ _. False), sc_range = (\<lambda>_. True),
      sc_token = (\<lambda>_. 99), sc_shutdown = (\<lambda>_. False), sc_wake = (\<lambda>_. PollElapsed),
      sc_drain = (\<lambda>_. DrainDeadline None), sc_system_time = (\<lambda>_. now), sc_listing = listing,
      sc_entry_fails = (\<lambda>_ _. False)\<rparr>"

theorem reclaim_loop_terminates_witness:
  "\<exists>r w'. reclaim_expired_attempts (ex_scene (\<lambda>_ s. s) (\<lambda>_ _. []) (seconds 31)) (ex_world\<lparr>wd_db := ex_db\<rparr>)
     = Some (r, w')"
proof -
  have "queue_inv (wd_db (ex_world\<lparr>wd_db := ex_db\<rparr>))" by (simp add: ex_db_inv)
  from reclaim_loop_terminates [OF this, of "ex_scene (\<lambda>_ s. s) (\<lambda>_ _. []) (seconds 31)" 0]
  show ?thesis by (auto simp: ex_scene_def)
qed

section \<open>Maintenance\<close>

text \<open>What holds of the database while the file of an input is on the disk.\<close>

definition input_stored :: "artifact_row \<Rightarrow> ustring list \<Rightarrow> db \<Rightarrow> bool" where
  "input_stored f path s \<longleftrightarrow>
     f \<in> set (artifacts s) \<and> f_kind f = Input \<and>
     (\<forall>g \<in> set (artifacts s). f_kind g = Output \<longrightarrow> resolve_key (f_storage_key g) \<noteq> Inr path)"

definition upkeep_spares :: "(db \<Rightarrow> bool) \<Rightarrow> ustring list \<Rightarrow> 'a upkeep \<Rightarrow> ('a \<Rightarrow> bool) \<Rightarrow> bool" where
  "upkeep_spares J path m Q \<longleftrightarrow>
     (\<forall>w r w'. J (wd_db w) \<longrightarrow> m w = (r, w') \<longrightarrow>
        J (wd_db w') \<and> wd_files w' path = wd_files w path \<and> (\<forall>x. r = Inr x \<longrightarrow> Q x))"

lemma spares_bind:
  assumes "upkeep_spares J path m R" and "\<And>x. R x \<Longrightarrow> upkeep_spares J path (f x) Q"
  shows "upkeep_spares J path (upkeep_bind m f) Q"
  unfolding upkeep_spares_def
proof (intro allI impI)
  fix w r w' assume w: "J (wd_db w)" and run: "upkeep_bind m f w = (r, w')"
  obtain q u where m: "m w = (q, u)" by fastforce
  note 1 = assms(1) [unfolded upkeep_spares_def, rule_format, OF w m]
  show "J (wd_db w') \<and> wd_files w' path = wd_files w path \<and> (\<forall>x. r = Inr x \<longrightarrow> Q x)"
  proof (cases q)
    case (Inl e)
    with run m 1 show ?thesis by (auto simp: upkeep_bind_def)
  next
    case (Inr x)
    with run m have f: "f x u = (r, w')" by (simp add: upkeep_bind_def)
    from assms(2) [of x, unfolded upkeep_spares_def, rule_format, OF _ _ f] 1 Inr show ?thesis by simp
  qed
qed

lemma spares_call:
  assumes others: "\<forall>n s. J s \<longrightarrow> J (sr_db (sc_around e) n s)" "\<forall>n fs. sr_files (sc_around e) n fs path = fs path"
    and step: "\<And>n now s r t. J s \<Longrightarrow> m n now s = (r, t) \<Longrightarrow> J t \<and> (\<forall>x. r = Inr x \<longrightarrow> Q x)"
  shows "upkeep_spares J path (upkeep_call e m) Q"
  unfolding upkeep_spares_def
proof (intro allI impI)
  fix w r w' assume w: "J (wd_db w)" and run: "upkeep_call e m w = (r, w')"
  let ?s = "wd_db (interference (sc_around e) w)"
  obtain q t where q: "m (wd_step w) (sr_clock (sc_around e) (wd_step w)) ?s = (q, t)" by fastforce
  have "J ?s" using others(1) w by (simp add: interference_def)
  from step [OF this q] others(2) run q
  show "J (wd_db w') \<and> wd_files w' path = wd_files w path \<and> (\<forall>x. r = Inr x \<longrightarrow> Q x)"
    by (auto simp: upkeep_call_def scene_call_def interference_def Let_def)
qed

lemma spares_quiet:
  assumes "\<And>w. wd_db (snd (m w)) = wd_db w" and "\<And>w. wd_files (snd (m w)) path = wd_files w path"
  shows "upkeep_spares J path m (\<lambda>_. True)"
  using assms unfolding upkeep_spares_def by (metis snd_conv)

lemma remove_files_spare:
  "\<forall>key \<in> set keys. resolve_key key \<noteq> Inr path \<Longrightarrow>
     wd_db (fold (remove_file e) keys w) = wd_db w \<and> wd_files (fold (remove_file e) keys w) path = wd_files w path"
proof (induction keys arbitrary: w)
  case (Cons key keys)
  then have "wd_db (remove_file e key w) = wd_db w \<and> wd_files (remove_file e key w) path = wd_files w path"
    by (auto simp: remove_file_def split: sum.splits)
  with Cons show ?case by simp
qed simp

lemma cleanup_storage_spares:
  assumes "relative_key path \<in> referenced"
  shows "upkeep_spares J path (cleanup_storage e referenced prefixes older_than) (\<lambda>_. True)"
proof -
  have "(path, n) \<in> set (files [] left)"
    if c: "cleanup_unreferenced fails root referenced prefixes older_than = (r, left)"
      and n: "(path, n) \<in> set (files [] root)" for fails root r left n
  proof -
    have "kept (protected referenced prefixes) older_than (path, n)"
      using assms by (simp add: kept_def protected_def)
    with cleanup_keeps [of fails "protected referenced prefixes" older_than "[]" root empty_report r left] c n
    show ?thesis by (auto simp: cleanup_unreferenced_def split: if_splits)
  qed
  then show ?thesis
    unfolding upkeep_spares_def cleanup_storage_def Let_def by (fastforce split: prod.splits)
qed

lemma expire_spares:
  assumes "input_stored f path s" and "expire_output_artifacts now retention s = (r, t)"
  shows "input_stored f path t \<and> (\<forall>keys. r = Inr keys \<longrightarrow> (\<forall>key \<in> set keys. resolve_key key \<noteq> Inr path))"
proof (cases r)
  case (Inl e)
  with assms(2) have "artifacts t = artifacts s"
    by (auto simp: expire_output_artifacts_def tx_bind_Inl_iff tx_returns transaction_Inl_iff split: option.splits)
  with assms(1) Inl show ?thesis by (simp add: input_stored_def)
next
  case (Inr keys)
  with assms(2) obtain n where body: "expire_body now n s = (Inr keys, t)"
    by (auto simp: expire_output_artifacts_def tx_bind_Inr_iff tx_returns transaction_Inr_iff)
  have "f_kind g = Output" if "expirable s u g" for g u using that by (simp add: expirable_def)
  then show ?thesis
    using assms(1) expire_body_Inr(1,2) [OF body] Inr by (auto simp: input_stored_def)
qed

lemma references_spare:
  "input_stored f path s \<Longrightarrow> storage_references s = (r, t) \<Longrightarrow>
     input_stored f path t \<and> (\<forall>x. r = Inr x \<longrightarrow> f_storage_key f \<in> x)"
  by (auto simp: storage_references_def tx_returns input_stored_def)

lemma reads_spare:
  "input_stored f path s \<Longrightarrow> active_attempt_output_prefixes s = (r, t) \<Longrightarrow> input_stored f path t"
  "input_stored f path s \<Longrightarrow> queue_metrics now s = (r', t) \<Longrightarrow> input_stored f path t"
  using keepsD [OF maintenance_queries(4)] keepsD [OF maintenance_queries(2)] by blast+

lemma purge_spares:
  "input_stored f path s \<Longrightarrow> purge_expired_sessions now s = (r, t) \<Longrightarrow> input_stored f path t"
  by (auto simp: purge_expired_sessions_def sql_delete_def tx_bind_def tx_returns set_table_defs input_stored_def)

text \<open>C32. A maintenance run, finished or cut short by an error, and whatever the rest of the system does to the
  database meanwhile, leaves the file of an input in place as long as the database keeps its row.\<close>
theorem maintenance_keeps_inputs:
  assumes "run_maintenance e cfg w = (r, w')"
    and "input_stored f path (wd_db w)" and "f_storage_key f = relative_key path"
    and "\<forall>n s. input_stored f path s \<longrightarrow> input_stored f path (sr_db (sc_around e) n s)"
    and "\<forall>n fs. sr_files (sc_around e) n fs path = fs path"
  shows "wd_files w' path = wd_files w path \<and> input_stored f path (wd_db w')"
proof -
  note call = spares_call [where J = "input_stored f path", OF assms(4,5)]
  have expire: "upkeep_spares (input_stored f path) path
      (upkeep_call e (\<lambda>_ now. expire_output_artifacts now (wc_output_retention cfg)))
      (\<lambda>keys. \<forall>key \<in> set keys. resolve_key key \<noteq> Inr path)"
    by (rule call) (use expire_spares in blast)
  have remove: "upkeep_spares (input_stored f path) path (\<lambda>w. (Inr (), fold (remove_file e) keys w)) (\<lambda>_. True)"
    if "\<forall>key \<in> set keys. resolve_key key \<noteq> Inr path" for keys
    by (rule spares_quiet) (simp_all add: remove_files_spare [OF that])
  have refer: "upkeep_spares (input_stored f path) path (upkeep_call e (\<lambda>_ _. storage_references))
      (\<lambda>x. relative_key path \<in> x)"
    by (rule call) (use references_spare [of f path, unfolded assms(3)] in blast)
  have prefixes: "upkeep_spares (input_stored f path) path (upkeep_call e (\<lambda>_ _. active_attempt_output_prefixes)) (\<lambda>_. True)"
    by (rule call) (use reads_spare in blast)
  have cut: "upkeep_spares (input_stored f path) path (\<lambda>w. (Inr (cutoff e cfg (wd_step w)), w)) (\<lambda>_. True)"
    by (rule spares_quiet) simp_all
  have purge: "upkeep_spares (input_stored f path) path (upkeep_call e (\<lambda>_ now. purge_expired_sessions now)) (\<lambda>_. True)"
    by (rule call) (use purge_spares in blast)
  have metrics: "upkeep_spares (input_stored f path) path (upkeep_call e (\<lambda>_ now. queue_metrics now)) (\<lambda>_. True)"
    by (rule call) (use reads_spare in blast)
  have usage: "upkeep_spares (input_stored f path) path (measure_usage e) (\<lambda>_. True)"
    by (rule spares_quiet) (simp_all add: measure_usage_def)
  have finish: "upkeep_spares (input_stored f path) path (\<lambda>w. (Inr (), w)) (\<lambda>_. True)"
    by (rule spares_quiet) simp_all
  have "upkeep_spares (input_stored f path) path (run_maintenance e cfg) (\<lambda>_. True)"
    unfolding run_maintenance_def
    by (rule spares_bind [OF expire], rule spares_bind [OF remove], assumption, rule spares_bind [OF refer],
        rule spares_bind [OF prefixes], rule spares_bind [OF cut], rule spares_bind [OF cleanup_storage_spares], assumption,
        rule spares_bind [OF purge], rule spares_bind [OF metrics], rule spares_bind [OF usage], rule finish)
  from this [unfolded upkeep_spares_def, rule_format, OF assms(2,1)] show ?thesis by simp
qed

theorem maintenance_keeps_inputs_witness:
  "wd_files (snd (run_maintenance
       (ex_scene (\<lambda>_ s. s) (\<lambda>_ _. [(lit ''inputs'', DirNode [(lit ''a'', DirNode [(lit ''b'', FileNode Regular 1 (Some 0))])])])
          (seconds 90))
       (worker_config_new 7 [] 1)
       (ex_world\<lparr>wd_db := ex_retention_db, wd_files := [[lit ''inputs'', lit ''a'', lit ''b''] \<mapsto> [1]]\<rparr>)))
     [lit ''inputs'', lit ''a'', lit ''b''] = Some [1]"
proof -
  let ?path = "[lit ''inputs'', lit ''a'', lit ''b'']"
  let ?e = "ex_scene (\<lambda>_ s. s) (\<lambda>_ _. [(lit ''inputs'', DirNode [(lit ''a'', DirNode [(lit ''b'', FileNode Regular 1 (Some 0))])])])
          (seconds 90)"
  let ?w = "ex_world\<lparr>wd_db := ex_retention_db, wd_files := [?path \<mapsto> [1]]\<rparr>"
  let ?f = "ex_artifact 1 Input (lit ''inputs/a/b'')"
  obtain r w' where run: "run_maintenance ?e (worker_config_new 7 [] 1) ?w = (r, w')" by fastforce
  have "output_path 3 2 1 \<noteq> ?path" by (simp add: output_path_def)
  then have stored: "input_stored ?f ?path (wd_db ?w)"
    by (simp add: input_stored_def ex_retention_db_def ex_artifact_def output_keys_round_trip_path)
  have key: "f_storage_key ?f = relative_key ?path"
    by (simp add: ex_artifact_def) code_simp
  from maintenance_keeps_inputs [OF run stored key] have "wd_files w' ?path = Some [1]"
    by (simp add: ex_scene_def ex_surroundings_def)
  then show ?thesis by (simp only: run snd_conv)
qed

section \<open>A window in the maintenance\<close>

text \<open>
  The storage references are read before the running attempts. An attempt that completes between the two
  reads is in neither: its outputs were not yet referenced, and it no longer runs. Outputs older than the
  grace period are then removed although the database refers to them.
\<close>

definition ex_published_db :: db where
  "ex_published_db = snd (complete_image_job (seconds 20) ex_image_claim 0
     [ex_output\<lparr>po_storage_key := output_key 2 1 1\<rparr>] ex_image_db)"

definition ex_tree_window :: entries where
  "ex_tree_window = [(lit ''outputs'', DirNode [(lit ''job-2'', DirNode [(lit ''attempt-1'', DirNode
     [(lit ''input-1.jpg'', FileNode Regular 2 (Some 0))])])])]"

definition ex_window :: "scene" where
  "ex_window = ex_scene (\<lambda>n s. if n = 2 then ex_published_db else s)
     (\<lambda>_ _. ex_tree_window) (seconds 20)"

definition ex_window_world :: world where
  "ex_window_world =
     ex_world\<lparr>wd_files := [[lit ''a''] \<mapsto> [1], output_path 2 1 1 \<mapsto> [2, 3]]\<rparr>"

lemma ex_published:
  "List.map f_storage_key (artifacts ex_published_db) = [lit ''a'', output_key 2 1 1]"
  "attempts ex_published_db \<noteq> []" "list_all (\<lambda>a. a_state a = ASucceeded) (attempts ex_published_db)"
  by (simp_all add: ex_published_db_def evaluate)

lemma ex_window_cleanup:
  "fst (cleanup_unreferenced (\<lambda>_. False) ex_tree_window {lit ''a''} [] (seconds 19)) =
     Inr \<lparr>files_removed = 1, bytes_removed = 2\<rparr>"
  "files [] (snd (cleanup_unreferenced (\<lambda>_. False) ex_tree_window {lit ''a''} [] (seconds 19))) = []"
  "fst ` set (files [] ex_tree_window) = {output_path 2 1 1}"
  by code_simp+

lemma ex_window_reads:
  "expire_output_artifacts (seconds 20) (from_secs (7 * 24 * 60 * 60)) ex_image_db = (Inr [], ex_image_db)"
  "storage_references ex_image_db = (Inr {lit ''a''}, ex_image_db)"
  "active_attempt_output_prefixes ex_published_db = (Inr [], ex_published_db)"
  "purge_expired_sessions (seconds 20) ex_published_db = (Inr 0, ex_published_db)"
  "queue_metrics (seconds 20) ex_published_db = (Inr \<lparr>qm_depth = 0, qm_oldest_wait_ms = 0\<rparr>, ex_published_db)"
proof -
  show "expire_output_artifacts (seconds 20) (from_secs (7 * 24 * 60 * 60)) ex_image_db = (Inr [], ex_image_db)"
    by (simp add: evaluate expire_output_artifacts_def expire_body_def delete_artifacts_def sql_delete_def
        expirable_def finished_before_def from_secs_def)
  show "storage_references ex_image_db = (Inr {lit ''a''}, ex_image_db)"
    by (simp add: storage_references_def tx_returns ex_image_db_def ex_db_def)
  show "active_attempt_output_prefixes ex_published_db = (Inr [], ex_published_db)"
    using ex_published(3) by (simp add: active_attempt_output_prefixes_def list_all_iff)
  have "sessions ex_published_db = []" "filter (claimable_at (seconds 20)) (jobs ex_published_db) = []"
    by (simp_all add: ex_published_db_def evaluate claimable_at_def)
  then show "purge_expired_sessions (seconds 20) ex_published_db = (Inr 0, ex_published_db)"
    "queue_metrics (seconds 20) ex_published_db = (Inr \<lparr>qm_depth = 0, qm_oldest_wait_ms = 0\<rparr>, ex_published_db)"
    by (simp_all add: purge_expired_sessions_def sql_delete_def tx_bind_def tx_returns set_table_defs queue_metrics_def
        count_rows_def to_word_def oldest_wait_ms_def)
qed

lemma maintenance_window:
  "\<exists>w. run_maintenance ex_window ((worker_config_new 7 [] 1)\<lparr>wc_orphan_grace := from_secs 1\<rparr>) ex_window_world
        = (Inr (), w) \<and>
     List.map f_storage_key (artifacts (wd_db w)) = [lit ''a'', output_key 2 1 1] \<and>
     resolve_key (output_key 2 1 1) = Inr (output_path 2 1 1) \<and> wd_files w (output_path 2 1 1) = None"
proof -
  obtain r left where c: "cleanup_unreferenced (\<lambda>_. False) ex_tree_window {lit ''a''} [] (seconds 19) = (r, left)"
    by fastforce
  have r: "r = Inr \<lparr>files_removed = 1, bytes_removed = 2\<rparr>" "files [] left = []"
    using ex_window_cleanup(1,2) by (simp_all add: c)
  let ?e = "ex_window" and ?cfg = "(worker_config_new 7 [] 1)\<lparr>wc_orphan_grace := from_secs 1\<rparr>"
  let ?w = "ex_window_world"
  let ?p = "ex_window_world\<lparr>wd_db := ex_published_db\<rparr>"
  let ?q = "?p\<lparr>wd_step := 3\<rparr>"
  let ?gone = "?q\<lparr>wd_files := (\<lambda>path. if path \<in> {output_path 2 1 1} then None else wd_files ?q path)\<rparr>"
  have w: "wd_db ?w = ex_image_db" "wd_step ?w = 0" by (simp_all add: ex_window_world_def ex_world_def)
  have around: "sr_db (sc_around ?e) n u = (if n = 2 then ex_published_db else u)" "sr_files (sc_around ?e) n fs = fs"
    "sr_clock (sc_around ?e) n = seconds 20" "sr_usage (sc_around ?e) n = Inr 3" "sc_listing ?e n fs = ex_tree_window"
    "sc_entry_fails ?e n = (\<lambda>_. False)" for n u fs
    by (simp_all add: ex_window_def ex_scene_def ex_surroundings_def)
  note call = upkeep_call_def scene_call_def interference_def Let_def around
  have 1: "upkeep_call ?e (\<lambda>_ now. expire_output_artifacts now (wc_output_retention ?cfg)) ?w = (Inr [], ?w\<lparr>wd_step := 1\<rparr>)"
    using ex_window_reads(1) by (simp add: call w worker_config_new_def)
  have 2: "upkeep_call ?e (\<lambda>_ _. storage_references) (?w\<lparr>wd_step := 1\<rparr>) = (Inr {lit ''a''}, ?w\<lparr>wd_step := 2\<rparr>)"
    using ex_window_reads(2) by (simp add: call w)
  have 3: "upkeep_call ?e (\<lambda>_ _. active_attempt_output_prefixes) (?w\<lparr>wd_step := 2\<rparr>) = (Inr [], ?q)"
    using ex_window_reads(3) by (simp add: call w)
  have t: "cutoff ?e ?cfg 3 = seconds 19"
    by (simp add: cutoff_def ex_window_def ex_scene_def checked_add_def seconds_def from_secs_def)
  have 4: "cleanup_storage ?e {lit ''a''} [] (seconds 19) ?q =
      (Inr \<lparr>files_removed = 1, bytes_removed = 2\<rparr>, ?gone)"
    unfolding cleanup_storage_def around c Let_def prod.case by (simp add: r ex_window_cleanup(3))
  have 5: "upkeep_call ?e (\<lambda>_ now. purge_expired_sessions now) ?gone = (Inr 0, ?gone\<lparr>wd_step := 4\<rparr>)"
    using ex_window_reads(4) by (simp add: call)
  have 6: "upkeep_call ?e (\<lambda>_ now. queue_metrics now) (?gone\<lparr>wd_step := 4\<rparr>) =
      (Inr \<lparr>qm_depth = 0, qm_oldest_wait_ms = 0\<rparr>, ?gone\<lparr>wd_step := 5\<rparr>)"
    using ex_window_reads(5) by (simp add: call)
  have 7: "measure_usage ?e (?gone\<lparr>wd_step := 5\<rparr>) = (Inr 3, ?gone\<lparr>wd_step := 5\<rparr>)"
    by (simp add: measure_usage_def around)
  have step: "wd_step ?q = 3" by simp
  have "run_maintenance ?e ?cfg ?w = (Inr (), ?gone\<lparr>wd_step := 5\<rparr>)"
    unfolding run_maintenance_def upkeep_bind_def
    by (simp only: 1 2 3 4 5 6 7 t step prod.case sum.case fold_simps)
  moreover have "List.map f_storage_key (artifacts (wd_db (?gone\<lparr>wd_step := 5\<rparr>))) = [lit ''a'', output_key 2 1 1]"
    using ex_published(1) by simp
  moreover have "wd_files (?gone\<lparr>wd_step := 5\<rparr>) (output_path 2 1 1) = None" by simp
  ultimately show ?thesis using ex_keys(2) by (intro exI conjI)
qed

end
