(* ===== verification/Frames.thy ===== *)
theory Frames
  imports Fencing ScheduleInv Maintenance Accounts
begin

text \<open>
  What each repository operation leaves alone: the queue and the schedules do not touch users and
  sessions, the accounts touch nothing else, and an operation changes the status of at most one job, along
  one edge of the job's state machine. Each is a relation between the database before and after, proved
  statement by statement.
\<close>

section \<open>Rules for the shapes of an operation\<close>

named_theorems frame_rules

lemma obeys_case_option [frame_rules]:
  "obeys R m \<Longrightarrow> (\<And>x. obeys R (f x)) \<Longrightarrow> obeys R (case v of None \<Rightarrow> m | Some x \<Rightarrow> f x)"
  by (cases v) simp_all

lemma obeys_case_prod [frame_rules]: "(\<And>x y. obeys R (f x y)) \<Longrightarrow> obeys R (case p of (x, y) \<Rightarrow> f x y)"
  by (cases p) simp

lemma obeys_if [frame_rules]: "obeys R m \<Longrightarrow> obeys R n \<Longrightarrow> obeys R (if b then m else n)"
  by simp

lemma obeys_case_created [frame_rules]:
  "(\<And>x. obeys R (f x)) \<Longrightarrow> (\<And>x. obeys R (g x)) \<Longrightarrow>
     obeys R (case v of ExistingJob x \<Rightarrow> f x | CreatedJob x \<Rightarrow> g x)"
  by (cases v) simp_all

lemma obeys_case_work [frame_rules]:
  "(\<And>x. obeys R (f x)) \<Longrightarrow> (\<And>w q i. obeys R (g w q i)) \<Longrightarrow>
     obeys R (case v of WDemoDelay x \<Rightarrow> f x | WImageResize w q i \<Rightarrow> g w q i)"
  by (cases v) simp_all

lemma obeys_at: "(\<And>u. obeys R (m u)) \<Longrightarrow> obeys R (\<lambda>s. m s s)"
  unfolding obeys_def by blast

lemmas queue_defs = create_def claim_next_with_time_def claim_body_def complete_def Let_def

lemmas lifecycle_defs =
  finish_cancelled_def record_failure_def failure_writes_def request_cancel_with_owner_def
  manual_retry_with_owner_def manual_retry_body_def

lemmas lease_defs =
  register_worker_at_def heartbeat_worker_at_def stop_worker_def get_worker_def
  reclaim_next_expired_attempt_at_def reclaim_body_def reclaim_job_def
  finish_reclaimed_cancel_def schedule_reclaimed_retry_def fail_reclaimed_job_def

lemmas image_defs =
  create_image_job_def create_image_job_body_def insert_input_artifact_def update_progress_def
  record_encoding_duration_def complete_image_job_def complete_image_body_def lock_active_claim_def
  insert_output_artifact_def complete_attempt_def drop_result_def

lemmas schedule_defs =
  create_schedule_def create_schedule_body_def insert_schedule_input_def
  update_schedule_at_with_owner_def

lemmas account_defs =
  configure_owner_def configure_owner_body_def create_session_def active_session_def
  revoke_session_def rotate_session_csrf_def purge_expired_sessions_def

section \<open>Users and sessions\<close>

definition same_accounts :: "db \<Rightarrow> db \<Rightarrow> bool" where
  "same_accounts s t \<longleftrightarrow> users t = users s \<and> sessions t = sessions s"

interpretation accts: frame_relation same_accounts
  by unfold_locales (auto simp: same_accounts_def dest: same_rows_fields)

lemma accts_statements [frame_rules]:
  "obeys same_accounts (update_jobs P f)" "obeys same_accounts (update_attempts P' f')"
  "obeys same_accounts (update_workers Q g)" "obeys same_accounts (update_schedules Q' g')"
  "obeys same_accounts (insert_job mj)" "obeys same_accounts (insert_attempt ma)"
  "obeys same_accounts (insert_artifact mf)" "obeys same_accounts (insert_schedule ms)"
  "obeys same_accounts (insert_schedule_input_row mi)" "obeys same_accounts (insert_occurrence mo)"
  "obeys same_accounts (insert_worker w)" "obeys same_accounts (sql_delete artifacts set_artifacts D)"
  unfolding update_stmt_defs insert_stmt_defs
  by (rule accts.update accts.insert accts.insert_keyed accts.delete,
      simp add: same_accounts_def set_table_defs)+

lemmas accts_rules = frame_rules accts.simple accts.bind accts.each accts.committed

lemma accts_queue:
  "obeys same_accounts (create now name)"
  "obeys same_accounts (claim_next_with_time locked now token worker as_of)"
  "obeys same_accounts (complete now c dur)"
  unfolding queue_defs by (intro accts_rules)+

lemma accts_reads:
  "obeys same_accounts (get_with_owner i owner)" "obeys same_accounts (get_schedule_with_owner k owner)"
  unfolding get_with_owner_def get_schedule_with_owner_def by (intro accts_rules)+

lemma accts_lifecycle:
  "obeys same_accounts (finish_cancelled now c dur)"
  "obeys same_accounts (record_failure now c dur kind message)"
  "obeys same_accounts (request_cancel_with_owner now i owner)"
  "obeys same_accounts (manual_retry_with_owner now i owner)"
  unfolding lifecycle_defs by (intro accts_rules accts_reads)+

lemma accts_leases:
  "obeys same_accounts (register_worker_at now reg t)" "obeys same_accounts (heartbeat_worker_at w ttl t)"
  "obeys same_accounts (stop_worker now w)"
  "obeys same_accounts (reclaim_next_expired_attempt_at gone rng t)"
  unfolding lease_defs by (intro accts_rules)+

lemma accts_renew: "obeys same_accounts (renew_lease_with_time now c as_of)"
  unfolding renew_lease_with_time_def Let_def
  by (intro accts_rules; rule obeys_at; intro accts_rules)

lemma accts_images:
  "obeys same_accounts (create_image_job now r)"
  "obeys same_accounts (update_progress now c completed)"
  "obeys same_accounts (record_encoding_duration now c dur)"
  "obeys same_accounts (complete_image_job now c dur outputs)"
  unfolding image_defs by (intro accts_rules accts_reads)+

lemma accts_schedules:
  "obeys same_accounts (create_schedule now ns)"
  "obeys same_accounts (update_schedule_at_with_owner rng now k su as_of owner)"
  unfolding schedule_defs by (intro accts_rules accts_reads)+

lemma accts_materialize: "obeys same_accounts (materialize_next_schedule_at gone rng now as_of)"
  unfolding materialize_defs by (intro accts_rules)

lemma accts_expire: "obeys same_accounts (expire_output_artifacts now retention)"
  unfolding expire_output_artifacts_def expire_body_def delete_artifacts_def
  by (intro accts_rules; rule obeys_at; intro accts_rules)

section \<open>Everything but the accounts\<close>

definition same_work :: "db \<Rightarrow> db \<Rightarrow> bool" where
  "same_work s t \<longleftrightarrow>
     jobs t = jobs s \<and> attempts t = attempts s \<and> artifacts t = artifacts s \<and> schedules t = schedules s \<and>
     schedule_inputs t = schedule_inputs s \<and> occurrences t = occurrences s \<and> workers t = workers s"

interpretation work: frame_relation same_work
  by unfold_locales (auto simp: same_work_def dest: same_rows_fields)

lemma work_statements [frame_rules]:
  "obeys same_work (update_users U u)" "obeys same_work (update_sessions X x)"
  "obeys same_work (insert_session ss)" "obeys same_work (sql_delete sessions set_sessions D)"
  unfolding update_stmt_defs insert_stmt_defs
  by (rule work.update work.insert work.insert_keyed work.delete, simp add: same_work_def set_table_defs)+

lemmas work_rules = frame_rules work.simple work.bind work.each work.committed

lemma accounts_leave_work:
  "obeys same_work (configure_owner now name hash)" "obeys same_work (create_session now i user h csrf ttl)"
  "obeys same_work (revoke_session now i)" "obeys same_work (rotate_session_csrf now i h)"
  "obeys same_work (purge_expired_sessions now)"
  unfolding account_defs by (intro work_rules)+

lemma active_session_leaves_work: "obeys same_work (active_session now h)"
  unfolding active_session_def by (intro work_rules; rule obeys_at; intro work_rules)

lemma advances_at: "(\<And>u. advances (m u)) \<Longrightarrow> advances (\<lambda>s. m s s)"
  unfolding advances_def by blast

lemma advances_if: "advances m \<Longrightarrow> advances n \<Longrightarrow> advances (if b then m else n)"
  by simp

lemma advances_delete_sessions: "advances (sql_delete sessions set_sessions D)"
  by (simp add: advances_def sql_delete_def set_table_defs)

lemma accounts_advance:
  "advances (configure_owner now name hash)" "advances (create_session now i user h csrf ttl)"
  "advances (revoke_session now i)" "advances (rotate_session_csrf now i h)"
  "advances (purge_expired_sessions now)"
  unfolding account_defs by (intro advances_rules advances_if advances_delete_sessions)+

lemma active_session_advances: "advances (active_session now h)"
  unfolding active_session_def by (intro advances_rules; rule advances_at; intro advances_rules)

end
