(* ===== verification/Statuses.thy ===== *)
theory Statuses
  imports Frames
begin

text \<open>
  The status of a job as an abstract state machine, and the operations as its steps: every operation
  leaves all statuses as they are or moves one job along one edge.
\<close>

section \<open>The abstract machine\<close>

inductive job_move :: "job_status option \<Rightarrow> job_status option \<Rightarrow> bool" where
  created: "job_move None (Some Queued)"
| started: "a = Queued \<or> a = RetryWaiting \<Longrightarrow> job_move (Some a) (Some Running)"
| succeeded: "job_move (Some Running) (Some Succeeded)"
| failed: "job_move (Some Running) (Some Failed)"
| retried: "job_move (Some Running) (Some RetryWaiting)"
| asked: "job_move (Some Running) (Some CancelRequested)"
| dropped: "a = Queued \<or> a = RetryWaiting \<Longrightarrow> job_move (Some a) (Some Cancelled)"
| cancelled: "job_move (Some CancelRequested) (Some Cancelled)"

inductive spec_step :: "(int \<Rightarrow> job_status option) \<Rightarrow> (int \<Rightarrow> job_status option) \<Rightarrow> bool" where
  stutter: "spec_step A A"
| move: "job_move (A i) (Some y) \<Longrightarrow> spec_step A (A(i \<mapsto> y))"

inductive_simps job_move_simps [simp]:
  "job_move None b" "job_move (Some Queued) b" "job_move (Some RetryWaiting) b" "job_move (Some Running) b"
  "job_move (Some CancelRequested) b" "job_move (Some Succeeded) b" "job_move (Some Failed) b"
  "job_move (Some Cancelled) b"

text \<open>Nothing leaves a finished status, and a job that exists does not disappear.\<close>

lemma terminal_stays: "a \<in> terminal_states \<Longrightarrow> \<not> job_move (Some a) b"
  by (cases a) (simp_all add: state_groups)

lemma spec_step_keeps_terminal:
  "spec_step A B \<Longrightarrow> A i = Some a \<Longrightarrow> a \<in> terminal_states \<Longrightarrow> B i = Some a"
  by (induction rule: spec_step.induct) (auto simp: terminal_stays)

lemma spec_step_keeps_jobs: "spec_step A B \<Longrightarrow> dom A \<subseteq> dom B"
  by (induction rule: spec_step.induct) auto

section \<open>The statuses in the database\<close>

definition status_rows :: "db \<Rightarrow> (int \<times> job_status) list" where
  "status_rows s = List.map (\<lambda>j. (j_id j, j_state j)) (jobs s)"

definition job_statuses :: "db \<Rightarrow> int \<Rightarrow> job_status option" where
  "job_statuses s = map_of (status_rows s)"

definition same_statuses :: "db \<Rightarrow> db \<Rightarrow> bool" where
  "same_statuses s t \<longleftrightarrow> status_rows t = status_rows s"

definition one_move :: "db \<Rightarrow> db \<Rightarrow> bool" where
  "one_move s t \<longleftrightarrow>
     (keyed j_id (jobs s) \<longrightarrow> keyed j_id (jobs t) \<and> spec_step (job_statuses s) (job_statuses t))"

interpretation quiet: frame_relation same_statuses
  by unfold_locales (auto simp: same_statuses_def status_rows_def dest: same_rows_fields)

lemma quiet_statements [frame_rules]:
  "obeys same_statuses (update_attempts P' f')"
  "obeys same_statuses (update_workers Q g)" "obeys same_statuses (update_schedules Q' g')"
  "obeys same_statuses (update_users U u)" "obeys same_statuses (update_sessions X x)"
  "obeys same_statuses (insert_attempt ma)"
  "obeys same_statuses (insert_artifact mf)" "obeys same_statuses (insert_schedule ms)"
  "obeys same_statuses (insert_schedule_input_row mi)" "obeys same_statuses (insert_occurrence mo)"
  "obeys same_statuses (insert_worker w)" "obeys same_statuses (insert_session ss)"
  "obeys same_statuses (sql_delete artifacts set_artifacts D)"
  unfolding update_stmt_defs insert_stmt_defs
  by (rule quiet.update quiet.insert quiet.insert_keyed quiet.delete,
      simp add: same_statuses_def status_rows_def set_table_defs)+

lemmas quiet_rules = frame_rules quiet.simple quiet.bind quiet.each quiet.committed

lemma same_statuses_keyed:
  assumes "same_statuses s t"
  shows "keyed j_id (jobs t) \<longleftrightarrow> keyed j_id (jobs s)" and "job_statuses t = job_statuses s"
proof -
  have "List.map j_id (jobs t) = List.map fst (status_rows t)" "List.map j_id (jobs s) = List.map fst (status_rows s)"
    by (simp_all add: status_rows_def o_def)
  with assms show "keyed j_id (jobs t) \<longleftrightarrow> keyed j_id (jobs s)" by (simp add: keyed_def same_statuses_def)
  show "job_statuses t = job_statuses s" using assms by (simp add: job_statuses_def same_statuses_def)
qed

lemma quiet_one_move: "same_statuses s t \<Longrightarrow> one_move s t"
  by (simp add: one_move_def same_statuses_keyed stutter)

lemma quiet_first: "same_statuses s t \<Longrightarrow> one_move t u \<Longrightarrow> one_move s u"
  by (simp add: one_move_def same_statuses_keyed)

lemma quiet_last: "one_move s t \<Longrightarrow> same_statuses t u \<Longrightarrow> one_move s u"
  by (simp add: one_move_def same_statuses_keyed)

section \<open>Rules\<close>

lemma move_quiet: "obeys same_statuses m \<Longrightarrow> obeys one_move m"
  unfolding obeys_def by (blast intro: quiet_one_move)

lemma move_after: "obeys same_statuses m \<Longrightarrow> (\<And>x. obeys one_move (f x)) \<Longrightarrow> obeys one_move (tx_bind m f)"
  unfolding obeys_def tx_bind_def
  by (auto split: prod.splits sum.splits) (metis snd_conv quiet_first quiet_one_move)+

lemma move_before: "obeys one_move m \<Longrightarrow> (\<And>x. obeys same_statuses (f x)) \<Longrightarrow> obeys one_move (tx_bind m f)"
  unfolding obeys_def tx_bind_def
  by (auto split: prod.splits sum.splits) (metis snd_conv quiet_last)+

lemma move_committed: "obeys one_move m \<Longrightarrow> obeys one_move (transaction m)"
  unfolding obeys_def transaction_def
  by (auto split: prod.splits sum.splits intro: quiet_one_move simp: quiet.same) (metis snd_conv)

lemma map_of_put_row:
  assumes "j_id r' \<in> j_id ` set js"
  shows "map_of (List.map (\<lambda>j. (j_id j, j_state j)) (put_row j_id r' js)) =
    (map_of (List.map (\<lambda>j. (j_id j, j_state j)) js))(j_id r' \<mapsto> j_state r')"
  using assms
proof (induction js)
  case (Cons j js)
  show ?case
  proof (cases "j_id r' \<in> j_id ` set js")
    case True
    from Cons.IH [OF this] show ?thesis by (auto simp: put_row_def fun_upd_twist)
  next
    case False
    with Cons.prems put_row_absent [OF False] show ?thesis by (auto simp: put_row_def fun_eq_iff)
  qed
qed simp

lemma map_of_statuses:
  "keyed j_id js \<Longrightarrow> r \<in> set js \<Longrightarrow> map_of (List.map (\<lambda>j. (j_id j, j_state j)) js) (j_id r) = Some (j_state r)"
  by (rule map_of_is_SomeI) (auto simp: keyed_def o_def)

lemma move_update:
  assumes P: "\<exists>i. \<forall>r. P r \<longrightarrow> j_id r = i \<and>
      (j_state (F r) = j_state r \<or> job_move (Some (j_state r)) (Some (j_state (F r))))"
    and F: "\<And>r. j_id (F r) = j_id r"
  shows "obeys one_move (update_jobs P F)"
  unfolding obeys_def update_jobs_def
proof
  fix s
  have "keyed j_id (jobs s) \<longrightarrow> spec_step (job_statuses s) (job_statuses (set_jobs (update_where P F (jobs s)) s))"
  proof
    assume k: "keyed j_id (jobs s)"
    from P obtain i where P': "\<And>r. P r \<Longrightarrow> j_id r = i" by blast
    show "spec_step (job_statuses s) (job_statuses (set_jobs (update_where P F (jobs s)) s))"
    proof (rule filter_keyed_cases [where P = P, OF k P'])
      assume "filter P (jobs s) = []"
      then have "update_where P F (jobs s) = jobs s" by (intro update_where_none) (simp add: filter_empty_conv)
      then show ?thesis by (simp add: job_statuses_def status_rows_def set_table_defs stutter)
    next
      fix r assume r: "r \<in> set (jobs s)" "P r" "filter P (jobs s) = [r]"
      have "job_statuses (set_jobs (update_where P F (jobs s)) s) = (job_statuses s)(j_id r \<mapsto> j_state (F r))"
        using update_where_put_row [where f = F, OF k r(3)] map_of_put_row [of "F r" "jobs s"] r(1)
        by (simp add: job_statuses_def status_rows_def set_table_defs F)
      moreover have "job_statuses s (j_id r) = Some (j_state r)"
        using map_of_statuses [OF k r(1)] by (simp add: job_statuses_def status_rows_def)
      moreover have "j_state (F r) = j_state r \<or> job_move (Some (j_state r)) (Some (j_state (F r)))"
        using P r(2) by blast
      ultimately show ?thesis
        using spec_step.move [of "job_statuses s" "j_id r" "j_state (F r)"] stutter
        by (metis fun_upd_triv)
    qed
  qed
  moreover have "keyed j_id (update_where P F (jobs s)) = keyed j_id (jobs s)"
    using F by (simp add: keyed_def update_where_key)
  ultimately show "one_move s (snd (sql_update job_ok jobs set_jobs P F s))"
    using quiet_one_move [OF quiet.refl] by (auto simp: one_move_def sql_update_def Let_def set_table_defs)
qed

lemma move_insert:
  assumes "\<And>i. j_state (mk i) = Queued"
  shows "obeys one_move (insert_job mk)"
  unfolding obeys_def
proof
  fix s
  show "one_move s (snd (insert_job mk s))"
  proof (cases "insert_job mk s")
    case (Pair q t)
    show ?thesis
    proof (cases q)
      case (Inl e)
      with Pair have "same_rows s t" by (auto simp: insert_job_def sql_insert_Inl_iff)
      with Pair quiet_one_move [OF quiet.same] show ?thesis by simp
    next
      case (Inr r)
      with Pair have r: "r = mk (seqs s Jobs)" "jobs t = jobs s @ [r]" "\<forall>x \<in> set (jobs s). j_id x \<noteq> j_id r"
        by (auto simp: insert_job_def sql_insert_Inr_iff job_insert_error_def set_table_defs split: if_splits)
      then have new: "job_statuses s (j_id r) = None"
        by (auto simp: job_statuses_def status_rows_def map_of_eq_None_iff)
      then have "job_statuses t = (job_statuses s)(j_id r \<mapsto> Queued)"
        using assms r by (auto simp: job_statuses_def status_rows_def fun_eq_iff map_add_def split: option.splits)
      moreover have "keyed j_id (jobs s) \<Longrightarrow> keyed j_id (jobs t)" using r by (simp add: keyed_append1)
      ultimately show ?thesis
        using Pair spec_step.move [of "job_statuses s" "j_id r" Queued] new by (simp add: one_move_def)
    qed
  qed
qed

section \<open>The operations\<close>

lemma tx_bind_assoc: "tx_bind (tx_bind m f) g = tx_bind m (\<lambda>x. tx_bind (f x) g)"
  by (auto simp: tx_bind_def fun_eq_iff split: prod.splits sum.splits)

lemma quiet_reads:
  "obeys same_statuses (get_with_owner i owner)" "obeys same_statuses (get_schedule_with_owner k owner)"
  unfolding get_with_owner_def get_schedule_with_owner_def by (intro quiet_rules)+

lemma move_bind_update:
  assumes "\<exists>i. \<forall>r. P r \<longrightarrow> j_id r = i \<and>
      (j_state (F r) = j_state r \<or> job_move (Some (j_state r)) (Some (j_state (F r))))"
    and "\<And>r. j_id (F r) = j_id r" and "\<And>x. obeys same_statuses (f x)"
  shows "obeys one_move (tx_bind (update_jobs P F) f)"
  by (rule move_before [OF move_update [OF assms(1,2)] assms(3)])

lemma move_bind_insert:
  "(\<And>i. j_state (mk i) = Queued) \<Longrightarrow> (\<And>x. obeys same_statuses (f x)) \<Longrightarrow> obeys one_move (tx_bind (insert_job mk) f)"
  by (rule move_before [OF move_insert])

lemma move_bind_committed:
  "obeys one_move m \<Longrightarrow> (\<And>x. obeys same_statuses (f x)) \<Longrightarrow> obeys one_move (tx_bind (transaction m) f)"
  by (rule move_before [OF move_committed])

text \<open>The statement that moves a job first, then the frame of what follows it.\<close>

lemmas move_rules =
  move_bind_update move_bind_insert move_bind_committed frame_rules move_committed move_after quiet.simple [THEN move_quiet]

lemma moves_queue:
  "obeys one_move (create now name)"
  "obeys one_move (claim_next_with_time locked now token worker as_of)"
  "obeys one_move (complete now c dur)"
  unfolding queue_defs
  by (intro move_rules quiet_rules; auto simp: default_job_def start_job_def succeed_job_def state_groups)+

lemma moves_lifecycle:
  "obeys one_move (finish_cancelled now c dur)"
  "obeys one_move (record_failure now c dur kind message)"
  "obeys one_move (request_cancel_with_owner now i owner)"
  "obeys one_move (manual_retry_with_owner now i owner)"
  unfolding lifecycle_defs
  by (intro move_rules quiet_rules quiet_reads;
      auto simp: cancel_job_def retry_job_def fail_job_def request_cancel_row_def cancellable_states_def
        manual_retry_job_def default_job_def state_groups)+

lemma quiet_leases:
  "obeys same_statuses (register_worker_at now reg t)" "obeys same_statuses (heartbeat_worker_at w ttl t)"
  "obeys same_statuses (stop_worker now w)"
  unfolding lease_defs by (intro quiet_rules)+

lemma moves_reclaim_job: "obeys one_move (reclaim_job rng t a j)"
  unfolding reclaim_job_def finish_reclaimed_cancel_def schedule_reclaimed_retry_def fail_reclaimed_job_def
    tx_bind_assoc
  by (intro move_rules quiet_rules; auto simp: cancel_job_def retry_job_def fail_job_def)

lemma moves_reclaim: "obeys one_move (reclaim_next_expired_attempt_at gone rng t)"
  unfolding reclaim_next_expired_attempt_at_def reclaim_body_def
  by (intro move_before [OF moves_reclaim_job] move_rules quiet_rules)

lemma quiet_renew: "obeys same_statuses (renew_lease_with_time now c as_of)"
  unfolding renew_lease_with_time_def Let_def
  by (intro quiet_rules; rule obeys_at; intro quiet_rules)

lemma moves_images:
  "obeys one_move (create_image_job now r)"
  "obeys one_move (complete_image_job now c dur outputs)"
  unfolding image_defs
  by (intro move_rules quiet_rules quiet_reads; auto simp: image_job_row_def default_job_def succeed_job_def)+

lemma quiet_update_jobs:
  assumes "\<And>r. j_id (F r) = j_id r \<and> j_state (F r) = j_state r"
  shows "obeys same_statuses (update_jobs P F)"
proof -
  have "status_rows (set_jobs (update_where P F (jobs s)) s) = status_rows s" for s
    using assms by (simp add: status_rows_def set_table_defs update_where_def o_def)
  then show ?thesis
    unfolding update_jobs_def by (intro quiet.update) (simp add: same_statuses_def)
qed

lemma quiet_images:
  "obeys same_statuses (update_progress now c completed)"
  "obeys same_statuses (record_encoding_duration now c dur)"
  unfolding image_defs by (intro quiet_rules quiet_update_jobs; simp)+

lemma quiet_schedules:
  "obeys same_statuses (create_schedule now ns)"
  "obeys same_statuses (update_schedule_at_with_owner rng now k su as_of owner)"
  unfolding schedule_defs by (intro quiet_rules quiet_reads)+

lemma moves_outcome: "obeys one_move (materialize_outcome now c at count)"
  unfolding materialize_outcome_def create_scheduled_job_def tx_bind_assoc
  by (intro move_rules quiet_rules; auto simp: scheduled_job_def default_job_def)

lemma moves_candidate: "obeys one_move (materialize_candidate rng now as_of c)"
  unfolding materialize_candidate_def by (intro move_before [OF moves_outcome] move_rules quiet_rules)

lemma moves_materialize: "obeys one_move (materialize_next_schedule_at gone rng now as_of)"
  unfolding materialize_next_schedule_at_def materialize_body_def
  by (intro move_before [OF moves_candidate] move_rules quiet_rules)

lemma quiet_expire: "obeys same_statuses (expire_output_artifacts now retention)"
proof -
  have delete: "obeys same_statuses (\<lambda>s. sql_delete artifacts set_artifacts (D s) s)" for D
    by (rule obeys_at) (rule quiet_statements)
  show ?thesis
    unfolding expire_output_artifacts_def expire_body_def delete_artifacts_def
    by (intro quiet_rules quiet_update_jobs delete) (simp add: mark_expired_def)
qed

lemma work_quiet: "obeys same_work m \<Longrightarrow> obeys same_statuses m"
  unfolding obeys_def same_work_def same_statuses_def status_rows_def by metis

lemma moves_calls: "obeys one_move (run_claim_call now c i)"
proof (cases i)
  case CallRenew
  show ?thesis
    unfolding CallRenew run_claim_call.simps drop_result_def
    by (intro move_quiet quiet.bind quiet_renew quiet.simple)
next
  case (CallFailure dur kind message)
  show ?thesis
    unfolding CallFailure run_claim_call.simps drop_result_def
    by (intro move_before moves_lifecycle quiet.simple)
qed (simp_all add: moves_queue moves_lifecycle moves_images quiet_images move_quiet)

end
