(* ===== verification/Readable.thy ===== *)
theory Readable
  imports Statuses
begin

text \<open>
  Every artifact row of the database satisfies its constraints and belongs to a job, under every operation;
  with the invariant of the queue, every stored job can be read back.
\<close>

section \<open>Artifact rows\<close>

definition files_inv :: "db \<Rightarrow> bool" where
  "files_inv s \<longleftrightarrow>
     0 < seqs s Artifacts \<and>
     (\<forall>f \<in> set (artifacts s). artifact_ok f \<and> 0 < f_id f \<and> f_job f \<in> j_id ` set (jobs s) \<and>
        null_or (\<lambda>i. 0 < i \<and> i64_range i) (f_source f))"

interpretation stored_files: tx_invariant files_inv
proof
  fix s :: db and q assume inv: "files_inv s" and "\<And>T. seqs s T \<le> q T"
  then have "seqs s Artifacts \<le> q Artifacts" by blast
  with inv show "files_inv (s\<lparr>seqs := q\<rparr>)" by (auto simp: files_inv_def)
qed

lemma files_inv_frame:
  "files_inv s \<Longrightarrow> artifacts t = artifacts s \<Longrightarrow> j_id ` set (jobs s) \<subseteq> j_id ` set (jobs t) \<Longrightarrow>
     seqs s Artifacts \<le> seqs t Artifacts \<Longrightarrow> files_inv t"
  by (auto simp: files_inv_def)

named_theorems files_rules

lemma keeps_cases [files_rules]:
  "keeps I m \<Longrightarrow> (\<And>x. keeps I (f x)) \<Longrightarrow> keeps I (case v of None \<Rightarrow> m | Some x \<Rightarrow> f x)"
  "(\<And>x y. keeps I (g x y)) \<Longrightarrow> keeps I (case p of (x, y) \<Rightarrow> g x y)"
  "keeps I m \<Longrightarrow> keeps I n \<Longrightarrow> keeps I (if b then m else n)"
  "(\<And>x. keeps I (h x)) \<Longrightarrow> (\<And>x. keeps I (k x)) \<Longrightarrow>
     keeps I (case c of ExistingJob x \<Rightarrow> h x | CreatedJob x \<Rightarrow> k x)"
  "(\<And>x. keeps I (d x)) \<Longrightarrow> (\<And>w q i. keeps I (e w q i)) \<Longrightarrow>
     keeps I (case o' of WDemoDelay x \<Rightarrow> d x | WImageResize w q i \<Rightarrow> e w q i)"
  by (auto split: option.split prod.split created_image_job.split claimed_work.split)

lemmas [files_rules] = keeps_simple keeps_bind keeps_for stored_files.committed

lemma advances_cases [advances_rules]:
  "advances m \<Longrightarrow> (\<And>x. advances (f x)) \<Longrightarrow> advances (case v of None \<Rightarrow> m | Some x \<Rightarrow> f x)"
  "(\<And>x y. advances (g x y)) \<Longrightarrow> advances (case p of (x, y) \<Rightarrow> g x y)"
  "advances m \<Longrightarrow> advances n \<Longrightarrow> advances (if b then m else n)"
  by (auto split: option.split prod.split)

lemma files_other_statements [files_rules]:
  "keeps files_inv (update_attempts P' f')"
  "keeps files_inv (update_workers Q g)" "keeps files_inv (update_schedules Q' g')"
  "keeps files_inv (update_users U u)" "keeps files_inv (update_sessions X x)"
  "keeps files_inv (insert_job mj)" "keeps files_inv (insert_attempt ma)"
  "keeps files_inv (insert_schedule ms)" "keeps files_inv (insert_schedule_input_row mi)"
  "keeps files_inv (insert_occurrence mo)" "keeps files_inv (insert_worker w)"
  "keeps files_inv (insert_session ss)" "keeps files_inv (sql_delete sessions set_sessions D)"
  unfolding keeps_def update_stmt_defs insert_stmt_defs sql_update_def sql_insert_def
    sql_insert_keyed_def sql_delete_def Let_def
  by (auto split: option.split simp: set_table_defs elim!: files_inv_frame)

lemma files_update_jobs [files_rules]:
  assumes "\<And>r. j_id (F r) = j_id r"
  shows "keeps files_inv (update_jobs P F)"
  unfolding update_jobs_def
proof (rule stored_files.keeps_update)
  fix s hits t
  assume inv: "files_inv s" and upd: "sql_update job_ok jobs set_jobs P F s = (Inr hits, t)"
  have "List.map j_id (jobs t) = List.map j_id (jobs s)"
    using upd assms by (simp add: sql_update_Inr_iff set_table_defs update_where_key)
  then have "j_id ` set (jobs t) = j_id ` set (jobs s)" by (metis list.set_map)
  with inv upd show "files_inv t"
    by (intro files_inv_frame [OF inv]) (auto simp: sql_update_Inr_iff set_table_defs)
qed

lemma files_insert_artifact [files_rules]:
  assumes "\<And>i. f_id (mk i) = i"
  shows "keeps files_inv (insert_artifact mk)"
  unfolding insert_artifact_def
proof (rule stored_files.keeps_insert)
  fix s r t
  assume inv: "files_inv s"
    and ins: "sql_insert Artifacts artifact_insert_error artifacts set_artifacts mk s = (Inr r, t)"
  then have r: "r = mk (seqs s Artifacts)" "artifact_ok r" "f_job r \<in> j_id ` set (jobs s)"
    "null_or (\<lambda>i. i \<in> f_id ` set (artifacts s)) (f_source r)"
    "artifacts t = artifacts s @ [r]" "jobs t = jobs s" "seqs t Artifacts = seqs s Artifacts + 1"
    by (auto simp: sql_insert_Inr_iff artifact_insert_error_def refs_def set_table_defs split: if_splits)
  have "null_or (\<lambda>i. 0 < i \<and> i64_range i) (f_source r)"
    using r(4) inv by (cases "f_source r") (auto simp: files_inv_def artifact_ok_def)
  with inv r assms show "files_inv t" by (auto simp: files_inv_def)
qed

lemma files_delete: "keeps files_inv (sql_delete artifacts set_artifacts D)"
  by (auto simp: keeps_def sql_delete_def set_table_defs files_inv_def)

section \<open>The operations\<close>

lemma keeps_reads [files_rules]: "keeps I (get_with_owner i owner)" "keeps I (get_schedule_with_owner k owner)"
  unfolding get_with_owner_def get_schedule_with_owner_def by (intro files_rules)+

lemma files_queue:
  "keeps files_inv (create now name)"
  "keeps files_inv (claim_next_with_time locked now token worker as_of)"
  "keeps files_inv (complete now c dur)"
  unfolding queue_defs
  by (intro files_rules advances_rules; simp add: start_job_def succeed_job_def)+

lemma files_lifecycle:
  "keeps files_inv (finish_cancelled now c dur)"
  "keeps files_inv (record_failure now c dur kind message)"
  "keeps files_inv (request_cancel_with_owner now i owner)"
  "keeps files_inv (manual_retry_with_owner now i owner)"
  unfolding lifecycle_defs
  by (intro files_rules advances_rules;
      simp add: cancel_job_def retry_job_def fail_job_def request_cancel_row_def copied_input_def)+

lemma files_leases:
  "keeps files_inv (register_worker_at now reg t)" "keeps files_inv (heartbeat_worker_at w ttl t)"
  "keeps files_inv (stop_worker now w)" "keeps files_inv (reclaim_next_expired_attempt_at gone rng t)"
  unfolding lease_defs
  by (intro files_rules advances_rules; simp add: cancel_job_def retry_job_def fail_job_def)+

lemma files_renew: "keeps files_inv (renew_lease_with_time now c as_of)"
  unfolding renew_lease_with_time_def Let_def
  by (intro files_rules; rule keeps_at; intro files_rules)

lemma files_images:
  "keeps files_inv (create_image_job now r)"
  "keeps files_inv (update_progress now c completed)"
  "keeps files_inv (record_encoding_duration now c dur)"
  "keeps files_inv (complete_image_job now c dur outputs)"
  unfolding image_defs
  by (intro files_rules advances_rules; simp add: input_row_def output_row_def succeed_job_def)+

lemma files_schedules:
  "keeps files_inv (create_schedule now ns)"
  "keeps files_inv (update_schedule_at_with_owner rng now k su as_of owner)"
  unfolding schedule_defs by (intro files_rules advances_rules)+

lemma files_materialize: "keeps files_inv (materialize_next_schedule_at gone rng now as_of)"
  unfolding materialize_defs
  by (intro files_rules advances_rules) (simp add: scheduled_input_def)

lemma files_expire: "keeps files_inv (expire_output_artifacts now retention)"
  unfolding expire_output_artifacts_def
proof (intro files_rules expire_advances)
  fix n
  have delete: "keeps files_inv (\<lambda>s. delete_artifacts (D s) s)" for D
    unfolding delete_artifacts_def by (rule keeps_at) (rule files_delete)
  show "keeps files_inv (expire_body now n)"
    unfolding expire_body_def by (intro files_rules delete) (simp add: mark_expired_def)
qed

lemma files_accounts:
  "keeps files_inv (configure_owner now name hash)" "keeps files_inv (create_session now i user h csrf ttl)"
  "keeps files_inv (revoke_session now i)" "keeps files_inv (rotate_session_csrf now i h)"
  "keeps files_inv (purge_expired_sessions now)"
  unfolding account_defs by (intro files_rules advances_rules)+

lemma files_active_session: "keeps files_inv (active_session now h)"
  unfolding active_session_def by (intro files_rules; rule keeps_at; intro files_rules)

lemma files_calls: "keeps files_inv (run_claim_call now c i)"
  by (cases i) (simp_all add: files_queue files_lifecycle files_images files_renew keeps_bind drop_result_def)

section \<open>Jobs can be read\<close>

lemma readable_id: "job_readable j \<Longrightarrow> 0 < j_id j \<and> i64_range (j_id j)"
  unfolding job_readable_def job_ok_def by blast

lemma stored_artifact_readable:
  assumes "queue_inv s" and "files_inv s" and "f \<in> set (artifacts s)"
  shows "artifact_readable f"
proof -
  from assms(2,3) obtain j where "j \<in> set (jobs s)" "f_job f = j_id j"
    unfolding files_inv_def by blast
  with readable_id [OF job_inv_readable [OF queue_inv_job [OF assms(1)]]]
  have "0 < f_job f" "i64_range (f_job f)" by metis+
  with assms(2,3) show ?thesis by (simp add: files_inv_def artifact_readable_def)
qed

lemma read_job_total:
  assumes inv: "queue_inv s" "files_inv s" and j: "j \<in> set (jobs s)"
  shows "\<exists>x. read_job s j = Inr x"
proof -
  have "\<exists>xs. load_artifacts s (j_id j) = Inr xs"
    unfolding load_artifacts_def
    by (rule collect_results_total) (auto intro!: artifact_try_from_total stored_artifact_readable [OF inv])
  moreover have "\<exists>xs. load_attempts s (j_id j) = Inr xs"
    unfolding load_attempts_def
  proof (rule collect_results_total)
    fix a assume "a \<in> set (sort_key a_number (filter (\<lambda>r. a_job r = j_id j) (attempts s)))"
    then have "a \<in> set (attempts_of s (j_id j))" by (simp add: attempts_of_def)
    with job_inv_attempts [OF queue_inv_job [OF inv(1) j]] show "\<exists>x. attempt_try_from (select_attempt (workers s) a) = Inr x"
      by (auto intro!: attempt_try_from_total)
  qed
  ultimately obtain xs ys where parts: "load_artifacts s (j_id j) = Inr xs" "load_attempts s (j_id j) = Inr ys" by blast
  from try_into_record_total [OF job_inv_readable [OF queue_inv_job [OF inv(1) j]], of xs ys]
  show ?thesis by (auto simp: read_job_def parts)
qed

lemma get_total:
  assumes inv: "queue_inv s" "files_inv s" and i: "uint (job_id_get i) < 2 ^ 63"
  shows "\<exists>x. get_with_owner i owner s = (Inr x, s)"
proof (cases "fetch_optional (filter (\<lambda>r. j_id r = uint (job_id_get i) \<and> owned_by owner (j_owner r)) (jobs s))")
  case None
  then show ?thesis by (simp add: get_with_owner_def encode_job_id_fits [OF i] tx_simps)
next
  case (Some j)
  with fetch_optional_filter_Some [OF Some] read_job_total [OF inv, of j] show ?thesis
    by (auto simp: get_with_owner_def encode_job_id_fits [OF i] tx_simps)
qed

lemma list_total:
  assumes inv: "queue_inv s" "files_inv s"
  shows "\<exists>xs. list_with_owner owner s = (Inr xs, s) \<and>
     length xs = length (filter (\<lambda>j. owned_by owner (j_owner j)) (jobs s))"
proof -
  let ?js = "sort_key j_id (filter (\<lambda>r. owned_by owner (j_owner r)) (jobs s))"
  have "\<exists>xs. collect_results (read_job s) ?js = Inr xs"
    by (rule collect_results_total) (auto intro!: read_job_total [OF inv])
  then obtain xs where "collect_results (read_job s) ?js = Inr xs" by blast
  with collect_results_length [OF this] show ?thesis by (simp add: list_with_owner_def)
qed

end
