(* ===== verification/System.thy ===== *)
theory System
  imports Readable QueueProps
begin

text \<open>
  The repository as one transition system: any number of clients, workers and schedulers run the
  operations in any order, each at its own time and with the rows other transactions hold locked, and the
  claims handed to workers are remembered. Its invariants, the history of its jobs, its refinement of the
  job state machine, and the readability of what it stores hold in every reachable state.
\<close>

section \<open>The system\<close>

text \<open>Operations that need no claim; reads change nothing and are left out.\<close>

datatype operation =
  CreateDemo job_name
| CreateImages new_image_job
| RequestCancel job_id "user_id option"
| ManualRetry job_id "user_id option"
| RegisterWorker worker_registration timestamp
| Heartbeat uuid duration timestamp
| StopWorker uuid
| ReclaimExpired "int \<Rightarrow> int \<Rightarrow> bool" "timestamp \<Rightarrow> bool" timestamp
| CreateSchedule new_schedule
| UpdateSchedule "timestamp \<Rightarrow> bool" schedule_id schedule_update timestamp "user_id option"
| Materialize "int \<Rightarrow> bool" "timestamp \<Rightarrow> bool" timestamp
| ExpireOutputs duration
| ConfigureOwner ustring ustring
| OpenSession uuid user_id "u8 list" "u8 list" duration
| TouchSession "u8 list"
| RevokeSession uuid
| RotateCsrf uuid "u8 list"
| PurgeSessions

fun run_operation :: "timestamp \<Rightarrow> operation \<Rightarrow> unit tx" where
  "run_operation now (CreateDemo name) = drop_result (create now name)"
| "run_operation now (CreateImages r) = drop_result (create_image_job now r)"
| "run_operation now (RequestCancel i owner) = drop_result (request_cancel_with_owner now i owner)"
| "run_operation now (ManualRetry i owner) = drop_result (manual_retry_with_owner now i owner)"
| "run_operation now (RegisterWorker r at_time) = drop_result (register_worker_at now r at_time)"
| "run_operation now (Heartbeat w ttl at_time) = drop_result (heartbeat_worker_at w ttl at_time)"
| "run_operation now (StopWorker w) = stop_worker now w"
| "run_operation now (ReclaimExpired locked rng as_of) =
     drop_result (reclaim_next_expired_attempt_at locked rng as_of)"
| "run_operation now (CreateSchedule r) = drop_result (create_schedule now r)"
| "run_operation now (UpdateSchedule rng i r as_of owner) =
     drop_result (update_schedule_at_with_owner rng now i r as_of owner)"
| "run_operation now (Materialize locked rng as_of) =
     drop_result (materialize_next_schedule_at locked rng now as_of)"
| "run_operation now (ExpireOutputs retention) = drop_result (expire_output_artifacts now retention)"
| "run_operation now (ConfigureOwner name hash) = drop_result (configure_owner now name hash)"
| "run_operation now (OpenSession i user h csrf ttl) = drop_result (create_session now i user h csrf ttl)"
| "run_operation now (TouchSession h) = drop_result (active_session now h)"
| "run_operation now (RevokeSession i) = revoke_session now i"
| "run_operation now (RotateCsrf i h) = rotate_session_csrf now i h"
| "run_operation now PurgeSessions = drop_result (purge_expired_sessions now)"

text \<open>A job name is only made by its constructor.\<close>

definition made_name :: "job_name \<Rightarrow> bool" where
  "made_name name \<longleftrightarrow> (\<exists>n. job_name_new n = Inr name)"

fun well_formed :: "operation \<Rightarrow> bool" where
  "well_formed (CreateDemo name) \<longleftrightarrow> made_name name"
| "well_formed (CreateImages r) \<longleftrightarrow> made_name (nj_name r)"
| "well_formed (CreateSchedule r) \<longleftrightarrow> made_name (ns_name r)"
| "well_formed (UpdateSchedule rng i r as_of owner) \<longleftrightarrow> made_name (su_name r)"
| "well_formed _ \<longleftrightarrow> True"

record system =
  sy_db :: db
  sy_claims :: "claimed_job list"

inductive system_step :: "system \<Rightarrow> system \<Rightarrow> bool" where
  operate: "well_formed p \<Longrightarrow> run_operation now p (sy_db y) = (r, t) \<Longrightarrow> system_step y (y\<lparr>sy_db := t\<rparr>)"
| claim: "claim_next_with_time locked now token worker as_of (sy_db y) = (Inr (Some c), t) \<Longrightarrow>
     system_step y (y\<lparr>sy_db := t, sy_claims := c # sy_claims y\<rparr>)"
| no_claim: "claim_next_with_time locked now token worker as_of (sy_db y) = (r, t) \<Longrightarrow>
     (\<And>c. r \<noteq> Inr (Some c)) \<Longrightarrow> system_step y (y\<lparr>sy_db := t\<rparr>)"
| work: "c \<in> set (sy_claims y) \<Longrightarrow> run_claim_call now c i (sy_db y) = (r, t) \<Longrightarrow>
     system_step y (y\<lparr>sy_db := t\<rparr>)"

inductive system_run :: "system \<Rightarrow> system \<Rightarrow> bool" where
  idle: "system_run y y"
| on: "system_run y z \<Longrightarrow> system_step z u \<Longrightarrow> system_run y u"

inductive_cases system_stepE: "system_step y z"

text \<open>The migrated database: no row but the bootstrap owner's.\<close>

definition migrated :: "timestamp \<Rightarrow> db" where
  "migrated now =
     \<lparr>jobs = [], attempts = [], artifacts = [], workers = [], schedules = [], schedule_inputs = [],
      occurrences = [],
      users = [\<lparr>u_id = 1, u_username = lit ''owner'', u_password_hash = lit ''!unconfigured'',
                u_is_active = True, u_updated_at = now\<rparr>],
      sessions = [], seqs = (\<lambda>_. 1)\<rparr>"

definition initial :: "timestamp \<Rightarrow> system" where
  "initial now = \<lparr>sy_db = migrated now, sy_claims = []\<rparr>"

section \<open>Invariants\<close>

definition db_inv :: "db \<Rightarrow> bool" where
  "db_inv s \<longleftrightarrow> queue_inv s \<and> schedules_inv s \<and> no_overlap s \<and> files_inv s \<and> accounts_inv s"

definition system_inv :: "system \<Rightarrow> bool" where
  "system_inv y \<longleftrightarrow> db_inv (sy_db y) \<and> (\<forall>c \<in> set (sy_claims y). issued (sy_db y) c)"

lemma work_keeps:
  assumes "obeys same_work m" and "advances m"
  shows "keeps queue_inv m" and "keeps schedules_inv m"
proof -
  have "same_work s (snd (m s)) \<and> (\<forall>T. seqs s T \<le> seqs (snd (m s)) T)" for s
    using assms unfolding obeys_def advances_def by blast
  then show "keeps queue_inv m" "keeps schedules_inv m"
    unfolding keeps_def same_work_def
    by (auto intro: queue_inv_other_tables schedules_inv_frame)
qed

lemma work_history: "obeys same_work m \<Longrightarrow> obeys evolves m"
  unfolding obeys_def same_work_def by (simp add: evolves_same_jobs_attempts)

lemma accts_keep: "obeys same_accounts m \<Longrightarrow> keeps accounts_inv m"
  unfolding obeys_def same_accounts_def keeps_def by (blast intro: accounts_inv_frame)

lemma drop_keeps [intro!]: "keeps I m \<Longrightarrow> keeps I (drop_result m)"
  by (simp add: drop_result_def keeps_bind)

lemma drop_history [intro!]: "obeys (evolves_by A) m \<Longrightarrow> obeys (evolves_by A) (drop_result m)"
  unfolding drop_result_def by (intro history_rules)

lemmas account_work = accounts_leave_work active_session_leaves_work
lemmas account_moves = accounts_advance active_session_advances

lemma operation_keeps_queue:
  assumes "well_formed p" and "\<And>locked rng as_of. p \<noteq> Materialize locked rng as_of"
  shows "keeps queue_inv (run_operation now p)"
  using assms
  by (cases p) (auto simp: made_name_def create_keeps create_image_job_keeps request_cancel_keeps
      manual_retry_keeps worker_ops_keep reclaim_keeps create_schedule_keeps update_schedule_keeps
      expire_keeps work_keeps [OF account_work(1) account_moves(1)] work_keeps [OF account_work(2) account_moves(2)]
      work_keeps [OF account_work(6) account_moves(6)] work_keeps [OF account_work(3) account_moves(3)]
      work_keeps [OF account_work(4) account_moves(4)] work_keeps [OF account_work(5) account_moves(5)])

lemma operation_keeps_schedules:
  assumes "well_formed p"
  shows "keeps schedules_inv (run_operation now p)"
  using assms
  by (cases p) (auto simp: made_name_def scheds_queue scheds_images scheds_lifecycle scheds_leases
      create_schedule_scheds update_schedule_scheds materialize_scheds expire_scheds
      work_keeps [OF account_work(1) account_moves(1)] work_keeps [OF account_work(2) account_moves(2)]
      work_keeps [OF account_work(6) account_moves(6)] work_keeps [OF account_work(3) account_moves(3)]
      work_keeps [OF account_work(4) account_moves(4)] work_keeps [OF account_work(5) account_moves(5)])

lemma operation_keeps_files: "keeps files_inv (run_operation now p)"
  by (cases p) (auto simp: files_queue files_images files_lifecycle files_leases files_schedules
      files_materialize files_expire files_accounts files_active_session)

lemma operation_keeps_accounts: "keeps accounts_inv (run_operation now p)"
  by (cases p) (auto simp: accounts_keep accts_keep accts_queue accts_images accts_lifecycle accts_leases
      accts_schedules accts_materialize accts_expire)

lemma operation_history:
  assumes "\<And>locked rng as_of. p \<noteq> Materialize locked rng as_of"
  shows "obeys evolves (run_operation now p)"
  using assms
  by (cases p) (auto simp: create_history images_history lifecycle_history leases_history reclaim_history
      schedules_history expire_history account_work work_history)

lemma operation_moves: "obeys one_move (run_operation now p)"
proof (cases p)
  case (Materialize locked rng as_of)
  show ?thesis
    unfolding Materialize run_operation.simps drop_result_def
    by (intro move_before [OF moves_materialize] quiet.simple)
qed (auto simp: drop_result_def intro!: move_before quiet.simple moves_queue moves_images moves_lifecycle
    moves_reclaim quiet_leases quiet_schedules quiet_expire work_quiet account_work intro: move_quiet)

lemma operation_inv:
  assumes inv: "db_inv s" and p: "well_formed p" and run: "run_operation now p s = (r, t)"
  shows "db_inv t \<and> evolves_by (\<lambda>_. True) s t \<and> one_move s t"
proof -
  have parts: "queue_inv s" "schedules_inv s" "no_overlap s" "files_inv s" "accounts_inv s"
    using inv by (simp_all add: db_inv_def)
  have rest: "schedules_inv t" "files_inv t" "accounts_inv t" "one_move s t"
    using keepsD [OF operation_keeps_schedules [OF p] parts(2) run] keepsD [OF operation_keeps_files parts(4) run]
      keepsD [OF operation_keeps_accounts parts(5) run] obeysD [OF operation_moves run] by blast+
  show ?thesis
  proof (cases "\<exists>locked rng as_of. p = Materialize locked rng as_of")
    case True
    then obtain locked rng as_of q where m: "materialize_next_schedule_at locked rng now as_of s = (q, t)"
      using run by (auto simp: drop_result_def tx_bind_def tx_return_def split: prod.splits sum.splits)
    from materialize_keeps [OF parts(1,2) m] materialize_no_overlap [OF parts(3) m] obeysD [OF materialize_history m] rest
    show ?thesis by (simp add: db_inv_def)
  next
    case False
    then have q: "queue_inv t" and e: "evolves s t"
      using keepsD [OF operation_keeps_queue [OF p] parts(1) run] obeysD [OF operation_history run] by blast+
    from no_overlap_evolves [OF parts(3) e queue_inv_keyed(1) [OF q]] q rest evolves_weaken [OF e]
    show ?thesis by (simp add: db_inv_def)
  qed
qed

lemma call_inv:
  assumes inv: "db_inv s" and c: "issued s c" and run: "run_claim_call now c i s = (r, t)"
  shows "db_inv t \<and> evolves_by (\<lambda>_. True) s t \<and> one_move s t"
proof -
  have parts: "queue_inv s" "schedules_inv s" "no_overlap s" "files_inv s" "accounts_inv s"
    using inv by (simp_all add: db_inv_def)
  have accounts: "keeps accounts_inv (run_claim_call now c i)"
    by (cases i) (auto simp: accts_keep accts_queue accts_images accts_lifecycle accts_renew)
  note q = claim_call_keeps [OF parts(1) c run]
  note e = obeysD [OF claim_call_history run]
  from q e keepsD [OF scheds_calls parts(2) run] keepsD [OF files_calls parts(4) run] keepsD [OF accounts parts(5) run]
    no_overlap_evolves [OF parts(3) e queue_inv_keyed(1) [OF q]] evolves_weaken [OF e] obeysD [OF moves_calls run]
  show ?thesis by (simp add: db_inv_def)
qed

lemma claim_inv:
  assumes inv: "db_inv s" and run: "claim_next_with_time locked now token worker as_of s = (r, t)"
  shows "db_inv t \<and> evolves_by (\<lambda>_. True) s t \<and> one_move s t"
proof -
  have parts: "queue_inv s" "schedules_inv s" "no_overlap s" "files_inv s" "accounts_inv s"
    using inv by (simp_all add: db_inv_def)
  note q = keepsD [OF claim_next_keeps parts(1) run]
  note e = obeysD [OF claim_next_history run]
  from q e keepsD [OF scheds_queue(2) parts(2) run] keepsD [OF files_queue(2) parts(4) run]
    keepsD [OF accts_keep [OF accts_queue(2)] parts(5) run] no_overlap_evolves [OF parts(3) e queue_inv_keyed(1) [OF q]]
    evolves_weaken [OF e] obeysD [OF moves_queue(2) run]
  show ?thesis by (simp add: db_inv_def)
qed

lemma step_inv:
  assumes "system_step y z" and inv: "system_inv y"
  shows "system_inv z \<and> evolves_by (\<lambda>_. True) (sy_db y) (sy_db z) \<and> one_move (sy_db y) (sy_db z)"
proof -
  have db: "db_inv (sy_db y)" and held: "\<And>c. c \<in> set (sy_claims y) \<Longrightarrow> issued (sy_db y) c"
    using inv by (simp_all add: system_inv_def)
  note carry = evolves_issued [OF _ held]
  show ?thesis
    using assms(1)
  proof cases
    case (operate p now r t)
    with operation_inv [OF db operate(2,3)] show ?thesis by (auto simp: system_inv_def intro: carry)
  next
    case (claim locked now token worker as_of c t)
    with claim_inv [OF db claim(2)] claim_issues [OF _ claim(2)] db show ?thesis
      by (auto simp: system_inv_def db_inv_def intro: carry)
  next
    case (no_claim locked now token worker as_of r t)
    with claim_inv [OF db no_claim(2)] show ?thesis by (auto simp: system_inv_def intro: carry)
  next
    case (work c now i r t)
    with call_inv [OF db held work(3)] show ?thesis by (auto simp: system_inv_def intro: carry)
  qed
qed

lemma initial_inv: "system_inv (initial now)"
proof -
  have "username_pattern (lit ''owner'')" by code_simp
  then have "user_ok \<lparr>u_id = 1, u_username = lit ''owner'', u_password_hash = lit ''!unconfigured'',
      u_is_active = True, u_updated_at = now\<rparr>"
    by (simp add: user_ok_def between_def i64_range_def lit_def)
  then show ?thesis
    by (simp add: system_inv_def initial_def migrated_def db_inv_def queue_inv_def tables_inv_def keyed_def
        unique_tokens_def schedules_inv_def no_overlap_def files_inv_def accounts_inv_def)
qed

lemma run_inv:
  "system_run y z \<Longrightarrow> system_inv y \<Longrightarrow> system_inv z \<and> evolves_by (\<lambda>_. True) (sy_db y) (sy_db z)"
  by (induction rule: system_run.induct) (auto dest: step_inv intro: history.refl evolves_trans)

lemma reachable_inv: "system_run (initial now) y \<Longrightarrow> system_inv y"
  using run_inv initial_inv by blast

section \<open>Properties of every run\<close>

text \<open>C1. In every state that clients, workers and the scheduler can reach from the migrated database the
  invariants of the queue, the schedules, the artifacts and the accounts hold, no schedule has two
  active jobs, and every claim a worker holds names an attempt the database recorded for it.\<close>
theorem reachable_invariants:
  assumes "system_run (initial now) y"
  shows "queue_inv (sy_db y) \<and> schedules_inv (sy_db y) \<and> no_overlap (sy_db y) \<and> files_inv (sy_db y) \<and>
     accounts_inv (sy_db y) \<and> (\<forall>c \<in> set (sy_claims y). issued (sy_db y) c)"
  using reachable_inv [OF assms] by (simp add: system_inv_def db_inv_def)

text \<open>C2. What is finished stays: from a reachable state on, a finished job keeps its status, its times, its
  result and its failure message, and an attempt that is no longer running does not change at all.\<close>
theorem finished_work_is_final:
  assumes "system_run (initial now) y" and "system_run y z"
  shows "(\<forall>j \<in> set (jobs (sy_db y)). j_state j \<in> terminal_states \<longrightarrow>
       (\<exists>j' \<in> set (jobs (sy_db z)). j_id j' = j_id j \<and> j_state j' = j_state j \<and>
          j_finished_at j' = j_finished_at j \<and> j_result_message j' = j_result_message j \<and>
          j_failure_message j' = j_failure_message j \<and> j_progress_completed j' = j_progress_completed j)) \<and>
     (\<forall>a \<in> set (attempts (sy_db y)). a_state a \<noteq> ARunning \<longrightarrow> a \<in> set (attempts (sy_db z)))"
proof -
  have e: "evolves_by (\<lambda>_. True) (sy_db y) (sy_db z)"
    using run_inv [OF assms(2) reachable_inv [OF assms(1)]] by blast
  then have "\<forall>j \<in> set (jobs (sy_db y)). \<exists>j' \<in> set (jobs (sy_db z)). job_step j j'"
    "\<forall>a \<in> set (attempts (sy_db y)). \<exists>a' \<in> set (attempts (sy_db z)). attempt_step a a'"
    unfolding evolves_by_def by blast+
  then show ?thesis unfolding job_step_def attempt_step_def running_def by (intro conjI ballI impI) metis+
qed

text \<open>C3. The repository refines the state machine of a job: every step of the system, whichever client, worker
  or scheduler takes it, leaves all job statuses as they are or moves exactly one job along one edge.\<close>
theorem statuses_follow_machine:
  assumes "system_run (initial now) y" and "system_step y z"
  shows "spec_step (job_statuses (sy_db y)) (job_statuses (sy_db z))"
proof -
  note inv = reachable_inv [OF assms(1)]
  then have "keyed j_id (jobs (sy_db y))" by (auto simp: system_inv_def db_inv_def intro: queue_inv_keyed)
  with step_inv [OF assms(2) inv] show ?thesis by (simp add: one_move_def)
qed

text \<open>C31. Every job that is stored in a reachable state can be read back, with its artifacts and attempts: no
  column holds a value that the decoding refuses. Listing returns one record per job of the owner, and
  looking up an identifier within the range of the column succeeds.\<close>
theorem stored_jobs_are_readable:
  assumes "system_run (initial now) y" and "uint (job_id_get i) < 2 ^ 63"
  shows "(\<exists>records. list_with_owner owner (sy_db y) = (Inr records, sy_db y) \<and>
       length records = length (filter (\<lambda>j. owned_by owner (j_owner j)) (jobs (sy_db y)))) \<and>
     (\<exists>found. get_with_owner i owner (sy_db y) = (Inr found, sy_db y))"
  using reachable_inv [OF assms(1)] list_total get_total assms(2) by (simp add: system_inv_def db_inv_def)

section \<open>An example run\<close>

text \<open>A job is created, cancelled while it waits, and retried by hand.\<close>

definition ex_name :: job_name where
  "ex_name = JobName (lit ''n'')"

definition ex_created_job :: db where
  "ex_created_job = snd (run_operation 5 (CreateDemo ex_name) (migrated 0))"

definition ex_cancelled_job :: db where
  "ex_cancelled_job = snd (run_operation 6 (RequestCancel (JobId 1) (Some owner_user_id)) ex_created_job)"

definition ex_retried_job :: db where
  "ex_retried_job = snd (run_operation 7 (ManualRetry (JobId 1) None) ex_cancelled_job)"

lemma drop_result_db: "snd (drop_result m s) = snd (m s)"
  by (simp add: drop_result_def tx_bind_def tx_return_def split: prod.split sum.split)

definition ex_row :: job_row where
  "ex_row = default_job 5 1 (lit ''n'')\<lparr>j_delay_ms := 500\<rparr>"

lemma ex_created_value:
  "ex_created_job = (migrated 0)\<lparr>jobs := [ex_row], seqs := (\<lambda>_. 1)(Jobs := 2)\<rparr>"
  by (simp add: ex_created_job_def drop_result_db create_def evaluate migrated_def ex_name_def ex_row_def
      demo_delay_ms_def)

lemma ex_cancelled_value:
  "ex_cancelled_job =
     (migrated 0)\<lparr>jobs := [request_cancel_row 6 ex_row], seqs := (\<lambda>_. 1)(Jobs := 2)\<rparr>"
  by (simp add: ex_cancelled_job_def ex_created_value drop_result_db evaluate migrated_def ex_row_def
      request_cancel_with_owner_def request_cancel_row_def cancellable_states_def get_with_owner_def
      owned_by_def owner_user_id_def)

lemma ex_retried_value:
  "jobs ex_retried_job = [request_cancel_row 6 ex_row, manual_retry_job 7 (request_cancel_row 6 ex_row) 2]"
  by (simp add: ex_retried_job_def ex_cancelled_value drop_result_db evaluate migrated_def ex_row_def
      request_cancel_row_def manual_retry_with_owner_def manual_retry_body_def manual_retry_job_def
      get_with_owner_def owned_by_def)

lemma ex_runs:
  "system_run (initial 0) \<lparr>sy_db = ex_created_job, sy_claims = []\<rparr>"
  "system_step \<lparr>sy_db = ex_created_job, sy_claims = []\<rparr> \<lparr>sy_db = ex_cancelled_job, sy_claims = []\<rparr>"
  "system_run (initial 0) \<lparr>sy_db = ex_cancelled_job, sy_claims = []\<rparr>"
  "system_run \<lparr>sy_db = ex_cancelled_job, sy_claims = []\<rparr> \<lparr>sy_db = ex_retried_job, sy_claims = []\<rparr>"
proof -
  have step: "system_step \<lparr>sy_db = s, sy_claims = []\<rparr> \<lparr>sy_db = snd (run_operation now p s), sy_claims = []\<rparr>"
    if "well_formed p" for p now s
    using operate [OF that, of now "\<lparr>sy_db = s, sy_claims = []\<rparr>"] by (metis prod.collapse system.select_convs(1) system.update_convs(1))
  have "job_name_new (lit ''n'') = Inr ex_name"
    by (simp add: job_name_new_Inr_iff ex_name_def max_job_name_length_def evaluate)
  then have name: "well_formed (CreateDemo ex_name)" by (auto simp: made_name_def)
  show 1: "system_run (initial 0) \<lparr>sy_db = ex_created_job, sy_claims = []\<rparr>"
    unfolding ex_created_job_def initial_def by (rule on [OF idle step [OF name]])
  show 2: "system_step \<lparr>sy_db = ex_created_job, sy_claims = []\<rparr> \<lparr>sy_db = ex_cancelled_job, sy_claims = []\<rparr>"
    unfolding ex_cancelled_job_def by (rule step) simp
  show "system_run (initial 0) \<lparr>sy_db = ex_cancelled_job, sy_claims = []\<rparr>" by (rule on [OF 1 2])
  show "system_run \<lparr>sy_db = ex_cancelled_job, sy_claims = []\<rparr> \<lparr>sy_db = ex_retried_job, sy_claims = []\<rparr>"
    unfolding ex_retried_job_def by (rule on [OF idle step]) simp
qed

theorem reachable_invariants_witness:
  "queue_inv ex_cancelled_job \<and> no_overlap ex_cancelled_job \<and> List.map j_state (jobs ex_cancelled_job) = [Cancelled]"
proof -
  have "List.map j_state (jobs ex_cancelled_job) = [Cancelled]"
    by (simp add: ex_cancelled_value ex_row_def default_job_def request_cancel_row_def state_groups)
  with reachable_invariants [OF ex_runs(3)] show ?thesis by simp
qed

theorem finished_work_is_final_witness:
  "\<exists>j \<in> set (jobs ex_retried_job). j_id j = 1 \<and> j_state j = Cancelled \<and> j_finished_at j = Some 6"
proof -
  have "request_cancel_row 6 ex_row \<in> set (jobs ex_cancelled_job)"
    "j_state (request_cancel_row 6 ex_row) = Cancelled" "j_id (request_cancel_row 6 ex_row) = 1"
    "j_finished_at (request_cancel_row 6 ex_row) = Some 6"
    by (simp_all add: ex_cancelled_value ex_row_def default_job_def request_cancel_row_def state_groups)
  with finished_work_is_final [OF ex_runs(3,4)] show ?thesis by (fastforce simp: state_groups)
qed

theorem statuses_follow_machine_witness:
  "spec_step (job_statuses ex_created_job) (job_statuses ex_cancelled_job) \<and>
   job_statuses ex_created_job 1 = Some Queued \<and> job_statuses ex_cancelled_job 1 = Some Cancelled"
  using statuses_follow_machine [OF ex_runs(1,2)]
  by (simp add: job_statuses_def status_rows_def ex_created_value ex_cancelled_value ex_row_def default_job_def
      request_cancel_row_def state_groups)

theorem stored_jobs_are_readable_witness:
  "\<exists>record. list_with_owner None ex_cancelled_job = (Inr [record], ex_cancelled_job)"
proof -
  have "length (filter (\<lambda>j. owned_by None (j_owner j)) (jobs ex_cancelled_job)) = 1"
    by (simp add: ex_cancelled_value owned_by_def)
  with stored_jobs_are_readable [OF ex_runs(3), of "JobId 1" None]
  obtain records where "list_with_owner None ex_cancelled_job = (Inr records, ex_cancelled_job)" "length records = 1"
    by auto
  then show ?thesis by (auto simp: length_Suc_conv)
qed

end
