(* ===== verification/Utf8.thy ===== *)
theory Utf8
  imports Prelude
begin

text \<open>
  The bytes of a Rust string (\<open>str::as_bytes\<close>), and \<open>String::from_utf8\<close>, which accepts exactly the
  well-formed sequences: a lead byte with its continuation bytes that stand for a scalar value which has no shorter
  encoding. The lemmas show that decoding inverts encoding.
\<close>

fun utf8_char :: "nat \<Rightarrow> nat list" where
  "utf8_char c =
     (if c < 128 then [c]
      else if c < 2048 then [192 + c div 64, 128 + c mod 64]
      else if c < 65536 then [224 + c div 4096, 128 + c div 64 mod 64, 128 + c mod 64]
      else [240 + c div 262144, 128 + c div 4096 mod 64, 128 + c div 64 mod 64, 128 + c mod 64])"

declare utf8_char.simps [simp del]

definition as_bytes :: "ustring \<Rightarrow> u8 list" where
  "as_bytes s = List.map of_nat (concat (List.map utf8_char s))"

definition scalar :: "nat \<Rightarrow> bool" where
  "scalar c \<longleftrightarrow> c < 55296 \<or> 57343 < c \<and> c < 1114112"

definition continuation_bytes :: "nat \<Rightarrow> nat" where
  "continuation_bytes b =
     (if b < 128 then 0 else if b < 224 then 1 else if b < 240 then 2 else 3)"

definition lead_bits :: "nat \<Rightarrow> nat" where
  "lead_bits b = (if b < 128 then b else if b < 224 then b - 192 else if b < 240 then b - 224 else b - 240)"

definition code_point :: "nat \<Rightarrow> nat list \<Rightarrow> nat" where
  "code_point b cs = foldl (\<lambda>acc c. acc * 64 + (c - 128)) (lead_bits b) cs"

definition well_formed_char :: "nat \<Rightarrow> nat list \<Rightarrow> bool" where
  "well_formed_char b cs \<longleftrightarrow>
     length cs = continuation_bytes b \<and> list_all (\<lambda>c. 128 \<le> c \<and> c < 192) cs \<and>
     (b < 128 \<or> 192 \<le> b \<and> b < 248) \<and> scalar (code_point b cs) \<and>
     length (utf8_char (code_point b cs)) = Suc (length cs)"

function from_utf8 :: "nat list \<Rightarrow> ustring option" where
  "from_utf8 [] = Some []"
| "from_utf8 (b # bs) =
     (let cs = take (continuation_bytes b) bs
      in if well_formed_char b cs
         then map_option ((#) (code_point b cs)) (from_utf8 (drop (continuation_bytes b) bs))
         else None)"
  by pat_completeness auto
termination by (relation "measure length") auto

section \<open>Decoding inverts encoding\<close>

lemma digits64: "(c :: nat) div 4096 = c div 64 div 64" "c div 262144 = c div 64 div 64 div 64"
  by (simp_all flip: div_mult2_eq)

lemma utf8_char_from:
  assumes "utf8_char c = b # cs" and "code_point b cs = c" and "scalar c"
    and "continuation_bytes b = length cs" and "b < 128 \<or> 192 \<le> b \<and> b < 248"
    and "list_all (\<lambda>x. 128 \<le> x \<and> x < 192) cs"
  shows "\<exists>b cs. utf8_char c = b # cs \<and> well_formed_char b cs \<and> code_point b cs = c \<and>
     continuation_bytes b = length cs \<and> (\<forall>x \<in> set (b # cs). x < 256)"
  using assms by (intro exI [of _ b] exI [of _ cs]) (auto simp: well_formed_char_def list_all_iff)

lemma utf8_char_cons:
  assumes "scalar c"
  shows "\<exists>b cs. utf8_char c = b # cs \<and> well_formed_char b cs \<and> code_point b cs = c \<and>
     continuation_bytes b = length cs \<and> (\<forall>x \<in> set (b # cs). x < 256)"
proof -
  have c: "c < 1114112" using assms by (auto simp: scalar_def)
  let ?a = "c div 64" let ?b = "?a div 64"
  note shape = utf8_char.simps digits64 and point = code_point_def lead_bits_def
  consider "c < 128" | "128 \<le> c" "c < 2048" | "2048 \<le> c" "c < 65536" | "65536 \<le> c" by linarith
  then show ?thesis
  proof cases
    case 1
    show ?thesis
      by (rule utf8_char_from [OF _ _ assms, of c "[]"]) (use 1 in \<open>simp_all add: shape point continuation_bytes_def\<close>)
  next
    case 2
    then have a: "?a < 32" by simp
    then have "code_point (192 + ?a) [128 + c mod 64] = ?a * 64 + c mod 64"
      by (simp add: point del: div_mult_mod_eq)
    then have "code_point (192 + ?a) [128 + c mod 64] = c" by (simp only: div_mult_mod_eq)
    with 2 a show ?thesis
      by (intro utf8_char_from [of c "192 + ?a" "[128 + c mod 64]", OF _ _ assms]) (simp_all add: shape continuation_bytes_def)
  next
    case 3
    then have b: "?b < 16" by simp
    then have "code_point (224 + ?b) [128 + ?a mod 64, 128 + c mod 64] = (?b * 64 + ?a mod 64) * 64 + c mod 64"
      by (simp add: point del: div_mult_mod_eq)
    then have "code_point (224 + ?b) [128 + ?a mod 64, 128 + c mod 64] = c" by (simp only: div_mult_mod_eq)
    with 3 b show ?thesis
      by (intro utf8_char_from [of c "224 + ?b" "[128 + ?a mod 64, 128 + c mod 64]", OF _ _ assms]) (simp_all add: shape continuation_bytes_def)
  next
    case 4
    have b: "?b div 64 < 8" using c by simp
    then have "code_point (240 + ?b div 64) [128 + ?b mod 64, 128 + ?a mod 64, 128 + c mod 64] =
        ((?b div 64 * 64 + ?b mod 64) * 64 + ?a mod 64) * 64 + c mod 64"
      by (simp add: point del: div_mult_mod_eq)
    then have "code_point (240 + ?b div 64) [128 + ?b mod 64, 128 + ?a mod 64, 128 + c mod 64] = c"
      by (simp only: div_mult_mod_eq)
    with 4 b show ?thesis
      by (intro utf8_char_from [of c "240 + ?b div 64" "[128 + ?b mod 64, 128 + ?a mod 64, 128 + c mod 64]", OF _ _ assms]) (simp_all add: shape continuation_bytes_def)
  qed
qed

lemma from_utf8_char:
  assumes "scalar c"
  shows "from_utf8 (utf8_char c @ bs) = map_option ((#) c) (from_utf8 bs)"
  using utf8_char_cons [OF assms] by (auto simp: Let_def)

lemma from_utf8_chars: "list_all scalar s \<Longrightarrow> from_utf8 (concat (List.map utf8_char s)) = Some s"
  by (induction s) (simp_all add: from_utf8_char)

lemma as_bytes_values: "list_all scalar s \<Longrightarrow> List.map unat (as_bytes s) = concat (List.map utf8_char s)"
proof (induction s)
  case (Cons c s)
  then have "\<forall>x \<in> set (utf8_char c). x < 256" using utf8_char_cons [of c] by force
  then have "List.map (unat \<circ> (of_nat :: nat \<Rightarrow> u8)) (utf8_char c) = utf8_char c"
    by (intro map_idI) (simp add: unat_of_nat)
  with Cons show ?case by (simp add: as_bytes_def)
qed (simp add: as_bytes_def)

lemma from_utf8_as_bytes: "list_all scalar s \<Longrightarrow> from_utf8 (List.map unat (as_bytes s)) = Some s"
  by (simp add: as_bytes_values from_utf8_chars)

lemma as_bytes_inj: "list_all scalar s \<Longrightarrow> list_all scalar t \<Longrightarrow> as_bytes s = as_bytes t \<Longrightarrow> s = t"
  using from_utf8_as_bytes by (metis option.inject)

end
