(* ===== verification/Api.thy ===== *)
theory Api
  imports Utf8 RateLimit Imaging Accounts Maintenance
begin

text \<open>
  What the parts of the HTTP API share: its errors (\<open>apps/api/src/error.rs\<close>), its configuration and state
  (\<open>apps/api/src/lib.rs\<close>), and the form of its handlers. A handler is a function on the state of the
  server: the database, the stored files and the two rate limiters. Each access to the database, the
  files, a clock or the source of random numbers is a step; before each database call the rest of the system may
  change the database and the files. What is outside the program (clocks, random numbers, hashing,
  the parser of RFC 3339, the answers of the file system, the interference) is the record \<open>host\<close>,
  indexed by the number of the step. Status codes are numbers.
\<close>

section \<open>Errors\<close>

record api_error =
  ae_status :: nat
  ae_code :: string
  ae_message :: ustring
  ae_field :: "string option"

definition unauthorized :: api_error where
  "unauthorized = \<lparr>ae_status = 401, ae_code = ''authentication_required'',
     ae_message = lit ''sign in to access TaskHarbor'', ae_field = None\<rparr>"

definition invalid_credentials :: api_error where
  "invalid_credentials = \<lparr>ae_status = 401, ae_code = ''invalid_credentials'',
     ae_message = lit ''username or password is incorrect'', ae_field = None\<rparr>"

definition invalid_csrf :: api_error where
  "invalid_csrf = \<lparr>ae_status = 403, ae_code = ''invalid_csrf_token'',
     ae_message = lit ''the request is missing a valid CSRF token'', ae_field = None\<rparr>"

definition rate_limited :: "duration \<Rightarrow> api_error" where
  "rate_limited retry_after = \<lparr>ae_status = 429, ae_code = ''rate_limited'',
     ae_message = lit (''too many requests; try again in '' @ show_nat (nat (max (as_secs retry_after) 1)) @ '' seconds''),
     ae_field = None\<rparr>"

definition resource_limit :: "string \<Rightarrow> string \<Rightarrow> api_error" where
  "resource_limit code message =
     \<lparr>ae_status = 507, ae_code = code, ae_message = lit message, ae_field = None\<rparr>"

definition internal_error :: api_error where
  "internal_error = \<lparr>ae_status = 500, ae_code = ''internal_error'',
     ae_message = lit ''the request could not be completed'', ae_field = None\<rparr>"

definition invalid_job_name :: "job_name_error \<Rightarrow> api_error" where
  "invalid_job_name error = \<lparr>ae_status = 422, ae_code = ''validation_error'',
     ae_message = lit (job_name_error_display error), ae_field = Some ''name''\<rparr>"

definition invalid_multipart :: "string \<Rightarrow> api_error" where
  "invalid_multipart message =
     \<lparr>ae_status = 400, ae_code = ''invalid_multipart'', ae_message = lit message, ae_field = None\<rparr>"

definition upload_validation :: "string \<Rightarrow> ustring \<Rightarrow> string \<Rightarrow> api_error" where
  "upload_validation code message field =
     \<lparr>ae_status = 422, ae_code = code, ae_message = message, ae_field = Some field\<rparr>"

definition upload_too_large :: "string \<Rightarrow> string \<Rightarrow> string \<Rightarrow> api_error" where
  "upload_too_large code message field =
     \<lparr>ae_status = 413, ae_code = code, ae_message = lit message, ae_field = Some field\<rparr>"

definition storage_failed :: "storage_error \<Rightarrow> api_error" where
  "storage_failed error = \<lparr>ae_status = 500, ae_code = ''storage_error'',
     ae_message = lit ''file storage is temporarily unavailable'', ae_field = None\<rparr>"

definition image_inspection :: "image_error \<Rightarrow> api_error" where
  "image_inspection error = \<lparr>ae_status = 500, ae_code = ''image_inspection_error'',
     ae_message = lit ''the uploaded image could not be inspected'', ae_field = Some ''images''\<rparr>"

definition artifact_unavailable :: "storage_error \<Rightarrow> api_error" where
  "artifact_unavailable error = \<lparr>ae_status = 500, ae_code = ''artifact_unavailable'',
     ae_message = lit ''the output file is temporarily unavailable'', ae_field = None\<rparr>"

definition artifact_not_found :: api_error where
  "artifact_not_found = \<lparr>ae_status = 404, ae_code = ''artifact_not_found'',
     ae_message = lit ''output artifact was not found'', ae_field = None\<rparr>"

definition job_not_found :: api_error where
  "job_not_found = \<lparr>ae_status = 404, ae_code = ''job_not_found'',
     ae_message = lit ''job was not found'', ae_field = None\<rparr>"

definition schedule_not_found :: api_error where
  "schedule_not_found = \<lparr>ae_status = 404, ae_code = ''schedule_not_found'',
     ae_message = lit ''schedule was not found'', ae_field = None\<rparr>"

fun repository_failed :: "repository_error \<Rightarrow> api_error" where
  "repository_failed (Database _) = \<lparr>ae_status = 503, ae_code = ''database_unavailable'',
     ae_message = lit ''the database is temporarily unavailable'', ae_field = None\<rparr>"
| "repository_failed Migration = \<lparr>ae_status = 503, ae_code = ''database_unavailable'',
     ae_message = lit ''the database is temporarily unavailable'', ae_field = None\<rparr>"
| "repository_failed (StateConflict _) = \<lparr>ae_status = 409, ae_code = ''job_state_conflict'',
     ae_message = lit ''the job is no longer in a state that allows this action'', ae_field = None\<rparr>"
| "repository_failed ClaimLost = \<lparr>ae_status = 409, ae_code = ''job_state_conflict'',
     ae_message = lit ''the job is no longer in a state that allows this action'', ae_field = None\<rparr>"
| "repository_failed IdempotencyConflict = \<lparr>ae_status = 409, ae_code = ''idempotency_conflict'',
     ae_message = lit ''the idempotency key was already used for different job data'', ae_field = None\<rparr>"
| "repository_failed (InvalidData _) = \<lparr>ae_status = 500, ae_code = ''internal_error'',
     ae_message = lit ''the request could not be completed'', ae_field = None\<rparr>"

section \<open>Configuration and state\<close>

definition default_session_ttl :: duration where
  "default_session_ttl = from_secs (12 * 60 * 60)"

definition default_storage_budget_bytes :: u64 where
  "default_storage_budget_bytes = 1024 * 1024 * 1024"

definition default_max_active_jobs :: u32 where
  "default_max_active_jobs = 100"

record app_config =
  ac_session_ttl :: duration
  ac_secure_cookies :: bool
  ac_storage_budget_bytes :: u64
  ac_max_active_jobs :: u32
  ac_login_attempts_per_minute :: nat
  ac_uploads_per_minute :: nat

definition app_config_default :: app_config where
  "app_config_default =
     \<lparr>ac_session_ttl = default_session_ttl, ac_secure_cookies = False,
      ac_storage_budget_bytes = default_storage_budget_bytes, ac_max_active_jobs = default_max_active_jobs,
      ac_login_attempts_per_minute = 5, ac_uploads_per_minute = 10\<rparr>"

record server =
  sv_db :: db
  sv_files :: stored
  sv_login_limiter :: rate_limiter
  sv_upload_limiter :: rate_limiter
  sv_step :: nat

definition app_with_config :: "db \<Rightarrow> stored \<Rightarrow> app_config \<Rightarrow> server" where
  "app_with_config s storage config =
     \<lparr>sv_db = s, sv_files = storage,
      sv_login_limiter = rate_limiter_new (ac_login_attempts_per_minute config) (from_secs 60),
      sv_upload_limiter = rate_limiter_new (ac_uploads_per_minute config) (from_secs 60),
      sv_step = 0\<rparr>"

record host =
  h_config :: app_config
  h_clock :: "nat \<Rightarrow> timestamp"
  h_instant :: "nat \<Rightarrow> timestamp"
  h_db :: "nat \<Rightarrow> db \<Rightarrow> db"
  h_files :: "nat \<Rightarrow> stored \<Rightarrow> stored"
  h_uuid :: "nat \<Rightarrow> uuid"
  h_sha256 :: "u8 list \<Rightarrow> u8 list"
  h_hash_parses :: "ustring \<Rightarrow> bool"
  h_verifies :: "ustring \<Rightarrow> ustring \<Rightarrow> bool"
  h_argon2 :: "nat \<Rightarrow> ustring \<Rightarrow> ustring option"
  h_join_fails :: "nat \<Rightarrow> bool"
  h_rfc3339 :: "ustring \<Rightarrow> timestamp option"
  h_range :: "timestamp \<Rightarrow> bool"
  h_usage :: "nat \<Rightarrow> storage_error + u64"
  h_mkdir_fails :: "nat \<Rightarrow> bool"
  h_create_fails :: "nat \<Rightarrow> bool"
  h_short_write :: "nat \<Rightarrow> nat option"
  h_flush_fails :: "nat \<Rightarrow> bool"
  h_remove_fails :: "nat \<Rightarrow> bool"
  h_open_fails :: "nat \<Rightarrow> bool"
  h_codecs :: codecs
  h_io :: file_io

section \<open>Handlers\<close>

text \<open>\<open>act_bind\<close> is \<open>?\<close>; \<open>act_result\<close> hands a result over as a value, for the code that matches on it.\<close>

type_synonym ('e, 'a) action = "server \<Rightarrow> ('e + 'a) \<times> server"
type_synonym 'a handler = "(api_error, 'a) action"

definition act_return :: "'a \<Rightarrow> ('e, 'a) action" where
  "act_return x = (\<lambda>v. (Inr x, v))"

definition act_fail :: "'e \<Rightarrow> ('e, 'a) action" where
  "act_fail e = (\<lambda>v. (Inl e, v))"

definition act_lift :: "'e + 'a \<Rightarrow> ('e, 'a) action" where
  "act_lift r = (\<lambda>v. (r, v))"

definition act_guard :: "bool \<Rightarrow> 'e \<Rightarrow> ('e, unit) action" where
  "act_guard ok e = (if ok then act_return () else act_fail e)"

definition act_bind :: "('e, 'a) action \<Rightarrow> ('a \<Rightarrow> ('e, 'b) action) \<Rightarrow> ('e, 'b) action" where
  "act_bind m f = (\<lambda>v. case m v of (Inl e, v') \<Rightarrow> (Inl e, v') | (Inr x, v') \<Rightarrow> f x v')"

definition act_map_err :: "('e \<Rightarrow> 'f) \<Rightarrow> ('e, 'a) action \<Rightarrow> ('f, 'a) action" where
  "act_map_err f m = (\<lambda>v. case m v of (r, v') \<Rightarrow> (map_err f r, v'))"

definition act_result :: "('e, 'a) action \<Rightarrow> ('f, 'e + 'a) action" where
  "act_result m = (\<lambda>v. case m v of (r, v') \<Rightarrow> (Inr r, v'))"

definition act_value :: "(nat \<Rightarrow> 'a) \<Rightarrow> ('e, 'a) action" where
  "act_value f = (\<lambda>v. (Inr (f (sv_step v)), v\<lparr>sv_step := sv_step v + 1\<rparr>))"

definition disturbed :: "host \<Rightarrow> server \<Rightarrow> server" where
  "disturbed h v = v\<lparr>sv_db := h_db h (sv_step v) (sv_db v), sv_files := h_files h (sv_step v) (sv_files v)\<rparr>"

definition db_call :: "host \<Rightarrow> (nat \<Rightarrow> timestamp \<Rightarrow> 'a tx) \<Rightarrow> (repository_error, 'a) action" where
  "db_call h m v =
     (let v1 = disturbed h v; (r, s) = m (sv_step v) (h_clock h (sv_step v)) (sv_db v1)
      in (r, v1\<lparr>sv_db := s, sv_step := sv_step v + 1\<rparr>))"

definition api_call :: "host \<Rightarrow> (timestamp \<Rightarrow> 'a tx) \<Rightarrow> 'a handler" where
  "api_call h m = act_map_err repository_failed (db_call h (\<lambda>_. m))"

lemma act_simps [simp]:
  "act_return x v = (Inr x, v)" "act_fail e v = (Inl e, v)" "act_lift r v = (r, v)"
  "act_guard ok e v = (if ok then Inr () else Inl e, v)"
  by (simp_all add: act_return_def act_fail_def act_lift_def act_guard_def)

lemma act_bind_Inr_iff:
  "act_bind m f v = (Inr y, v') \<longleftrightarrow> (\<exists>x u. m v = (Inr x, u) \<and> f x u = (Inr y, v'))"
  by (auto simp: act_bind_def split: prod.splits sum.splits)

lemma act_bind_Inl_iff:
  "act_bind m f v = (Inl e, v') \<longleftrightarrow>
     m v = (Inl e, v') \<or> (\<exists>x u. m v = (Inr x, u) \<and> f x u = (Inl e, v'))"
  by (auto simp: act_bind_def split: prod.splits sum.splits)

lemma act_map_err_Inr_iff [simp]: "act_map_err f m v = (Inr x, v') \<longleftrightarrow> m v = (Inr x, v')"
  by (auto simp: act_map_err_def split: prod.splits)

lemma act_map_err_Inl_iff: "act_map_err f m v = (Inl e, v') \<longleftrightarrow> (\<exists>e'. m v = (Inl e', v') \<and> e = f e')"
  by (auto simp: act_map_err_def map_err_Inl_iff split: prod.splits)

lemma api_call_Inr:
  assumes "api_call h m v = (Inr x, v')"
  shows "\<exists>t. m (h_clock h (sv_step v)) (sv_db (disturbed h v)) = (Inr x, t) \<and>
     v' = (disturbed h v)\<lparr>sv_db := t, sv_step := Suc (sv_step v)\<rparr>"
  using assms by (auto simp: api_call_def db_call_def Let_def split: prod.splits)

lemma api_call_Inl:
  assumes "api_call h m v = (Inl e, v')"
  shows "\<exists>error t. m (h_clock h (sv_step v)) (sv_db (disturbed h v)) = (Inl error, t) \<and> e = repository_failed error"
  using assms by (auto simp: api_call_def act_map_err_Inl_iff db_call_def Let_def split: prod.splits)

text \<open>
  Correctness of a handler from the states in which it runs: what holds after a value and what after an error.
\<close>

definition act_triple ::
  "(server \<Rightarrow> bool) \<Rightarrow> ('e, 'a) action \<Rightarrow> ('a \<Rightarrow> server \<Rightarrow> bool) \<Rightarrow> ('e \<Rightarrow> server \<Rightarrow> bool) \<Rightarrow> bool" where
  "act_triple P m Q E \<longleftrightarrow>
     (\<forall>v. P v \<longrightarrow> (case m v of (Inl e, v') \<Rightarrow> E e v' | (Inr x, v') \<Rightarrow> Q x v'))"

lemma act_tripleI:
  assumes "\<And>v x v'. P v \<Longrightarrow> m v = (Inr x, v') \<Longrightarrow> Q x v'" and "\<And>v e v'. P v \<Longrightarrow> m v = (Inl e, v') \<Longrightarrow> E e v'"
  shows "act_triple P m Q E"
  using assms unfolding act_triple_def by (auto split: prod.split sum.split)

lemma act_tripleD:
  assumes "act_triple P m Q E" and "P v"
  shows "m v = (Inr x, v') \<Longrightarrow> Q x v'" and "m v = (Inl e, v') \<Longrightarrow> E e v'"
  using assms unfolding act_triple_def by fastforce+

lemma act_triple_bind:
  assumes "act_triple P m R E" and "\<And>x. act_triple (R x) (f x) Q E"
  shows "act_triple P (act_bind m f) Q E"
  using assms unfolding act_triple_def act_bind_def by (fastforce split: prod.splits sum.splits)

lemma act_triple_return: "(\<And>v. P v \<Longrightarrow> Q x v) \<Longrightarrow> act_triple P (act_return x) Q E"
  unfolding act_triple_def by simp

lemma act_triple_fail: "(\<And>v. P v \<Longrightarrow> E e v) \<Longrightarrow> act_triple P (act_fail e) Q E"
  unfolding act_triple_def by simp

lemma act_triple_lift:
  "(\<And>v x. r = Inr x \<Longrightarrow> P v \<Longrightarrow> Q x v) \<Longrightarrow> (\<And>v e. r = Inl e \<Longrightarrow> P v \<Longrightarrow> E e v) \<Longrightarrow> act_triple P (act_lift r) Q E"
  unfolding act_triple_def by (auto split: sum.split)

lemma act_triple_guard:
  "(\<And>v. ok \<Longrightarrow> P v \<Longrightarrow> Q () v) \<Longrightarrow> (\<And>v. \<not> ok \<Longrightarrow> P v \<Longrightarrow> E e v) \<Longrightarrow> act_triple P (act_guard ok e) Q E"
  unfolding act_triple_def by simp

lemmas act_triple_simple = act_triple_return act_triple_fail act_triple_lift act_triple_guard

lemma act_triple_result:
  assumes "act_triple P m (\<lambda>x. Q (Inr x)) (\<lambda>e. Q (Inl e))"
  shows "act_triple P (act_result m) Q E"
  using assms unfolding act_triple_def act_result_def by (fastforce split: prod.splits sum.splits)

lemma act_triple_map_err:
  assumes "act_triple P m Q (\<lambda>e. E (f e))"
  shows "act_triple P (act_map_err f m) Q E"
  using assms unfolding act_triple_def act_map_err_def by (fastforce split: prod.splits sum.splits)

lemma act_triple_weaken:
  assumes "act_triple P' m Q' E'" and "\<And>v. P v \<Longrightarrow> P' v" and "\<And>x v. Q' x v \<Longrightarrow> Q x v" and "\<And>e v. E' e v \<Longrightarrow> E e v"
  shows "act_triple P m Q E"
  using assms unfolding act_triple_def by (fastforce split: prod.splits sum.splits)

lemma act_triple_pure: "(A \<Longrightarrow> act_triple (\<lambda>_. True) m Q E) \<Longrightarrow> act_triple (\<lambda>_. A) m Q E"
  unfolding act_triple_def by simp

lemma act_triple_True: "act_triple P m (\<lambda>_ _. True) (\<lambda>_ _. True)"
  unfolding act_triple_def by (auto split: prod.split sum.split)

end
