(* ===== verification/Auth.thy ===== *)
theory Auth
  imports Api
begin

text \<open>
  Sign-in and sessions of the API (\<open>apps/api/src/auth.rs\<close>): the owner's credentials at start-up, login, the current
  session, logout, and the middleware that admits a request. Cookies that come with a request are a map from
  their names to their values, as the cookie jar presents them; cookies that go with a response are a list. A header value that is
  not visible ASCII has no text.
\<close>

section \<open>Requests and responses\<close>

definition session_cookie_name :: string where
  "session_cookie_name = ''taskharbor_session''"

definition csrf_cookie_name :: string where
  "csrf_cookie_name = ''taskharbor_csrf''"

definition csrf_header :: string where
  "csrf_header = ''x-csrf-token''"

datatype http_method = Get | Head | Options | Post | Put | Delete | OtherMethod string

record request =
  rq_method :: http_method
  rq_cookies :: "string \<rightharpoonup> ustring"
  rq_headers :: "string \<rightharpoonup> ustring option"

record cookie =
  ck_name :: string
  ck_value :: ustring
  ck_path :: string
  ck_http_only :: bool
  ck_same_site_strict :: bool
  ck_secure :: bool
  ck_max_age :: int

record auth_session =
  as_id :: uuid
  as_user_id :: user_id
  as_username :: ustring
  as_csrf_token_hash :: "u8 list"
  as_expires_at :: timestamp

definition auth_session_from :: "session_record \<Rightarrow> auth_session" where
  "auth_session_from r =
     \<lparr>as_id = sn_id r, as_user_id = sn_user_id r, as_username = sn_username r,
      as_csrf_token_hash = sn_csrf_token_hash r, as_expires_at = sn_expires_at r\<rparr>"

datatype owner_setup_error =
  InvalidUsername | InvalidPassword | PasswordHash | OwnerRepository repository_error | OwnerTask

record login_request =
  lr_username :: ustring
  lr_password :: ustring

record session_response =
  sp_user_id :: int
  sp_username :: ustring
  sp_expires_at :: timestamp
  sp_csrf_token :: ustring

definition session_response_new :: "session_record \<Rightarrow> ustring \<Rightarrow> session_response" where
  "session_response_new session csrf_token =
     \<lparr>sp_user_id = user_id_get (sn_user_id session), sp_username = sn_username session,
      sp_expires_at = sn_expires_at session, sp_csrf_token = csrf_token\<rparr>"

definition session_response_from_auth :: "auth_session \<Rightarrow> ustring \<Rightarrow> session_response" where
  "session_response_from_auth session csrf_token =
     \<lparr>sp_user_id = user_id_get (as_user_id session), sp_username = as_username session,
      sp_expires_at = as_expires_at session, sp_csrf_token = csrf_token\<rparr>"

section \<open>Credentials and tokens\<close>

definition normalize_username :: "ustring \<Rightarrow> ustring option" where
  "normalize_username value =
     (let value = to_ascii_lowercase (trim value)
      in if 3 \<le> byte_len value \<and> byte_len value \<le> 32 \<and>
            list_all (\<lambda>(index, c). is_ascii_lowercase c \<or> is_ascii_digit c \<or> index > 0 \<and> (c = 95 \<or> c = 45))
              (enumerate 0 value)
         then Some value else None)"

definition validate_password :: "ustring \<Rightarrow> bool" where
  "validate_password password \<longleftrightarrow> 12 \<le> byte_len password \<and> byte_len password \<le> 128"

text \<open>Verification runs as a blocking task; a stored hash that does not parse verifies nothing.\<close>

definition verify_password :: "host \<Rightarrow> ustring \<Rightarrow> ustring \<Rightarrow> (owner_setup_error, bool) action" where
  "verify_password h password password_hash =
     act_bind (act_value (h_join_fails h)) (\<lambda>failed.
     if failed then act_fail OwnerTask
     else act_return (h_hash_parses h password_hash \<and> h_verifies h password password_hash))"

definition hex_digit :: "nat \<Rightarrow> nat" where
  "hex_digit d = (if d < 10 then 48 + d else 87 + d)"

definition simple_uuid :: "uuid \<Rightarrow> ustring" where
  "simple_uuid u = List.map (\<lambda>i. hex_digit (unat u div 16 ^ (31 - i) mod 16)) [0..<32]"

lemma simple_uuid_chars: "c \<in> set (simple_uuid u) \<Longrightarrow> is_ascii_digit c \<or> is_ascii_lowercase c"
  by (auto simp: simple_uuid_def hex_digit_def is_ascii_digit_def is_ascii_lowercase_def)

lemma simple_uuid_length [simp]: "length (simple_uuid u) = 32"
  by (simp add: simple_uuid_def)

definition hyphenated :: "uuid \<Rightarrow> ustring" where
  "hyphenated u =
     (let s = simple_uuid u
      in take 8 s @ [45] @ take 4 (drop 8 s) @ [45] @ take 4 (drop 12 s) @ [45] @ take 4 (drop 16 s) @ [45] @ drop 20 s)"

definition random_token :: "host \<Rightarrow> ('e, ustring) action" where
  "random_token h =
     act_bind (act_value (h_uuid h)) (\<lambda>first.
     act_bind (act_value (h_uuid h)) (\<lambda>second.
     act_return (simple_uuid first @ simple_uuid second)))"

definition token_hash :: "host \<Rightarrow> ustring \<Rightarrow> u8 list" where
  "token_hash h value = h_sha256 h (as_bytes value)"

unbundle bit_operations_syntax

definition constant_time_eq :: "u8 list \<Rightarrow> u8 list \<Rightarrow> bool" where
  "constant_time_eq left right =
     (length left = length right \<and>
      foldl (\<lambda>difference (l, r). difference OR (l XOR r)) 0 (zip left right) = 0)"

definition requires_csrf :: "http_method \<Rightarrow> bool" where
  "requires_csrf m = (m \<notin> {Get, Head, Options})"

section \<open>Cookies\<close>

definition cookie_duration :: "duration \<Rightarrow> int" where
  "cookie_duration value = (case to_signed i64_range (as_secs value) of None \<Rightarrow> 2 ^ 63 - 1 | Some s \<Rightarrow> s)"

definition session_cookie :: "ustring \<Rightarrow> duration \<Rightarrow> bool \<Rightarrow> cookie" where
  "session_cookie value ttl secure =
     \<lparr>ck_name = session_cookie_name, ck_value = value, ck_path = ''/'', ck_http_only = True,
      ck_same_site_strict = True, ck_secure = secure, ck_max_age = cookie_duration ttl\<rparr>"

definition csrf_cookie :: "ustring \<Rightarrow> duration \<Rightarrow> bool \<Rightarrow> cookie" where
  "csrf_cookie value ttl secure =
     \<lparr>ck_name = csrf_cookie_name, ck_value = value, ck_path = ''/'', ck_http_only = False,
      ck_same_site_strict = True, ck_secure = secure, ck_max_age = cookie_duration ttl\<rparr>"

definition removal_cookie :: "string \<Rightarrow> bool \<Rightarrow> bool \<Rightarrow> cookie" where
  "removal_cookie name http_only secure =
     \<lparr>ck_name = name, ck_value = [], ck_path = ''/'', ck_http_only = http_only,
      ck_same_site_strict = True, ck_secure = secure, ck_max_age = 0\<rparr>"

section \<open>The owner at start-up\<close>

definition hash_password :: "host \<Rightarrow> ustring \<Rightarrow> (owner_setup_error, ustring) action" where
  "hash_password h password =
     act_bind (act_value (h_join_fails h)) (\<lambda>failed.
     if failed then act_fail OwnerTask
     else act_bind (act_value (\<lambda>n. h_argon2 h n password)) (\<lambda>hashed.
          act_lift (ok_or PasswordHash hashed)))"

definition initialize_owner :: "host \<Rightarrow> ustring \<Rightarrow> ustring \<Rightarrow> (owner_setup_error, user_credentials) action" where
  "initialize_owner h username password =
     act_bind (act_lift (ok_or InvalidUsername (normalize_username username))) (\<lambda>username.
     act_bind (act_guard (validate_password password) InvalidPassword) (\<lambda>_.
     act_bind (act_map_err OwnerRepository (db_call h (\<lambda>_ _. owner_credentials))) (\<lambda>current.
     act_bind (if uc_username current = username
               then verify_password h password (uc_password_hash current) else act_return False) (\<lambda>unchanged.
     if unchanged then act_return current
     else act_bind (hash_password h password) (\<lambda>password_hash.
          act_map_err OwnerRepository (db_call h (\<lambda>_ now. configure_owner now username password_hash)))))))"

section \<open>Login, session and logout\<close>

definition check_login :: "host \<Rightarrow> ustring \<Rightarrow> (duration, unit) action" where
  "check_login h key v =
     (case check (h_instant h (sv_step v)) key (sv_login_limiter v) of
        (r, l) \<Rightarrow> (r, v\<lparr>sv_login_limiter := l, sv_step := sv_step v + 1\<rparr>))"

definition login :: "host \<Rightarrow> login_request \<Rightarrow> (cookie list \<times> nat \<times> session_response) handler" where
  "login h r =
     (let normalized_username = normalize_username (lr_username r) in
     act_bind (act_map_err rate_limited (check_login h (lit ''owner-login''))) (\<lambda>_.
     act_bind (act_guard (validate_password (lr_password r)) invalid_credentials) (\<lambda>_.
     act_bind (case normalized_username of
                 Some username \<Rightarrow> api_call h (\<lambda>_. user_credentials_by_username username)
               | None \<Rightarrow> act_return None) (\<lambda>requested_user.
     act_bind (case requested_user of
                 Some credentials \<Rightarrow> act_return credentials
               | None \<Rightarrow> api_call h (\<lambda>_. owner_credentials)) (\<lambda>credentials.
     act_bind (act_map_err (\<lambda>_. internal_error)
                 (verify_password h (lr_password r) (uc_password_hash credentials))) (\<lambda>password_valid.
     act_bind (act_guard (\<not> (requested_user = None \<or> \<not> password_valid)) invalid_credentials) (\<lambda>_.
     act_bind (random_token h) (\<lambda>session_token.
     act_bind (random_token h) (\<lambda>csrf_token.
     act_bind (act_value (h_uuid h)) (\<lambda>session_id.
     act_bind (api_call h (\<lambda>now. create_session now session_id (uc_id credentials)
                 (token_hash h session_token) (token_hash h csrf_token) (ac_session_ttl (h_config h)))) (\<lambda>session.
     act_return
       ([session_cookie session_token (ac_session_ttl (h_config h)) (ac_secure_cookies (h_config h)),
         csrf_cookie csrf_token (ac_session_ttl (h_config h)) (ac_secure_cookies (h_config h))],
        201, session_response_new session csrf_token))))))))))))"

definition current_session :: "host \<Rightarrow> auth_session \<Rightarrow> request \<Rightarrow> (cookie list \<times> session_response) handler" where
  "current_session h session q =
     act_bind (case rq_cookies q csrf_cookie_name of
                 Some token \<Rightarrow>
                   if constant_time_eq (token_hash h token) (as_csrf_token_hash session) then act_return (Some token)
                   else act_return None
               | None \<Rightarrow> act_return None) (\<lambda>current.
     act_bind (case current of
                 Some token \<Rightarrow> act_return token
               | None \<Rightarrow>
                   act_bind (random_token h) (\<lambda>token.
                   act_bind (api_call h (\<lambda>now. rotate_session_csrf now (as_id session) (token_hash h token))) (\<lambda>_.
                   act_return token))) (\<lambda>csrf_token.
     act_return
       ([csrf_cookie csrf_token (ac_session_ttl (h_config h)) (ac_secure_cookies (h_config h))],
        session_response_from_auth session csrf_token)))"

definition logout :: "host \<Rightarrow> auth_session \<Rightarrow> (cookie list \<times> nat) handler" where
  "logout h session =
     act_bind (api_call h (\<lambda>now. revoke_session now (as_id session))) (\<lambda>_.
     act_return
       ([removal_cookie session_cookie_name True (ac_secure_cookies (h_config h)),
         removal_cookie csrf_cookie_name False (ac_secure_cookies (h_config h))], 204))"

section \<open>Admission\<close>

definition header_text :: "request \<Rightarrow> string \<Rightarrow> ustring option" where
  "header_text q name = Option.bind (rq_headers q name) id"

definition require_auth :: "host \<Rightarrow> request \<Rightarrow> (auth_session \<Rightarrow> 'a handler) \<Rightarrow> 'a handler" where
  "require_auth h q next_handler =
     act_bind (act_lift (ok_or unauthorized (rq_cookies q session_cookie_name))) (\<lambda>raw_token.
     act_bind (api_call h (\<lambda>now. active_session now (token_hash h raw_token))) (\<lambda>found.
     act_bind (act_lift (ok_or unauthorized found)) (\<lambda>session.
     act_bind (if requires_csrf (rq_method q)
               then act_bind (act_lift (ok_or invalid_csrf (header_text q csrf_header))) (\<lambda>supplied.
                    act_guard (constant_time_eq (token_hash h supplied) (sn_csrf_token_hash session)) invalid_csrf)
               else act_return ()) (\<lambda>_.
     next_handler (auth_session_from session)))))"

end
