(* ===== verification/Upload.thy ===== *)
theory Upload
  imports Auth Schedules
begin

text \<open>
  The multipart uploads of the API (\<open>apps/api/src/upload.rs\<close> and the upload batches of
  \<open>crates/adapters/src/storage.rs\<close>): the fields of a request are read one after the other, each image is
  written to a file of the batch within the limits on a file, a request and the storage, and inspected; the job
  or schedule is created from them. A multipart body is the list of its fields, each a list of chunks,
  that may break off; the chunks and fields come from the HTTP library. A file whose directory entry is gone takes further writes without
  leaving a trace. The lock that lets one upload run at a time has no effect on a single upload.
\<close>

definition max_text_field_bytes :: nat where
  "max_text_field_bytes = 512"

record part =
  pt_name :: "ustring option"
  pt_file_name :: "ustring option"
  pt_chunks :: "u8 list list"
  pt_broken :: bool

record multipart =
  mp_parts :: "part list"
  mp_broken :: bool

datatype upload_target = JobTarget | ScheduleTarget

section \<open>Files of a batch\<close>

definition file_step :: "host \<Rightarrow> (nat \<Rightarrow> stored \<Rightarrow> (storage_error + 'a) \<times> stored) \<Rightarrow> (storage_error, 'a) action" where
  "file_step h f v =
     (let v1 = disturbed h v; (r, fs) = f (sv_step v) (sv_files v1)
      in (r, v1\<lparr>sv_files := fs, sv_step := sv_step v + 1\<rparr>))"

definition begin_upload :: "host \<Rightarrow> (storage_error, ustring) action" where
  "begin_upload h =
     act_bind (act_value (h_uuid h)) (\<lambda>u.
     let prefix = lit ''inputs/'' @ hyphenated u in
     act_bind (act_lift (resolve_key prefix)) (\<lambda>_.
     act_bind (act_value (h_mkdir_fails h)) (\<lambda>failed.
     act_bind (act_guard (\<not> failed) Io) (\<lambda>_.
     act_return prefix))))"

definition create_file :: "host \<Rightarrow> ustring \<Rightarrow> (storage_error, ustring \<times> ustring list) action" where
  "create_file h prefix =
     act_bind (act_value (h_uuid h)) (\<lambda>u.
     let key = prefix @ [47] @ hyphenated u in
     act_bind (act_lift (resolve_key key)) (\<lambda>path.
     act_bind (file_step h (\<lambda>n fs. if h_create_fails h n then (Inl Io, fs) else (Inr (), fs(path \<mapsto> [])))) (\<lambda>_.
     act_return (key, path))))"

definition append_to :: "ustring list \<Rightarrow> u8 list \<Rightarrow> stored \<Rightarrow> stored" where
  "append_to path chunk fs = (case fs path of None \<Rightarrow> fs | Some content \<Rightarrow> fs(path \<mapsto> content @ chunk))"

definition write_all :: "host \<Rightarrow> ustring list \<Rightarrow> u8 list \<Rightarrow> (storage_error, unit) action" where
  "write_all h path chunk =
     file_step h (\<lambda>n fs. case h_short_write h n of
        None \<Rightarrow> (Inr (), append_to path chunk fs)
      | Some k \<Rightarrow> (Inl Io, append_to path (take k chunk) fs))"

definition flush :: "host \<Rightarrow> (storage_error, unit) action" where
  "flush h = file_step h (\<lambda>n fs. (if h_flush_fails h n then Inl Io else Inr (), fs))"

definition batch_cleanup :: "host \<Rightarrow> ustring \<Rightarrow> (storage_error, unit) action" where
  "batch_cleanup h prefix = file_step h (\<lambda>n fs. if h_remove_fails h n then (Inl Io, fs) else remove_tree prefix fs)"

text \<open>\<open>let _ = batch.cleanup()\<close> before an error is returned.\<close>

definition cleaned_up :: "host \<Rightarrow> ustring \<Rightarrow> ('e, 'a) action \<Rightarrow> ('e, 'a) action" where
  "cleaned_up h prefix m =
     act_bind (act_result (batch_cleanup h prefix :: (storage_error, unit) action)) (\<lambda>_. m)"

section \<open>Text fields\<close>

definition invalid_field :: "string \<Rightarrow> string \<Rightarrow> api_error" where
  "invalid_field message field_name = upload_validation ''invalid_field'' (lit message) field_name"

fun read_text_chunks :: "string \<Rightarrow> u8 list \<Rightarrow> u8 list list \<Rightarrow> api_error + u8 list" where
  "read_text_chunks field_name bytes [] = Inr bytes"
| "read_text_chunks field_name bytes (chunk # chunks) =
     (if length bytes + length chunk > max_text_field_bytes
      then Inl (invalid_field ''multipart text field is too long'' field_name)
      else read_text_chunks field_name (bytes @ chunk) chunks)"

definition read_small_text :: "part \<Rightarrow> string \<Rightarrow> api_error + ustring" where
  "read_small_text p field_name =
     try_bind (read_text_chunks field_name [] (pt_chunks p)) (\<lambda>bytes.
     if pt_broken p then Inl (invalid_multipart ''multipart text field could not be read'')
     else ok_or (invalid_field ''multipart text field must be UTF-8'' field_name) (from_utf8 (List.map unat bytes)))"

definition set_once :: "'a option \<Rightarrow> 'a \<Rightarrow> string \<Rightarrow> api_error + 'a option" where
  "set_once previous value field =
     (if previous \<noteq> None
      then Inl (upload_validation ''duplicate_field''
             (lit (''multipart field '' @ [char_of (39 :: nat)] @ field @ [char_of (39 :: nat)] @ '' can only appear once'')) field)
      else Inr (Some value))"

definition parse_timestamp :: "host \<Rightarrow> ustring \<Rightarrow> string \<Rightarrow> api_error + timestamp" where
  "parse_timestamp h value field =
     ok_or (upload_validation ''invalid_timestamp'' (lit ''timestamp must be an RFC 3339 value with a UTC offset'') field)
       (h_rfc3339 h (trim value))"

definition invalid_interval :: api_error where
  "invalid_interval = upload_validation ''invalid_interval''
     (lit (''interval must be between '' @ show_nat (unat min_schedule_interval_seconds) @ '' and '' @
           show_nat (unat max_schedule_interval_seconds) @ '' seconds'')) ''interval_seconds''"

definition invalid_max_width :: api_error where
  "invalid_max_width = upload_validation ''invalid_max_width''
     (lit (''max width must be between 1 and '' @ show_nat (unat max_output_width) @ '' pixels'')) ''max_width''"

definition invalid_jpeg_quality :: api_error where
  "invalid_jpeg_quality = upload_validation ''invalid_jpeg_quality''
     (lit ''JPEG quality must be between 1 and 100'') ''jpeg_quality''"

definition invalid_priority :: api_error where
  "invalid_priority = upload_validation ''invalid_priority''
     (lit ''priority must be high, normal, or low'') ''priority''"

definition is_control :: "nat \<Rightarrow> bool" where
  "is_control c \<longleftrightarrow> c < 32 \<or> 127 \<le> c \<and> c < 160"

definition safe_display_name :: "ustring \<Rightarrow> nat \<Rightarrow> ustring" where
  "safe_display_name raw_name item_index =
     (let basename = trim (rev (takeWhile (\<lambda>c. c \<noteq> 47 \<and> c \<noteq> 92) (rev raw_name)));
          cleaned = take 255 (filter (\<lambda>c. \<not> is_control c) basename)
      in if cleaned = [] then lit (''image-'' @ show_nat (item_index + 1)) else cleaned)"

section \<open>Images\<close>

definition map_image_error :: "image_error \<Rightarrow> api_error" where
  "map_image_error error =
     (if is_invalid_input error then upload_validation ''invalid_image'' (lit (safe_message error)) ''images''
      else image_inspection error)"

definition too_large :: api_error where
  "too_large = upload_too_large ''file_too_large'' ''uploaded image exceeds the supported size'' ''images''"

fun write_chunks ::
  "host \<Rightarrow> ustring list \<Rightarrow> u64 \<Rightarrow> u64 \<Rightarrow> u8 list list \<Rightarrow> u64 \<Rightarrow> u64 \<Rightarrow> u8 list \<Rightarrow> (u64 \<times> u64 \<times> u8 list) handler" where
  "write_chunks h path usage budget [] file_bytes total_bytes hashed = act_return (file_bytes, total_bytes, hashed)"
| "write_chunks h path usage budget (chunk # chunks) file_bytes total_bytes hashed =
     act_bind (act_lift (ok_or too_large (to_word (int (length chunk))))) (\<lambda>chunk_bytes.
     act_bind (act_lift (ok_or too_large (checked_add_u64 file_bytes chunk_bytes))) (\<lambda>file_bytes.
     act_bind (act_guard (\<not> file_bytes > max_file_bytes)
       (upload_too_large ''file_too_large'' ''each image must be 5 MiB or smaller'' ''images'')) (\<lambda>_.
     act_bind (act_lift (ok_or
         (upload_too_large ''upload_too_large'' ''combined image size exceeds the supported limit'' ''images'')
         (checked_add_u64 total_bytes chunk_bytes))) (\<lambda>total_bytes.
     act_bind (act_guard (case checked_add_u64 usage total_bytes of None \<Rightarrow> False | Some projected \<Rightarrow> \<not> projected > budget)
       (resource_limit ''storage_budget_exceeded'' ''the storage budget does not have enough room for this upload'')) (\<lambda>_.
     act_bind (act_guard (\<not> total_bytes > max_total_file_bytes)
       (upload_too_large ''upload_too_large'' ''combined image size must be 25 MiB or smaller'' ''images'')) (\<lambda>_.
     act_bind (act_map_err storage_failed (write_all h path chunk)) (\<lambda>_.
     write_chunks h path usage budget chunks file_bytes total_bytes (hashed @ chunk))))))))"

definition write_image_field ::
  "host \<Rightarrow> part \<Rightarrow> ustring list \<Rightarrow> u64 \<Rightarrow> u64 \<Rightarrow> u64 \<Rightarrow> (u64 \<times> u64 \<times> u8 list) handler" where
  "write_image_field h p path total_bytes usage budget =
     act_bind (write_chunks h path usage budget (pt_chunks p) 0 total_bytes []) (\<lambda>(file_bytes, total_bytes, hashed).
     act_bind (act_guard (\<not> pt_broken p) (invalid_multipart ''uploaded image could not be read'')) (\<lambda>_.
     act_bind (act_guard (file_bytes \<noteq> 0)
       (upload_validation ''empty_file'' (lit ''uploaded images cannot be empty'') ''images'')) (\<lambda>_.
     act_return (file_bytes, total_bytes, h_sha256 h hashed))))"

definition inspect_stored :: "host \<Rightarrow> ustring \<Rightarrow> image_metadata handler" where
  "inspect_stored h storage_key v =
     (let v1 = disturbed h v
      in (map_err map_image_error (inspect (h_codecs h) (h_io h) (sv_files v1) storage_key), v1\<lparr>sv_step := sv_step v + 1\<rparr>))"

section \<open>Staging a request\<close>

record staged_slots =
  sl_name :: "ustring option"
  sl_max_width :: "u32 option"
  sl_jpeg_quality :: "u8 option"
  sl_available_at :: "timestamp option"
  sl_priority :: "job_priority option"
  sl_interval_seconds :: "u32 option"
  sl_anchor_at :: "timestamp option"
  sl_inputs :: "new_input_artifact list"
  sl_total_bytes :: u64

definition empty_slots :: staged_slots where
  "empty_slots = \<lparr>sl_name = None, sl_max_width = None, sl_jpeg_quality = None, sl_available_at = None,
     sl_priority = None, sl_interval_seconds = None, sl_anchor_at = None, sl_inputs = [], sl_total_bytes = 0\<rparr>"

record staged_image_fields =
  sf_name :: job_name
  sf_max_width :: u32
  sf_jpeg_quality :: u8
  sf_available_at :: "timestamp option"
  sf_priority :: job_priority
  sf_interval_seconds :: "u32 option"
  sf_anchor_at :: "timestamp option"
  sf_inputs :: "new_input_artifact list"

definition stage_image :: "host \<Rightarrow> ustring \<Rightarrow> u64 \<Rightarrow> part \<Rightarrow> staged_slots \<Rightarrow> staged_slots handler" where
  "stage_image h prefix usage p slots =
     act_bind (act_guard (\<not> length (sl_inputs slots) \<ge> max_files_per_job)
       (upload_validation ''too_many_files''
          (lit (''a job can contain at most '' @ show_nat max_files_per_job @ '' images'')) ''images'')) (\<lambda>_.
     act_bind (act_lift (ok_or
         (upload_validation ''missing_filename'' (lit ''each image field must include a filename'') ''images'')
         (pt_file_name p))) (\<lambda>raw_name.
     let display_name = safe_display_name raw_name (length (sl_inputs slots)) in
     act_bind (act_map_err storage_failed (create_file h prefix)) (\<lambda>(storage_key, path).
     act_bind (write_image_field h p path (sl_total_bytes slots) usage (ac_storage_budget_bytes (h_config h)))
       (\<lambda>(byte_size, total_bytes, checksum_sha256).
     act_bind (act_map_err storage_failed (flush h)) (\<lambda>_.
     act_bind (inspect_stored h storage_key) (\<lambda>metadata.
     act_return (slots\<lparr>sl_inputs := sl_inputs slots @
       [\<lparr>ni_storage_key = storage_key, ni_display_name = display_name, ni_media_type = im_media_type metadata,
         ni_byte_size = byte_size, ni_width = im_width metadata, ni_height = im_height metadata,
         ni_checksum_sha256 = checksum_sha256\<rparr>], sl_total_bytes := total_bytes\<rparr>)))))))"

definition stage_text :: "host \<Rightarrow> upload_target \<Rightarrow> ustring \<Rightarrow> part \<Rightarrow> staged_slots \<Rightarrow> api_error + staged_slots" where
  "stage_text h target field_name p slots =
     (if field_name = lit ''name'' then
        try_bind (read_small_text p ''name'') (\<lambda>value.
        try_bind (set_once (sl_name slots) value ''name'') (\<lambda>x. Inr (slots\<lparr>sl_name := x\<rparr>)))
      else if field_name = lit ''max_width'' then
        try_bind (read_small_text p ''max_width'') (\<lambda>value.
        try_bind (ok_or invalid_max_width (map_option of_nat (parse_unsigned 32 value))) (\<lambda>value.
        try_bind (if value = 0 \<or> value > max_output_width then Inl invalid_max_width else Inr ()) (\<lambda>_.
        try_bind (set_once (sl_max_width slots) value ''max_width'') (\<lambda>x. Inr (slots\<lparr>sl_max_width := x\<rparr>)))))
      else if field_name = lit ''jpeg_quality'' then
        try_bind (read_small_text p ''jpeg_quality'') (\<lambda>value.
        try_bind (ok_or invalid_jpeg_quality (map_option of_nat (parse_unsigned 8 value))) (\<lambda>value.
        try_bind (if \<not> (1 \<le> value \<and> value \<le> 100) then Inl invalid_jpeg_quality else Inr ()) (\<lambda>_.
        try_bind (set_once (sl_jpeg_quality slots) value ''jpeg_quality'') (\<lambda>x. Inr (slots\<lparr>sl_jpeg_quality := x\<rparr>)))))
      else if field_name = lit ''priority'' then
        try_bind (read_small_text p ''priority'') (\<lambda>value.
        try_bind (map_err (\<lambda>_. invalid_priority) (job_priority_from_str value)) (\<lambda>value.
        try_bind (set_once (sl_priority slots) value ''priority'') (\<lambda>x. Inr (slots\<lparr>sl_priority := x\<rparr>))))
      else if field_name = lit ''available_at'' \<and> target = JobTarget then
        try_bind (read_small_text p ''available_at'') (\<lambda>value.
        try_bind (parse_timestamp h value ''available_at'') (\<lambda>value.
        try_bind (set_once (sl_available_at slots) value ''available_at'') (\<lambda>x. Inr (slots\<lparr>sl_available_at := x\<rparr>))))
      else if field_name = lit ''interval_seconds'' \<and> target = ScheduleTarget then
        try_bind (read_small_text p ''interval_seconds'') (\<lambda>value.
        try_bind (ok_or invalid_interval (map_option of_nat (parse_unsigned 32 value))) (\<lambda>value.
        try_bind (if \<not> (min_schedule_interval_seconds \<le> value \<and> value \<le> max_schedule_interval_seconds)
                  then Inl invalid_interval else Inr ()) (\<lambda>_.
        try_bind (set_once (sl_interval_seconds slots) value ''interval_seconds'') (\<lambda>x.
        Inr (slots\<lparr>sl_interval_seconds := x\<rparr>)))))
      else if field_name = lit ''anchor_at'' \<and> target = ScheduleTarget then
        try_bind (read_small_text p ''anchor_at'') (\<lambda>value.
        try_bind (parse_timestamp h value ''anchor_at'') (\<lambda>value.
        try_bind (set_once (sl_anchor_at slots) value ''anchor_at'') (\<lambda>x. Inr (slots\<lparr>sl_anchor_at := x\<rparr>))))
      else Inl (upload_validation ''unexpected_field''
             (lit ''multipart field '' @ [39] @ field_name @ [39] @ lit '' is not supported'') ''images''))"

definition stage_field :: "host \<Rightarrow> ustring \<Rightarrow> upload_target \<Rightarrow> u64 \<Rightarrow> part \<Rightarrow> staged_slots \<Rightarrow> staged_slots handler" where
  "stage_field h prefix target usage p slots =
     (let field_name = (case pt_name p of None \<Rightarrow> [] | Some name \<Rightarrow> name)
      in if field_name = lit ''images'' then stage_image h prefix usage p slots
         else act_lift (stage_text h target field_name p slots))"

fun stage_parts :: "host \<Rightarrow> ustring \<Rightarrow> upload_target \<Rightarrow> u64 \<Rightarrow> part list \<Rightarrow> staged_slots \<Rightarrow> staged_slots handler" where
  "stage_parts h prefix target usage [] slots = act_return slots"
| "stage_parts h prefix target usage (p # ps) slots =
     act_bind (stage_field h prefix target usage p slots) (\<lambda>slots. stage_parts h prefix target usage ps slots)"

definition or_default :: "'a \<Rightarrow> 'a option \<Rightarrow> 'a" where
  "or_default d m = (case m of None \<Rightarrow> d | Some x \<Rightarrow> x)"

definition staged_result :: "staged_slots \<Rightarrow> api_error + staged_image_fields" where
  "staged_result slots =
     try_bind (ok_or (upload_validation ''missing_name'' (lit ''job name is required'') ''name'') (sl_name slots)) (\<lambda>name.
     try_bind (map_err invalid_job_name (job_name_new name)) (\<lambda>name.
     if sl_inputs slots = []
     then Inl (upload_validation ''missing_images'' (lit ''select at least one JPEG or PNG image'') ''images'')
     else Inr \<lparr>sf_name = name, sf_max_width = or_default default_output_width (sl_max_width slots),
            sf_jpeg_quality = or_default default_jpeg_quality (sl_jpeg_quality slots),
            sf_available_at = sl_available_at slots, sf_priority = or_default job_priority_default (sl_priority slots),
            sf_interval_seconds = sl_interval_seconds slots, sf_anchor_at = sl_anchor_at slots,
            sf_inputs = sl_inputs slots\<rparr>))"

definition stage_fields ::
  "host \<Rightarrow> ustring \<Rightarrow> multipart \<Rightarrow> upload_target \<Rightarrow> u64 \<Rightarrow> staged_image_fields handler" where
  "stage_fields h prefix body target usage =
     act_bind (stage_parts h prefix target usage (mp_parts body) empty_slots) (\<lambda>slots.
     act_bind (act_guard (\<not> mp_broken body) (invalid_multipart ''multipart body could not be read'')) (\<lambda>_.
     act_lift (staged_result slots)))"

section \<open>Fingerprints\<close>

definition be_bytes :: "nat \<Rightarrow> int \<Rightarrow> u8 list" where
  "be_bytes n v = List.map (\<lambda>i. word_of_int (v div 256 ^ (n - 1 - i))) [0..<n]"

definition fingerprint_part :: "u8 list \<Rightarrow> u8 list" where
  "fingerprint_part value =
     be_bytes 8 (uint ((case to_word (int (length value)) of None \<Rightarrow> - 1 | Some n \<Rightarrow> n) :: u64)) @ value"

definition fingerprint_input :: "new_input_artifact \<Rightarrow> u8 list" where
  "fingerprint_input i =
     fingerprint_part (as_bytes (ni_display_name i)) @ fingerprint_part (as_bytes (ni_media_type i)) @
     fingerprint_part (be_bytes 8 (uint (ni_byte_size i))) @ fingerprint_part (be_bytes 4 (uint (ni_width i))) @
     fingerprint_part (be_bytes 4 (uint (ni_height i))) @ fingerprint_part (ni_checksum_sha256 i)"

definition fingerprint_message :: "staged_image_fields \<Rightarrow> u8 list" where
  "fingerprint_message r =
     fingerprint_part (as_bytes (job_name_as_str (sf_name r))) @
     fingerprint_part (be_bytes 4 (uint (sf_max_width r))) @
     fingerprint_part [sf_jpeg_quality r] @
     fingerprint_part (as_bytes (job_priority_as_str (sf_priority r))) @
     (case sf_available_at r of
        Some available_at \<Rightarrow> fingerprint_part (be_bytes 16 available_at)
      | None \<Rightarrow> fingerprint_part []) @
     concat (List.map fingerprint_input (sf_inputs r))"

definition request_fingerprint :: "host \<Rightarrow> staged_image_fields \<Rightarrow> u8 list" where
  "request_fingerprint h r = h_sha256 h (fingerprint_message r)"

section \<open>Creating jobs and schedules\<close>

definition storage_usage :: "host \<Rightarrow> u64 handler" where
  "storage_usage h =
     act_bind (act_value (h_usage h)) (\<lambda>measured.
     act_bind (act_lift (map_err storage_failed measured)) (\<lambda>usage.
     act_bind (act_guard (\<not> usage \<ge> ac_storage_budget_bytes (h_config h))
       (resource_limit ''storage_budget_exceeded''
          ''the storage budget is full; wait for retention cleanup before uploading'')) (\<lambda>_.
     act_return usage)))"

text \<open>The common beginning of both uploads: the staged fields and the prefix of the batch, already cleaned up on an error.\<close>

definition stage_request ::
  "host \<Rightarrow> multipart option \<Rightarrow> upload_target \<Rightarrow> (ustring \<times> staged_image_fields) handler" where
  "stage_request h body target =
     act_bind (storage_usage h) (\<lambda>usage.
     act_bind (act_lift (ok_or (invalid_multipart ''request must be valid multipart form data'') body)) (\<lambda>body.
     act_bind (act_map_err storage_failed (begin_upload h)) (\<lambda>prefix.
     act_bind (act_result (stage_fields h prefix body target usage)) (\<lambda>staged.
     case staged of
       Inl error \<Rightarrow> cleaned_up h prefix (act_fail error)
     | Inr r \<Rightarrow> act_return (prefix, r)))))"

text \<open>The job that an earlier request with the same key created.\<close>

definition idempotent_job ::
  "host \<Rightarrow> user_id \<Rightarrow> ustring \<Rightarrow> idempotency_request option \<Rightarrow> job_record option handler" where
  "idempotent_job h owner prefix idempotency =
     (case idempotency of
        None \<Rightarrow> act_return None
      | Some i \<Rightarrow>
          act_bind (act_result (db_call h (\<lambda>_ _. find_idempotent_image_job owner i))) (\<lambda>found.
          case found of
            Inr (Some job) \<Rightarrow> cleaned_up h prefix (act_return (Some job))
          | Inr None \<Rightarrow> act_return None
          | Inl error \<Rightarrow> cleaned_up h prefix (act_fail (repository_failed error))))"

definition create_within_limit ::
  "host \<Rightarrow> user_id \<Rightarrow> ustring \<Rightarrow> staged_image_fields \<Rightarrow> idempotency_request option \<Rightarrow> job_record handler" where
  "create_within_limit h owner prefix r idempotency =
     act_bind (act_result (db_call h (\<lambda>_ _. active_job_count_for_owner owner))) (\<lambda>counted.
     case counted of
       Inl error \<Rightarrow> cleaned_up h prefix (act_fail (repository_failed error))
     | Inr active_jobs \<Rightarrow>
         if active_jobs \<ge> ucast (ac_max_active_jobs (h_config h))
         then cleaned_up h prefix (act_fail (resource_limit ''active_job_limit''
                ''finish or cancel an active job before creating another''))
         else api_call h (\<lambda>now. create_image_job now
                \<lparr>nj_owner_user_id = owner, nj_name = sf_name r, nj_max_width = sf_max_width r,
                 nj_jpeg_quality = sf_jpeg_quality r, nj_available_at = sf_available_at r,
                 nj_priority = sf_priority r, nj_inputs = sf_inputs r, nj_idempotency = idempotency\<rparr>))"

definition api_create_image_job ::
  "host \<Rightarrow> user_id \<Rightarrow> ustring option \<Rightarrow> multipart option \<Rightarrow> job_record handler" where
  "api_create_image_job h owner idempotency_key body =
     act_bind (stage_request h body JobTarget) (\<lambda>(prefix, r).
     let idempotency = map_option (\<lambda>key. \<lparr>ir_key = key, ir_fingerprint = request_fingerprint h r\<rparr>) idempotency_key in
     act_bind (idempotent_job h owner prefix idempotency) (\<lambda>existing.
     case existing of
       Some job \<Rightarrow> act_return job
     | None \<Rightarrow> create_within_limit h owner prefix r idempotency))"

definition api_create_schedule :: "host \<Rightarrow> user_id \<Rightarrow> multipart option \<Rightarrow> schedule_record handler" where
  "api_create_schedule h owner body =
     act_bind (stage_request h body ScheduleTarget) (\<lambda>(prefix, r).
     act_bind (act_lift (ok_or
         (upload_validation ''missing_interval'' (lit ''schedule interval is required'') ''interval_seconds'')
         (sf_interval_seconds r))) (\<lambda>interval_seconds.
     act_bind (act_lift (ok_or
         (upload_validation ''missing_anchor'' (lit ''schedule anchor time is required'') ''anchor_at'')
         (sf_anchor_at r))) (\<lambda>anchor_at.
     api_call h (\<lambda>now. create_schedule now
       \<lparr>ns_owner_user_id = owner, ns_name = sf_name r, ns_interval_seconds = interval_seconds,
        ns_anchor_at = anchor_at, ns_priority = sf_priority r, ns_max_width = sf_max_width r,
        ns_jpeg_quality = sf_jpeg_quality r, ns_inputs = sf_inputs r\<rparr>))))"

end
