(* ===== verification/UploadProps.thy ===== *)
theory UploadProps
  imports Upload StorageProps
begin

text \<open>
  What the fingerprint of an upload guarantees: the message that is hashed tells requests apart.
\<close>

section \<open>Fingerprints\<close>

lemma be_bytes_length [simp]: "length (be_bytes n v) = n"
  by (simp add: be_bytes_def)

lemma be_bytes_Nil_iff [simp]: "be_bytes n v = [] \<longleftrightarrow> n = 0"
  by (simp flip: length_0_conv)

lemma be_bytes_Suc: "be_bytes (Suc n) v = be_bytes n (v div 256) @ [word_of_int v]"
proof -
  have "(v div 256 ^ (n - i) :: int) = v div 256 div 256 ^ (n - 1 - i)" if "i < n" for i
  proof -
    from that have "n - i = Suc (n - 1 - i)" by simp
    then show ?thesis by (simp add: zdiv_zmult2_eq)
  qed
  then show ?thesis by (simp add: be_bytes_def)
qed

lemma be_bytes_mod: "be_bytes n v = be_bytes n w \<Longrightarrow> v mod 256 ^ n = w mod 256 ^ n"
proof (induction n arbitrary: v w)
  case (Suc n)
  from Suc.prems have init: "be_bytes n (v div 256) = be_bytes n (w div 256)" and lo: "(word_of_int v :: u8) = word_of_int w"
    by (simp_all only: be_bytes_Suc append1_eq_conv)
  note hi = Suc.IH [OF init]
  from lo have "v mod 256 = w mod 256" by (simp add: word_of_int_eq_iff take_bit_eq_mod)
  moreover have "x mod 256 ^ Suc n = 256 * (x div 256 mod 256 ^ n) + x mod 256" for x :: int
    by (simp only: power_Suc zmod_zmult2_eq [OF zero_le_power [OF zero_le_numeral]])
  ultimately show ?case using hi by (simp only:)
qed simp

lemma be_bytes_inj:
  assumes "be_bytes n v = be_bytes n w" and "\<bar>v - w\<bar> < 256 ^ n"
  shows "v = w"
proof -
  from be_bytes_mod [OF assms(1)] have "256 ^ n dvd v - w" by (simp add: mod_eq_dvd_iff)
  with assms(2) show ?thesis using dvd_imp_le_int [of "v - w" "256 ^ n"] by (cases "v = w") simp_all
qed

lemma be_bytes_word:
  assumes "be_bytes n (uint (v :: 'n::len word)) = be_bytes n (uint w)" and "LENGTH('n) = 8 * n"
  shows "v = w"
proof -
  have "(2 :: int) ^ LENGTH('n) = 256 ^ n" by (simp add: assms(2) power_mult)
  then have "\<bar>uint v - uint w\<bar> < 256 ^ n" using uint_bounded [of v] uint_bounded [of w] uint_ge_0 [of v] uint_ge_0 [of w]
    unfolding abs_less_iff by linarith
  from be_bytes_inj [OF assms(1) this] show ?thesis by (simp only: word_uint_eq_iff)
qed

definition measured :: "u8 list \<Rightarrow> bool" where
  "measured value \<longleftrightarrow> length value < 2 ^ 64"

lemma fingerprint_part_measured:
  "measured value \<Longrightarrow> fingerprint_part value = be_bytes 8 (int (length value)) @ value"
  by (simp add: fingerprint_part_def measured_def to_word_def unsigned_of_nat take_bit_nat_eq_self)

lemma fingerprint_parts_inj:
  assumes "concat (List.map fingerprint_part xs) = concat (List.map fingerprint_part ys)"
    and "list_all measured xs" and "list_all measured ys"
  shows "xs = ys"
  using assms
proof (induction xs arbitrary: ys)
  case Nil
  then show ?case by (cases ys) (simp_all add: fingerprint_part_measured)
next
  case (Cons x xs)
  from Cons.prems obtain y zs where ys: "ys = y # zs"
    by (cases ys) (simp_all add: fingerprint_part_measured)
  with Cons.prems have e: "be_bytes 8 (int (length x)) @ x @ concat (List.map fingerprint_part xs) =
      be_bytes 8 (int (length y)) @ y @ concat (List.map fingerprint_part zs)"
    by (simp add: fingerprint_part_measured)
  then have l: "be_bytes 8 (int (length x)) = be_bytes 8 (int (length y))"
    and r: "x @ concat (List.map fingerprint_part xs) = y @ concat (List.map fingerprint_part zs)"
    by simp_all
  from Cons.prems ys have "int (length x) = int (length y)"
    by (intro be_bytes_inj [OF l]) (auto simp: measured_def abs_less_iff)
  with r have "x = y" "concat (List.map fingerprint_part xs) = concat (List.map fingerprint_part zs)"
    by simp_all
  with Cons.IH [of zs] Cons.prems ys show ?case by simp
qed

definition input_parts :: "new_input_artifact \<Rightarrow> u8 list list" where
  "input_parts i =
     [as_bytes (ni_display_name i), as_bytes (ni_media_type i), be_bytes 8 (uint (ni_byte_size i)),
      be_bytes 4 (uint (ni_width i)), be_bytes 4 (uint (ni_height i)), ni_checksum_sha256 i]"

definition request_parts :: "staged_image_fields \<Rightarrow> u8 list list" where
  "request_parts r =
     [as_bytes (job_name_as_str (sf_name r)), be_bytes 4 (uint (sf_max_width r)), [sf_jpeg_quality r],
      as_bytes (job_priority_as_str (sf_priority r)),
      (case sf_available_at r of None \<Rightarrow> [] | Some t \<Rightarrow> be_bytes 16 t)] @
     concat (List.map input_parts (sf_inputs r))"

lemma fingerprint_message_parts: "fingerprint_message r = concat (List.map fingerprint_part (request_parts r))"
proof -
  have "fingerprint_input i = concat (List.map fingerprint_part (input_parts i))" for i
    by (simp add: fingerprint_input_def input_parts_def)
  then have "concat (List.map fingerprint_input is) = concat (List.map fingerprint_part (concat (List.map input_parts is)))" for "is"
    by (induction "is") simp_all
  then show ?thesis
    by (simp add: fingerprint_message_def request_parts_def split: option.split)
qed

lemma priority_text_inj: "job_priority_as_str p = job_priority_as_str q \<longleftrightarrow> p = q"
  by (cases p; cases q) simp_all

text \<open>What a request may hold: Unicode text, times within 128 bits of nanoseconds, lists that fit into memory.\<close>

definition sound_input :: "new_input_artifact \<Rightarrow> bool" where
  "sound_input i \<longleftrightarrow> list_all scalar (ni_display_name i) \<and> list_all scalar (ni_media_type i) \<and>
     list_all measured (input_parts i)"

definition sound_request :: "staged_image_fields \<Rightarrow> bool" where
  "sound_request r \<longleftrightarrow> list_all scalar (job_name_as_str (sf_name r)) \<and>
     measured (as_bytes (job_name_as_str (sf_name r))) \<and>
     (\<forall>t. sf_available_at r = Some t \<longrightarrow> - (2 ^ 127) \<le> t \<and> t < 2 ^ 127) \<and>
     list_all sound_input (sf_inputs r)"

definition described :: "new_input_artifact \<Rightarrow> ustring \<times> ustring \<times> u64 \<times> u32 \<times> u32 \<times> u8 list" where
  "described i = (ni_display_name i, ni_media_type i, ni_byte_size i, ni_width i, ni_height i, ni_checksum_sha256 i)"

lemma input_parts_inj:
  assumes "input_parts i = input_parts j" and "sound_input i" and "sound_input j"
  shows "described i = described j"
  using assms
  by (auto simp: input_parts_def sound_input_def described_def intro: as_bytes_inj be_bytes_word)

lemma inputs_parts_inj:
  assumes "concat (List.map input_parts is) = concat (List.map input_parts js)"
    and "list_all sound_input is" and "list_all sound_input js"
  shows "List.map described is = List.map described js"
  using assms
proof (induction "is" arbitrary: js)
  case Nil
  then show ?case by (cases js) (simp_all add: input_parts_def)
next
  case (Cons i "is")
  then obtain j ks where js: "js = j # ks" by (cases js) (simp_all add: input_parts_def)
  have len: "length (input_parts k) = 6" for k by (simp add: input_parts_def)
  from Cons.prems js len have "input_parts i = input_parts j"
    "concat (List.map input_parts is) = concat (List.map input_parts ks)"
    by (simp_all add: append_eq_append_conv)
  with Cons.IH [of ks] Cons.prems js input_parts_inj [of i j] show ?case by simp
qed

lemma measured_parts:
  assumes "sound_request r"
  shows "list_all measured (request_parts r)"
proof -
  have "measured (as_bytes (job_priority_as_str p))" for p
    by (cases p) (simp_all add: measured_def as_bytes_def lit_def utf8_char.simps)
  moreover have "list_all measured (concat (List.map input_parts (sf_inputs r)))"
    using assms by (auto simp: sound_request_def list_all_iff sound_input_def)
  moreover have "measured (case sf_available_at r of None \<Rightarrow> [] | Some t \<Rightarrow> be_bytes 16 t)"
    by (simp add: measured_def split: option.split)
  ultimately show ?thesis using assms by (simp add: sound_request_def request_parts_def) (simp add: measured_def)
qed

text \<open>C38. The message whose digest is the fingerprint of an upload determines the request: two requests with
  the same message agree in the name, the settings, the priority, the time and, one by one, in the name, type, size,
  dimensions and checksum of every image.\<close>
theorem fingerprint_tells_requests_apart:
  assumes "fingerprint_message r = fingerprint_message q" and "sound_request r" and "sound_request q"
  shows "sf_name r = sf_name q \<and> sf_max_width r = sf_max_width q \<and> sf_jpeg_quality r = sf_jpeg_quality q \<and>
     sf_priority r = sf_priority q \<and> sf_available_at r = sf_available_at q \<and>
     List.map described (sf_inputs r) = List.map described (sf_inputs q)"
proof -
  from assms have p: "request_parts r = request_parts q"
    by (intro fingerprint_parts_inj measured_parts) (simp_all flip: fingerprint_message_parts)
  then have bytes: "as_bytes (job_name_as_str (sf_name r)) = as_bytes (job_name_as_str (sf_name q))"
    "be_bytes 4 (uint (sf_max_width r)) = be_bytes 4 (uint (sf_max_width q))" "sf_jpeg_quality r = sf_jpeg_quality q"
    "as_bytes (job_priority_as_str (sf_priority r)) = as_bytes (job_priority_as_str (sf_priority q))"
    and time: "(case sf_available_at r of None \<Rightarrow> [] | Some t \<Rightarrow> be_bytes 16 t) =
      (case sf_available_at q of None \<Rightarrow> [] | Some t \<Rightarrow> be_bytes 16 t)"
    and inputs: "concat (List.map input_parts (sf_inputs r)) = concat (List.map input_parts (sf_inputs q))"
    by (simp_all add: request_parts_def)
  have "job_name_as_str (sf_name r) = job_name_as_str (sf_name q)"
    using as_bytes_inj [OF _ _ bytes(1)] assms(2,3) by (simp add: sound_request_def)
  then have "sf_name r = sf_name q" by (cases "sf_name r"; cases "sf_name q") simp
  moreover have "sf_max_width r = sf_max_width q" by (rule be_bytes_word [OF bytes(2)]) simp
  moreover have "list_all scalar (job_priority_as_str p)" for p
    by (cases p) (simp_all add: lit_def scalar_def)
  then have "sf_priority r = sf_priority q" using as_bytes_inj [OF _ _ bytes(4)] priority_text_inj by blast
  moreover have "sf_available_at r = sf_available_at q"
  proof (cases "sf_available_at r"; cases "sf_available_at q")
    fix t u assume t: "sf_available_at r = Some t" "sf_available_at q = Some u"
    with time have "be_bytes 16 t = be_bytes 16 u" by simp
    moreover have "\<bar>t - u\<bar> < 256 ^ 16" using assms(2,3) t unfolding sound_request_def abs_less_iff by auto
    ultimately show ?thesis using be_bytes_inj t by simp
  next
    fix t assume "sf_available_at r = None" "sf_available_at q = Some t"
    with time be_bytes_length [of 16 t] show ?thesis by simp
  next
    fix t assume "sf_available_at r = Some t" "sf_available_at q = None"
    with time be_bytes_length [of 16 t] show ?thesis by simp
  qed simp
  moreover have "List.map described (sf_inputs r) = List.map described (sf_inputs q)"
    using inputs_parts_inj [OF inputs] assms(2,3) by (simp add: sound_request_def)
  ultimately show ?thesis using bytes(3) by simp
qed

definition ex_fields :: "ustring \<Rightarrow> staged_image_fields" where
  "ex_fields key =
     \<lparr>sf_name = JobName (lit ''photos''), sf_max_width = 800, sf_jpeg_quality = 80, sf_available_at = Some (- 5),
      sf_priority = Normal, sf_interval_seconds = None, sf_anchor_at = None,
      sf_inputs = [\<lparr>ni_storage_key = key, ni_display_name = lit ''a.jpg'', ni_media_type = lit ''image/jpeg'',
        ni_byte_size = 3, ni_width = 4, ni_height = 2, ni_checksum_sha256 = replicate 32 7\<rparr>]\<rparr>"

text \<open>The same images stored a second time, under another key.\<close>

theorem fingerprint_tells_requests_apart_witness:
  "fingerprint_message (ex_fields (lit ''first'')) = fingerprint_message (ex_fields (lit ''second'')) \<and>
   List.map described (sf_inputs (ex_fields (lit ''first''))) = List.map described (sf_inputs (ex_fields (lit ''second'')))"
proof -
  have same: "fingerprint_message (ex_fields (lit ''first'')) = fingerprint_message (ex_fields (lit ''second''))"
    by (simp add: fingerprint_message_def fingerprint_input_def ex_fields_def)
  have "sound_request (ex_fields key)" for key
    by (simp add: sound_request_def sound_input_def input_parts_def ex_fields_def measured_def as_bytes_def lit_def
        scalar_def utf8_char.simps)
  from fingerprint_tells_requests_apart [OF same this this] same show ?thesis by blast
qed

end
