(* ===== verification/ApiExample.thy ===== *)
theory ApiExample
  imports Auth AccountProps
begin

text \<open>
  The host and the server on which the witnesses of the API run: nothing fails and nothing interferes, identifiers
  are counted up, a digest tells the length, and a password fits the hash that it begins with.
\<close>

definition ex_host :: host where
  "ex_host =
     \<lparr>h_config = app_config_default, h_clock = (\<lambda>_. 10), h_instant = (\<lambda>_. 10), h_db = (\<lambda>_ s. s),
      h_files = (\<lambda>_ fs. fs), h_uuid = word_of_nat, h_sha256 = (\<lambda>bs. replicate 32 (word_of_nat (length bs))),
      h_hash_parses = (\<lambda>_. True), h_verifies = (\<lambda>password hash. hash = take 4 password), h_argon2 = (\<lambda>_ password. Some password),
      h_join_fails = (\<lambda>_. False), h_rfc3339 = (\<lambda>_. None), h_range = (\<lambda>_. True), h_usage = (\<lambda>_. Inr 100),
      h_mkdir_fails = (\<lambda>_. False), h_create_fails = (\<lambda>_. False), h_short_write = (\<lambda>_. None),
      h_flush_fails = (\<lambda>_. False), h_remove_fails = (\<lambda>_. False), h_open_fails = (\<lambda>_. False),
      h_codecs = \<lparr>cd_format = (\<lambda>_. Some JpegFormat), cd_dimensions = (\<lambda>_. Some (4, 2)), cd_is_apng = (\<lambda>_. Some False),
        cd_decode = (\<lambda>_. None), cd_resize = (\<lambda>r _ _. r), cd_encode = (\<lambda>_ _. None)\<rparr>,
      h_io = \<lparr>io_read_fails = (\<lambda>_. False), io_write = (\<lambda>_. Written), io_partial = (\<lambda>_. []), io_remove_fails = (\<lambda>_. False)\<rparr>\<rparr>"

definition ex_server :: server where
  "ex_server = app_with_config ex_accounts_db (\<lambda>_. None) app_config_default"

lemma ex_step: "sv_step ex_server = 0"
  by (simp add: ex_server_def app_with_config_def)

end
