(* ===== verification/BatchProps.thy ===== *)
theory BatchProps
  imports UploadProps ApiExample
begin

text \<open>
  The files of an upload: each batch has a directory of its own and each image a file of its own in it, a
  refused upload leaves none of them behind, and the inputs of an accepted one describe what was written.
\<close>

section \<open>Directories and files of a batch\<close>

lemma hex_digit_inj: "a < 16 \<Longrightarrow> b < 16 \<Longrightarrow> hex_digit a = hex_digit b \<Longrightarrow> a = b"
  by (simp add: hex_digit_def split: if_splits)

lemma digits16_inj:
  "(n :: nat) < 16 ^ k \<Longrightarrow> m < 16 ^ k \<Longrightarrow> \<forall>i < k. n div 16 ^ i mod 16 = m div 16 ^ i mod 16 \<Longrightarrow> n = m"
proof (induction k arbitrary: n m)
  case (Suc k)
  have "n div 16 = m div 16"
  proof (rule Suc.IH)
    show "n div 16 < 16 ^ k" "m div 16 < 16 ^ k" using Suc.prems(1,2) by (simp_all add: less_mult_imp_div_less mult.commute)
    show "\<forall>i < k. n div 16 div 16 ^ i mod 16 = m div 16 div 16 ^ i mod 16"
    proof (intro allI impI)
      fix i assume "i < k"
      then have "n div 16 ^ Suc i mod 16 = m div 16 ^ Suc i mod 16" using Suc.prems(3) by blast
      then show "n div 16 div 16 ^ i mod 16 = m div 16 div 16 ^ i mod 16" by (simp add: div_mult2_eq)
    qed
  qed
  moreover have "n mod 16 = m mod 16" using Suc.prems(3) by force
  ultimately show ?case by (metis div_mult_mod_eq)
qed simp

lemma simple_uuid_inj: "simple_uuid u = simple_uuid v \<Longrightarrow> u = v"
proof -
  assume "simple_uuid u = simple_uuid v"
  then have e: "\<forall>i < 32. unat u div 16 ^ (31 - i) mod 16 = unat v div 16 ^ (31 - i) mod 16"
    by (auto simp: simple_uuid_def intro: hex_digit_inj)
  have "unat u = unat v"
  proof (rule digits16_inj [where k = 32])
    show "unat u < 16 ^ 32" "unat v < 16 ^ 32" using unsigned_less [of u] unsigned_less [of v] by simp_all
    show "\<forall>i < 32. unat u div 16 ^ i mod 16 = unat v div 16 ^ i mod 16"
    proof (intro allI impI)
      fix i :: nat assume "i < 32"
      then show "unat u div 16 ^ i mod 16 = unat v div 16 ^ i mod 16" using e [rule_format, of "31 - i"] by simp
    qed
  qed
  then show "u = v" by (simp only: word_unat_eq_iff)
qed

lemma hyphenated_chars: "c \<in> set (hyphenated u) \<Longrightarrow> c = 45 \<or> is_ascii_digit c \<or> is_ascii_lowercase c"
  unfolding hyphenated_def Let_def
  using simple_uuid_chars by (auto dest!: in_set_takeD in_set_dropD)

lemma hyphenated_plain: "plain_segment (hyphenated u)"
proof -
  have "length (hyphenated u) = 36" by (simp add: hyphenated_def Let_def)
  then have "hyphenated u \<noteq> []" "hyphenated u \<noteq> lit ''.''" "hyphenated u \<noteq> lit ''..''"
    by (auto simp: lit_def)
  moreover have "47 \<notin> set (hyphenated u)" "58 \<notin> set (hyphenated u)" "92 \<notin> set (hyphenated u)"
    using hyphenated_chars [of _ u] by (fastforce simp: is_ascii_digit_def is_ascii_lowercase_def)+
  ultimately show ?thesis by (simp add: plain_segment_def)
qed

lemma hyphenated_inj: "hyphenated u = hyphenated v \<longleftrightarrow> u = v"
proof
  have digits: "filter (\<lambda>c. c \<noteq> 45) (hyphenated w) = simple_uuid w" for w
  proof -
    let ?s = "simple_uuid w"
    have "filter (\<lambda>c. c \<noteq> 45) t = t" if "set t \<subseteq> set ?s" for t
    proof -
      have "45 \<notin> set t" using that simple_uuid_chars [of 45 w] by (auto simp: is_ascii_digit_def is_ascii_lowercase_def)
      then show ?thesis by (intro filter_True) auto
    qed
    then have "filter (\<lambda>c. c \<noteq> 45) (hyphenated w) =
        take 8 ?s @ take 4 (drop 8 ?s) @ take 4 (drop 12 ?s) @ take 4 (drop 16 ?s) @ drop 20 ?s"
      by (simp add: hyphenated_def Let_def set_take_subset set_drop_subset
          subset_trans [OF set_take_subset set_drop_subset])
    also have "\<dots> = ?s"
      using append_take_drop_id [of 8 ?s] append_take_drop_id [of 4 "drop 8 ?s"]
        append_take_drop_id [of 4 "drop 12 ?s"] append_take_drop_id [of 4 "drop 16 ?s"] by simp
    finally show ?thesis .
  qed
  assume "hyphenated u = hyphenated v"
  then show "u = v" using digits simple_uuid_inj by metis
qed simp

definition batch_directory :: "uuid \<Rightarrow> ustring list" where
  "batch_directory u = [lit ''inputs'', hyphenated u]"

lemma batch_prefix: "lit ''inputs/'' @ hyphenated u = join_slash (batch_directory u)"
  by (simp add: batch_directory_def lit_def)

lemma inputs_plain: "plain_segment (lit ''inputs'')"
  by (simp add: plain_segment_def lit_def)

lemma resolve_batch: "resolve_key (lit ''inputs/'' @ hyphenated u) = Inr (batch_directory u)"
  unfolding batch_prefix
  by (rule resolve_join) (simp_all add: batch_directory_def hyphenated_plain inputs_plain)

lemma resolve_batch_file:
  "resolve_key ((lit ''inputs/'' @ hyphenated u) @ [47] @ hyphenated f) = Inr (batch_directory u @ [hyphenated f])"
proof -
  have "(lit ''inputs/'' @ hyphenated u) @ [47] @ hyphenated f = join_slash (batch_directory u @ [hyphenated f])"
    by (simp add: batch_directory_def lit_def)
  then show ?thesis
    using resolve_join(1) [of "batch_directory u @ [hyphenated f]"]
    by (simp add: batch_directory_def hyphenated_plain inputs_plain)
qed

section \<open>Refused uploads\<close>

definition clean :: "ustring list \<Rightarrow> server \<Rightarrow> bool" where
  "clean d v \<longleftrightarrow> (\<forall>path. under d path \<longrightarrow> sv_files v path = None)"

definition spares_directory :: "host \<Rightarrow> ustring list \<Rightarrow> bool" where
  "spares_directory h d \<longleftrightarrow> (\<forall>n fs path. under d path \<longrightarrow> h_files h n fs path = fs path)"

text \<open>The directory of the batch that an upload starting in this state will open.\<close>

definition upload_directory :: "host \<Rightarrow> server \<Rightarrow> ustring list" where
  "upload_directory h v = batch_directory (h_uuid h (Suc (sv_step v)))"

lemma storage_usage_run: "storage_usage h v = (r, v') \<Longrightarrow> v' = v\<lparr>sv_step := Suc (sv_step v)\<rparr>"
  by (auto simp: storage_usage_def act_bind_def act_value_def split: prod.splits sum.splits if_splits)

lemma begin_upload_run:
  assumes "begin_upload h v = (r, v')"
  shows "sv_files v' = sv_files v" and "r = Inr prefix \<Longrightarrow> prefix = lit ''inputs/'' @ hyphenated (h_uuid h (sv_step v))"
  using assms
  by (auto simp: begin_upload_def Let_def act_bind_def act_value_def split: prod.splits sum.splits if_splits)

lemma cleaned_up_clean:
  assumes "\<forall>n. \<not> h_remove_fails h n" and "resolve_key prefix = Inr d" and "act_triple (clean d) m Q E"
  shows "act_triple P (cleaned_up h prefix m) Q E"
  unfolding cleaned_up_def
proof (rule act_triple_bind [OF _ assms(3)], rule act_triple_result)
  show "act_triple P (batch_cleanup h prefix) (\<lambda>_. clean d) (\<lambda>_. clean d)"
    unfolding act_triple_def batch_cleanup_def file_step_def
    using assms(1,2) by (simp add: Let_def clean_def remove_tree_def)
qed

lemma stage_request_clean:
  assumes no_failure: "\<forall>n. \<not> h_remove_fails h n" and fresh: "clean (upload_directory h v) v"
  shows "act_triple (\<lambda>w. w = v) (stage_request h body target)
    (\<lambda>r _. resolve_key (fst r) = Inr (upload_directory h v)) (\<lambda>_. clean (upload_directory h v))"
proof -
  let ?d = "upload_directory h v"
  let ?R = "\<lambda>w. sv_files w = sv_files v \<and> sv_step w = Suc (sv_step v)"
  have "act_triple (\<lambda>w. w = v) (storage_usage h) (\<lambda>_. ?R) (\<lambda>_. clean ?d)"
    using fresh by (intro act_tripleI) (auto dest!: storage_usage_run simp: clean_def)
  moreover have "act_triple ?R (act_lift r) (\<lambda>_. ?R) (\<lambda>_. clean ?d)" for r :: "api_error + multipart"
    using fresh by (intro act_triple_simple) (auto simp: clean_def)
  moreover have "act_triple ?R (act_map_err storage_failed (begin_upload h))
      (\<lambda>prefix _. resolve_key prefix = Inr ?d) (\<lambda>_. clean ?d)"
    using fresh
    by (intro act_triple_map_err act_tripleI)
      (auto dest: begin_upload_run(1) begin_upload_run(2) [OF _ refl] simp: clean_def upload_directory_def resolve_batch)
  moreover have "act_triple (\<lambda>_. resolve_key prefix = Inr ?d) (act_result m)
      (\<lambda>_ _. resolve_key prefix = Inr ?d) E" for prefix and m :: "staged_image_fields handler" and E
    by (intro act_triple_result act_tripleI)
  moreover have "act_triple (\<lambda>_. resolve_key prefix = Inr ?d)
      (case staged of Inl error \<Rightarrow> cleaned_up h prefix (act_fail error) | Inr r \<Rightarrow> act_return (prefix, r))
      (\<lambda>r _. resolve_key (fst r) = Inr ?d) (\<lambda>_. clean ?d)" for prefix and staged :: "api_error + staged_image_fields"
  proof (cases "resolve_key prefix = Inr ?d")
    case True
    then show ?thesis
      by (cases staged) (auto intro!: cleaned_up_clean [OF no_failure True] act_triple_simple)
  qed (simp add: act_triple_def)
  ultimately show ?thesis unfolding stage_request_def by (intro act_triple_bind)
qed

text \<open>
  A refusal by the database: this upload was staged, no earlier request had its key, the user was below the limit on
  active jobs, and then the statement that creates the job with the staged inputs failed. A lost connection can hide that it was
  carried out, so the files are kept.
\<close>

definition creation_refused ::
  "host \<Rightarrow> user_id \<Rightarrow> ustring option \<Rightarrow> multipart option \<Rightarrow> server \<Rightarrow> api_error \<Rightarrow> server \<Rightarrow> bool" where
  "creation_refused h owner key body v e v' \<longleftrightarrow>
     (\<exists>prefix r v1 v2 v3 active job.
        stage_request h body JobTarget v = (Inr (prefix, r), v1) \<and>
        idempotent_job h owner prefix (map_option (\<lambda>key. \<lparr>ir_key = key, ir_fingerprint = request_fingerprint h r\<rparr>) key) v1 =
          (Inr None, v2) \<and>
        db_call h (\<lambda>_ _. active_job_count_for_owner owner) v2 = (Inr active, v3) \<and>
        active < ucast (ac_max_active_jobs (h_config h)) \<and>
        nj_owner_user_id job = owner \<and> nj_inputs job = sf_inputs r \<and>
        api_call h (\<lambda>now. create_image_job now job) v3 = (Inl e, v'))"

text \<open>Every other refusal cleans up the batch.\<close>

lemma cleaned_up_Inl:
  assumes "\<forall>n. \<not> h_remove_fails h n" and "resolve_key prefix = Inr d"
    and "cleaned_up h prefix (act_fail e) v = (Inl e', v')"
  shows "clean d v'"
  by (rule act_tripleD(2) [where P = "\<lambda>_. True" and Q = "\<lambda>_ _. True" and E = "\<lambda>_. clean d",
        OF cleaned_up_clean [OF assms(1,2) act_triple_fail] TrueI assms(3)])

lemma act_bind_result: "m v = (r, u) \<Longrightarrow> act_bind (act_result m) f v = f r u"
  by (simp add: act_bind_def act_result_def)

lemma cleaned_up_return: "cleaned_up h prefix (act_return x) v \<noteq> (Inl e, v')"
  by (simp add: cleaned_up_def act_bind_def act_result_def split: prod.splits)

lemma idempotent_job_Inl:
  assumes "\<forall>n. \<not> h_remove_fails h n" and "resolve_key prefix = Inr d"
    and run: "idempotent_job h owner prefix idempotency v = (Inl e, v')"
  shows "clean d v'"
proof (cases idempotency)
  case None
  with run show ?thesis by (simp add: idempotent_job_def)
next
  case (Some i)
  obtain found u where "db_call h (\<lambda>_ _. find_idempotent_image_job owner i) v = (found, u)" by fastforce
  with run Some show ?thesis
    using cleaned_up_Inl [OF assms(1,2)]
    by (auto simp: idempotent_job_def act_bind_result cleaned_up_return split: sum.splits option.splits)
qed

lemma create_within_limit_Inl:
  assumes "\<forall>n. \<not> h_remove_fails h n" and "resolve_key prefix = Inr d"
    and "create_within_limit h owner prefix r idempotency v = (Inl e, v')"
  shows "clean d v' \<or> (\<exists>v1 active job.
    db_call h (\<lambda>_ _. active_job_count_for_owner owner) v = (Inr active, v1) \<and>
    active < ucast (ac_max_active_jobs (h_config h)) \<and> nj_owner_user_id job = owner \<and> nj_inputs job = sf_inputs r \<and>
    api_call h (\<lambda>now. create_image_job now job) v1 = (Inl e, v'))"
proof -
  obtain counted v1 where count: "db_call h (\<lambda>_ _. active_job_count_for_owner owner) v = (counted, v1)" by fastforce
  show ?thesis
  proof (cases "\<exists>active. counted = Inr active \<and> active < ucast (ac_max_active_jobs (h_config h))")
    case True
    then obtain active where active: "counted = Inr active" "active < ucast (ac_max_active_jobs (h_config h))" by blast
    let ?job = "\<lparr>nj_owner_user_id = owner, nj_name = sf_name r, nj_max_width = sf_max_width r,
      nj_jpeg_quality = sf_jpeg_quality r, nj_available_at = sf_available_at r,
      nj_priority = sf_priority r, nj_inputs = sf_inputs r, nj_idempotency = idempotency\<rparr>"
    have "api_call h (\<lambda>now. create_image_job now ?job) v1 = (Inl e, v')"
      using assms(3) count active by (simp add: create_within_limit_def act_bind_def act_result_def linorder_not_le [symmetric] del: linorder_not_le)
    then show ?thesis
      using count active by (intro disjI2 exI [of _ v1] exI [of _ active] exI [of _ ?job]) simp
  next
    case False
    then have refused: "\<not> active < ucast (ac_max_active_jobs (h_config h))" if "counted = Inr active" for active
      using that by blast
    have "clean d v'"
    proof (rule cleaned_up_Inl [OF assms(1,2)])
      show "cleaned_up h prefix (act_fail (case counted of Inl error \<Rightarrow> repository_failed error
          | Inr active \<Rightarrow> resource_limit ''active_job_limit'' ''finish or cancel an active job before creating another'')
          :: job_record handler) v1 = (Inl e, v')"
        using assms(3) refused
        by (simp add: create_within_limit_def act_bind_result
            [where m = "db_call h (\<lambda>_ _. active_job_count_for_owner owner)", OF count] split: sum.splits if_splits)
    qed
    then show ?thesis ..
  qed
qed

text \<open>C39. An image job that the API refuses to create leaves no file in the directory of its batch, whether the body
  was malformed, a limit was exceeded, an image was not acceptable, or a repeated request had other data. The one exception
  is a refusal by the database at the very end of this upload, when everything else had passed.\<close>
theorem refused_upload_leaves_no_file:
  assumes run: "api_create_image_job h owner key body v = (Inl e, v')"
    and no_failure: "\<forall>n. \<not> h_remove_fails h n" and fresh: "clean (upload_directory h v) v"
  shows "clean (upload_directory h v) v' \<or> creation_refused h owner key body v e v'"
proof (cases "stage_request h body JobTarget v")
  case (Pair staged v1)
  show ?thesis
  proof (cases staged)
    case (Inl error)
    with run Pair act_tripleD(2) [OF stage_request_clean [OF no_failure fresh] refl, of body JobTarget error v1] show ?thesis
      by (simp add: api_create_image_job_def act_bind_def)
  next
    case (Inr p)
    obtain prefix r where p: "p = (prefix, r)" by fastforce
    let ?i = "map_option (\<lambda>key. \<lparr>ir_key = key, ir_fingerprint = request_fingerprint h r\<rparr>) key"
    have d: "resolve_key prefix = Inr (upload_directory h v)"
      using act_tripleD(1) [OF stage_request_clean [OF no_failure fresh] refl, of body JobTarget p v1] Pair Inr p by simp
    have "act_bind (idempotent_job h owner prefix ?i) (\<lambda>existing. case existing of
        Some job \<Rightarrow> act_return job | None \<Rightarrow> create_within_limit h owner prefix r ?i) v1 = (Inl e, v')"
      using run Pair Inr p by (auto simp: api_create_image_job_def act_bind_Inl_iff Let_def)
    then consider (conflict) "idempotent_job h owner prefix ?i v1 = (Inl e, v')"
      | (new) v2 where "idempotent_job h owner prefix ?i v1 = (Inr None, v2)"
          "create_within_limit h owner prefix r ?i v2 = (Inl e, v')"
      by (auto simp: act_bind_Inl_iff split: option.splits)
    then show ?thesis
    proof cases
      case conflict
      from idempotent_job_Inl [OF no_failure d this] show ?thesis ..
    next
      case new
      from create_within_limit_Inl [OF no_failure d new(2)] new(1) Pair Inr p show ?thesis
        unfolding creation_refused_def by blast
    qed
  qed
qed

section \<open>Accepted uploads\<close>

text \<open>An input describes a stored file: its size, the digest of its content, and what the inspection found.\<close>

definition describes :: "host \<Rightarrow> ustring list \<Rightarrow> stored \<Rightarrow> new_input_artifact \<Rightarrow> bool" where
  "describes h d fs i \<longleftrightarrow>
     (\<exists>path content meta. resolve_key (ni_storage_key i) = Inr path \<and> under d path \<and> fs path = Some content \<and>
        0 < length content \<and> uint (ni_byte_size i) = int (length content) \<and> ni_byte_size i \<le> max_file_bytes \<and>
        ni_checksum_sha256 i = h_sha256 h content \<and>
        inspect (h_codecs h) (h_io h) fs (ni_storage_key i) = Inr meta \<and>
        ni_media_type i = im_media_type meta \<and> ni_width i = im_width meta \<and> ni_height i = im_height meta)"

lemma inspect_frame:
  "resolve_key key = Inr path \<Longrightarrow> fs' path = fs path \<Longrightarrow> inspect cd io fs' key = inspect cd io fs key"
  by (simp add: inspect_def inspect_path_def read_file_def)

lemma describes_frame:
  assumes "describes h d fs i" and "\<And>path. resolve_key (ni_storage_key i) = Inr path \<Longrightarrow> under d path \<Longrightarrow> fs' path = fs path"
  shows "describes h d fs' i"
proof -
  from assms(1) obtain path where path: "resolve_key (ni_storage_key i) = Inr path" "under d path"
    unfolding describes_def by blast
  with assms(2) have same: "fs' path = fs path" by blast
  note inspect_frame [where fs = fs and fs' = fs', OF path(1) same]
  with assms(1) path same show ?thesis unfolding describes_def by auto
qed

definition within_limits :: "u64 \<Rightarrow> u64 \<Rightarrow> u64 \<Rightarrow> bool" where
  "within_limits usage budget bytes \<longleftrightarrow>
     uint bytes \<le> uint max_total_file_bytes \<and> uint usage + uint bytes \<le> uint budget"

text \<open>Nothing below the directory but the file at the path changes.\<close>

definition only_writes :: "ustring list \<Rightarrow> ustring list \<Rightarrow> server \<Rightarrow> server \<Rightarrow> bool" where
  "only_writes d path v w \<longleftrightarrow>
     sv_step v \<le> sv_step w \<and> (\<forall>p. under d p \<longrightarrow> p \<noteq> path \<longrightarrow> sv_files w p = sv_files v p)"

lemma only_writes_trans: "only_writes d path u v \<Longrightarrow> only_writes d path v w \<Longrightarrow> only_writes d path u w"
  by (auto simp: only_writes_def)

lemma checked_add_uint: "checked_add_u64 a b = Some c \<Longrightarrow> uint c = uint a + uint b"
  unfolding checked_add_u64_def by (rule uint_of_to_word)

lemma write_all_run:
  assumes "write_all h path chunk v = (Inr x, w)" and "spares_directory h d" and "under d path" and "sv_files v path = Some c"
  shows "sv_files w path = Some (c @ chunk) \<and> only_writes d path v w"
  using assms
  by (auto simp: write_all_def file_step_def Let_def spares_directory_def disturbed_def append_to_def only_writes_def
      split: option.splits)

lemma write_chunks_run:
  assumes "write_chunks h path usage budget chunks fb tb hs v = (Inr (fb', tb', hs'), w)"
    and "spares_directory h d" and "under d path" and "sv_files v path = Some hs"
    and "int (length hs) = uint fb" and "fb \<le> max_file_bytes" and "within_limits usage budget tb"
  shows "sv_files w path = Some hs' \<and> int (length hs') = uint fb' \<and> fb' \<le> max_file_bytes \<and>
    within_limits usage budget tb' \<and> uint tb' - uint fb' = uint tb - uint fb \<and> only_writes d path v w"
  using assms
proof (induction chunks arbitrary: fb tb hs v)
  case Nil
  then show ?case by (simp add: only_writes_def)
next
  case (Cons chunk chunks)
  from Cons.prems(1) obtain n fb1 tb1 u where
    n: "to_word (int (length chunk)) = Some (n :: u64)" and fb: "checked_add_u64 fb n = Some fb1"
    and small: "\<not> fb1 > max_file_bytes" and tb: "checked_add_u64 tb n = Some tb1"
    and room: "case checked_add_u64 usage tb1 of None \<Rightarrow> False | Some projected \<Rightarrow> \<not> projected > budget"
    and most: "\<not> tb1 > max_total_file_bytes" and written: "write_all h path chunk v = (Inr (), u)"
    and rest: "write_chunks h path usage budget chunks fb1 tb1 (hs @ chunk) u = (Inr (fb', tb', hs'), w)"
    unfolding write_chunks.simps act_bind_Inr_iff act_simps act_map_err_Inr_iff prod.inject
    by (elim exE conjE) (simp split: if_splits)
  note sums = checked_add_uint [OF fb] checked_add_uint [OF tb] uint_of_to_word [OF n]
  note u = write_all_run [OF written Cons.prems(2-4)]
  from room most have "within_limits usage budget tb1"
    by (auto simp: within_limits_def word_le_def not_less dest: checked_add_uint split: option.splits)
  from Cons.IH [OF rest Cons.prems(2,3) conjunct1 [OF u] _ _ this] u Cons.prems(5) small sums
  show ?case by (auto intro: only_writes_trans)
qed

text \<open>What holds of the inputs staged so far: they are in files of their own and within every limit.\<close>

definition batch_key :: "host \<Rightarrow> uuid \<Rightarrow> nat \<Rightarrow> ustring" where
  "batch_key h u n = (lit ''inputs/'' @ hyphenated u) @ [47] @ hyphenated (h_uuid h n)"

definition bytes_of :: "new_input_artifact list \<Rightarrow> int" where
  "bytes_of inputs = sum_list (List.map (\<lambda>i. uint (ni_byte_size i)) inputs)"

definition staged_inv :: "host \<Rightarrow> uuid \<Rightarrow> u64 \<Rightarrow> staged_slots \<Rightarrow> server \<Rightarrow> bool" where
  "staged_inv h u usage slots v \<longleftrightarrow>
     length (sl_inputs slots) \<le> max_files_per_job \<and> distinct (List.map ni_storage_key (sl_inputs slots)) \<and>
     (\<forall>i \<in> set (sl_inputs slots). describes h (batch_directory u) (sv_files v) i \<and>
        (\<exists>n < sv_step v. ni_storage_key i = batch_key h u n)) \<and>
     uint (sl_total_bytes slots) = bytes_of (sl_inputs slots) \<and>
     within_limits usage (ac_storage_budget_bytes (h_config h)) (sl_total_bytes slots)"

lemma batch_key_inj:
  "inj_on (h_uuid h) {..<N} \<Longrightarrow> n < N \<Longrightarrow> m < N \<Longrightarrow> batch_key h u n = batch_key h u m \<longleftrightarrow> n = m"
  by (auto simp: batch_key_def hyphenated_inj inj_on_def)

lemma resolve_batch_key: "resolve_key (batch_key h u n) = Inr (batch_directory u @ [hyphenated (h_uuid h n)])"
  unfolding batch_key_def by (rule resolve_batch_file)

lemma create_file_run:
  assumes "create_file h (lit ''inputs/'' @ hyphenated u) v = (Inr (key, path), w)" and "spares_directory h (batch_directory u)"
  shows "key = batch_key h u (sv_step v) \<and> path = batch_directory u @ [hyphenated (h_uuid h (sv_step v))] \<and>
    sv_files w path = Some [] \<and> only_writes (batch_directory u) path v w \<and> sv_step v < sv_step w"
  using assms resolve_batch_file [of u "h_uuid h (sv_step v)"]
  by (auto simp: create_file_def Let_def act_bind_Inr_iff act_value_def file_step_def batch_key_def
      spares_directory_def disturbed_def only_writes_def split: if_splits)

lemma flush_run:
  "flush h v = (Inr x, w) \<Longrightarrow> spares_directory h d \<Longrightarrow> \<forall>path. under d path \<longrightarrow> sv_files w path = sv_files v path"
  "flush h v = (Inr x, w) \<Longrightarrow> sv_step v \<le> sv_step w"
  by (auto simp: flush_def file_step_def Let_def spares_directory_def disturbed_def)

lemma inspect_stored_run:
  assumes "inspect_stored h key v = (Inr meta, w)" and "spares_directory h d"
  shows "(\<forall>path. under d path \<longrightarrow> sv_files w path = sv_files v path) \<and> sv_step v \<le> sv_step w \<and>
    inspect (h_codecs h) (h_io h) (sv_files w) key = Inr meta"
  using assms by (auto simp: inspect_stored_def Let_def spares_directory_def disturbed_def)

lemma act_Inr_iff:
  "act_return x v = (Inr y, w) \<longleftrightarrow> x = y \<and> v = w"
  "act_lift r v = (Inr y, w) \<longleftrightarrow> r = Inr y \<and> v = w"
  "act_guard ok e v = (Inr u, w) \<longleftrightarrow> ok \<and> v = w"
  by auto

text \<open>One image field writes one new file below the directory and stages the input that describes it.\<close>

lemma stage_image_run:
  assumes run: "stage_image h (lit ''inputs/'' @ hyphenated u) usage p slots v = (Inr slots', w)"
    and lim: "within_limits usage (ac_storage_budget_bytes (h_config h)) (sl_total_bytes slots)"
    and spares: "spares_directory h (batch_directory u)"
  shows "\<exists>i. slots' = slots\<lparr>sl_inputs := sl_inputs slots @ [i], sl_total_bytes := sl_total_bytes slots'\<rparr> \<and>
    length (sl_inputs slots) < max_files_per_job \<and> ni_storage_key i = batch_key h u (sv_step v) \<and>
    describes h (batch_directory u) (sv_files w) i \<and>
    within_limits usage (ac_storage_budget_bytes (h_config h)) (sl_total_bytes slots') \<and>
    uint (sl_total_bytes slots') = uint (sl_total_bytes slots) + uint (ni_byte_size i) \<and>
    only_writes (batch_directory u) (batch_directory u @ [hyphenated (h_uuid h (sv_step v))]) v w \<and>
    sv_step v < sv_step w"
proof -
  let ?d = "batch_directory u" and ?budget = "ac_storage_budget_bytes (h_config h)"
  from run obtain name made v1 result v2 flushed v3 meta where
    few: "\<not> length (sl_inputs slots) \<ge> max_files_per_job"
    and create': "create_file h (lit ''inputs/'' @ hyphenated u) v = (Inr made, v1)"
    and wrote': "write_image_field h p (snd made) (sl_total_bytes slots) usage ?budget v1 = (Inr result, v2)"
    and flush: "flush h v2 = (Inr flushed, v3)" and inspect': "inspect_stored h (fst made) v3 = (Inr meta, w)"
    and slots': "slots' = slots\<lparr>sl_inputs := sl_inputs slots @
       [\<lparr>ni_storage_key = fst made, ni_display_name = name, ni_media_type = im_media_type meta,
         ni_byte_size = fst result, ni_width = im_width meta, ni_height = im_height meta,
         ni_checksum_sha256 = snd (snd result)\<rparr>], sl_total_bytes := fst (snd result)\<rparr>"
    unfolding stage_image_def act_bind_Inr_iff act_Inr_iff act_map_err_Inr_iff Let_def case_prod_beta
    by (elim exE conjE) (hypsubst+, rule that; assumption)
  obtain key path size bytes sum where pairs: "made = (key, path)" "result = (size, bytes, sum)"
    by (cases made; cases result) auto
  note create = create' [unfolded pairs] and wrote = wrote' [unfolded pairs, simplified]
    and inspect = inspect' [unfolded pairs, simplified] and slots' = slots' [unfolded pairs, simplified]
  note c = create_file_run [OF create spares]
  from wrote obtain hashed where
    chunks: "write_chunks h path usage ?budget (pt_chunks p) 0 (sl_total_bytes slots) [] v1 = (Inr (size, bytes, hashed), v2)"
    and size: "size \<noteq> 0" and sum: "sum = h_sha256 h hashed"
    by (auto simp: write_image_field_def act_bind_Inr_iff split: if_splits)
  have up: "under ?d path" "sv_files v1 path = Some []" using c by auto
  have start: "int (length ([] :: u8 list)) = uint (0 :: u64)" "0 \<le> max_file_bytes" by simp_all
  note wr = write_chunks_run [OF chunks spares up start lim]
  note i = inspect_stored_run [OF inspect spares] and f = flush_run(2) [OF flush] flush_run(1) [OF flush spares]
  have content: "sv_files w path = Some hashed" using i f wr up(1) by simp
  have "only_writes ?d path v2 w" using i f by (auto simp: only_writes_def)
  with c wr have only: "only_writes ?d path v w" by (blast intro: only_writes_trans)
  have later: "sv_step v < sv_step w" using c wr \<open>only_writes ?d path v2 w\<close> by (simp add: only_writes_def)
  have "length hashed \<noteq> 0"
  proof
    assume "length hashed = 0"
    with wr have "uint size = 0" by simp
    with size show False by (simp only: uint_0_iff)
  qed
  let ?i = "\<lparr>ni_storage_key = key, ni_display_name = name, ni_media_type = im_media_type meta,
       ni_byte_size = size, ni_width = im_width meta, ni_height = im_height meta, ni_checksum_sha256 = sum\<rparr>"
  from \<open>length hashed \<noteq> 0\<close> have "describes h ?d (sv_files w) ?i"
    unfolding describes_def
    by (intro exI [of _ path] exI [of _ hashed] exI [of _ meta]) (use c wr i sum content up in \<open>simp add: resolve_batch_key\<close>)
  then show ?thesis using few c wr only later by (intro exI [of _ ?i]) (simp add: slots')
qed

lemma stage_image_inv:
  assumes run: "stage_image h (lit ''inputs/'' @ hyphenated u) usage p slots v = (Inr slots', w)"
    and inv: "staged_inv h u usage slots v" and spares: "spares_directory h (batch_directory u)"
    and inj: "inj_on (h_uuid h) {..<sv_step w}"
  shows "staged_inv h u usage slots' w"
proof -
  let ?d = "batch_directory u"
  from inv have lim: "within_limits usage (ac_storage_budget_bytes (h_config h)) (sl_total_bytes slots)"
    by (simp add: staged_inv_def)
  from stage_image_run [OF run lim spares] obtain i where
    slots': "slots' = slots\<lparr>sl_inputs := sl_inputs slots @ [i], sl_total_bytes := sl_total_bytes slots'\<rparr>"
    and few: "length (sl_inputs slots) < max_files_per_job" and key: "ni_storage_key i = batch_key h u (sv_step v)"
    and new: "describes h ?d (sv_files w) i"
    and lim': "within_limits usage (ac_storage_budget_bytes (h_config h)) (sl_total_bytes slots')"
    and sum: "uint (sl_total_bytes slots') = uint (sl_total_bytes slots) + uint (ni_byte_size i)"
    and only: "only_writes ?d (?d @ [hyphenated (h_uuid h (sv_step v))]) v w" and later: "sv_step v < sv_step w"
    by blast
  have inputs: "sl_inputs slots' = sl_inputs slots @ [i]" using slots' by (metis staged_slots.select_convs(8) staged_slots.surjective staged_slots.update_convs(8) staged_slots.update_convs(9))
  have old: "describes h ?d (sv_files w) k \<and> (\<exists>n < sv_step v. ni_storage_key k = batch_key h u n)"
    if "k \<in> set (sl_inputs slots)" for k
  proof -
    from that inv obtain n where n: "describes h ?d (sv_files v) k" "n < sv_step v" "ni_storage_key k = batch_key h u n"
      unfolding staged_inv_def by blast
    have "h_uuid h n \<noteq> h_uuid h (sv_step v)" using n(2) inj later by (auto simp: inj_on_def)
    then have "describes h ?d (sv_files w) k"
      using only by (intro describes_frame [OF n(1)]) (auto simp: n(3) resolve_batch_key only_writes_def hyphenated_inj)
    with n show ?thesis by blast
  qed
  have "ni_storage_key k \<noteq> ni_storage_key i" if "k \<in> set (sl_inputs slots)" for k
    using old [OF that] key batch_key_inj [OF inj _ later] later by (metis less_irrefl less_trans)
  then have "ni_storage_key i \<notin> ni_storage_key ` set (sl_inputs slots)" by (metis imageE)
  moreover have "\<exists>n < sv_step w. ni_storage_key k = batch_key h u n" if "k \<in> set (sl_inputs slots')" for k
    using that old key later unfolding inputs by (auto intro: less_trans)
  moreover have "\<forall>k \<in> set (sl_inputs slots'). describes h ?d (sv_files w) k"
    using old new unfolding inputs by auto
  ultimately show ?thesis
    using inv few lim' sum unfolding staged_inv_def inputs by (simp add: bytes_of_def)
qed

lemma stage_text_inputs:
  assumes "stage_text h target name p slots = Inr slots'"
  shows "sl_inputs slots' = sl_inputs slots \<and> sl_total_bytes slots' = sl_total_bytes slots"
  using assms unfolding stage_text_def
  by (auto simp: try_bind_Inr_iff split: if_split_asm)

lemma stage_field_inv:
  assumes "stage_field h (lit ''inputs/'' @ hyphenated u) target usage p slots v = (Inr slots', w)"
    and "staged_inv h u usage slots v" and "spares_directory h (batch_directory u)" and "inj_on (h_uuid h) {..<sv_step w}"
  shows "staged_inv h u usage slots' w"
proof (cases "(case pt_name p of None \<Rightarrow> [] | Some name \<Rightarrow> name) = lit ''images''")
  case True
  with assms(1) have "stage_image h (lit ''inputs/'' @ hyphenated u) usage p slots v = (Inr slots', w)"
    by (simp add: stage_field_def Let_def)
  from stage_image_inv [OF this assms(2-4)] show ?thesis .
next
  case False
  with assms(1) have "stage_text h target (case pt_name p of None \<Rightarrow> [] | Some name \<Rightarrow> name) p slots = Inr slots'" "w = v"
    by (simp_all add: stage_field_def Let_def)
  with stage_text_inputs [OF this(1)] assms(2) show ?thesis by (simp add: staged_inv_def)
qed

text \<open>Steps are only counted up.\<close>

definition forward :: "('e, 'a) action \<Rightarrow> bool" where
  "forward m \<longleftrightarrow> (\<forall>v. sv_step v \<le> sv_step (snd (m v)))"

lemma forward_bind:
  assumes "forward m" and "\<And>x. forward (f x)"
  shows "forward (act_bind m f)"
  unfolding forward_def act_bind_def
proof (intro allI)
  fix v
  obtain r u where m: "m v = (r, u)" by fastforce
  then have "sv_step v \<le> sv_step u" using assms(1) unfolding forward_def by (metis snd_conv)
  also have "\<dots> \<le> sv_step (snd (f x u))" for x using assms(2) unfolding forward_def by blast
  finally show "sv_step v \<le> sv_step (snd (case m v of (Inl e, v') \<Rightarrow> (Inl e, v') | (Inr x, v') \<Rightarrow> f x v'))"
    using m \<open>sv_step v \<le> sv_step u\<close> by (cases r) simp_all
qed

lemma forward_simple:
  "forward (act_return x)" "forward (act_lift r)" "forward (act_guard ok e)" "forward (act_value g)"
  "forward (file_step h k)" "forward (inspect_stored h key)"
  by (auto simp: forward_def act_value_def file_step_def inspect_stored_def Let_def split: prod.split)

lemma forward_map_err: "forward m \<Longrightarrow> forward (act_map_err f m)"
  by (simp add: forward_def act_map_err_def split: prod.split) (metis snd_conv)

lemma forward_write_chunks: "forward (write_chunks h path usage budget chunks fb tb hs)"
  by (induction chunks arbitrary: fb tb hs)
    (auto simp: write_all_def intro!: forward_bind forward_map_err forward_simple)

lemma forward_stage_parts: "forward (stage_parts h prefix target usage ps slots)"
proof (induction ps arbitrary: slots)
  case (Cons p ps)
  have "forward (create_file h prefix)" "forward (flush h)"
    unfolding create_file_def flush_def Let_def by (intro forward_bind forward_simple)+
  moreover have "forward (write_image_field h p path total usage budget)" for path total budget
    unfolding write_image_field_def case_prod_beta by (intro forward_bind forward_simple forward_write_chunks)
  ultimately have "forward (stage_image h prefix usage p slots)"
    unfolding stage_image_def Let_def case_prod_beta by (intro forward_bind forward_map_err forward_simple)
  then have "forward (stage_field h prefix target usage p slots)"
    unfolding stage_field_def Let_def by (simp add: forward_simple)
  then show ?case unfolding stage_parts.simps by (intro forward_bind Cons.IH)
qed (simp add: forward_simple)

lemma stage_parts_inv:
  assumes "stage_parts h (lit ''inputs/'' @ hyphenated u) target usage ps slots v = (Inr slots', w)"
    and "staged_inv h u usage slots v" and "spares_directory h (batch_directory u)" and "inj_on (h_uuid h) {..<sv_step w}"
  shows "staged_inv h u usage slots' w"
  using assms
proof (induction ps arbitrary: slots v)
  case (Cons p ps)
  from Cons.prems(1) obtain mid u1 where
    field: "stage_field h (lit ''inputs/'' @ hyphenated u) target usage p slots v = (Inr mid, u1)"
    and rest: "stage_parts h (lit ''inputs/'' @ hyphenated u) target usage ps mid u1 = (Inr slots', w)"
    unfolding stage_parts.simps act_bind_Inr_iff by (elim exE conjE)
  have "sv_step u1 \<le> sv_step w" using forward_stage_parts rest unfolding forward_def by (metis snd_conv)
  then have "inj_on (h_uuid h) {..<sv_step u1}" by (intro inj_on_subset [OF Cons.prems(4)]) auto
  with stage_field_inv [OF field Cons.prems(2,3)] Cons.IH [OF rest _ Cons.prems(3,4)] show ?case by blast
qed simp

lemma staged_result_inputs: "staged_result slots = Inr r \<Longrightarrow> sf_inputs r = sl_inputs slots \<and> sf_inputs r \<noteq> []"
  by (auto simp: staged_result_def try_bind_Inr_iff split: if_splits)

lemma stage_request_inv:
  assumes "stage_request h body target v = (Inr (prefix, r), w)"
    and "spares_directory h (upload_directory h v)" and "inj_on (h_uuid h) {..<sv_step w}"
  obtains usage slots where "staged_inv h (h_uuid h (Suc (sv_step v))) usage slots w" and "h_usage h (sv_step v) = Inr usage"
    and "sf_inputs r = sl_inputs slots" and "sf_inputs r \<noteq> []"
proof -
  from assms(1) obtain usage v1 body' prefix' v2 staged v3 where
    usage: "storage_usage h v = (Inr usage, v1)" and begin': "begin_upload h v1 = (Inr prefix', v2)"
    and stage: "(act_result (stage_fields h prefix' body' target usage) :: (api_error + staged_image_fields) handler) v2 =
      (Inr staged, v3)"
    and rest: "(case staged of Inl error \<Rightarrow> cleaned_up h prefix' (act_fail error) | Inr r \<Rightarrow> act_return (prefix', r)) v3
      = (Inr (prefix, r), w)"
    unfolding stage_request_def act_bind_Inr_iff act_Inr_iff act_map_err_Inr_iff
    by (elim exE conjE) (hypsubst, rule that; assumption)
  have "staged = Inr r \<and> w = v3"
    using rest by (cases staged) (auto simp: cleaned_up_def act_bind_Inr_iff)
  then have "stage_fields h prefix' body' target usage v2 = (Inr r, w)"
    using stage by (auto simp: act_result_def split: prod.splits)
  then obtain slots where
    parts: "stage_parts h prefix' target usage (mp_parts body') empty_slots v2 = (Inr slots, w)"
    and result: "staged_result slots = Inr r"
    by (auto simp: stage_fields_def act_bind_Inr_iff)
  have v1: "v1 = v\<lparr>sv_step := Suc (sv_step v)\<rparr>" by (rule storage_usage_run [OF usage])
  have prefix: "prefix' = lit ''inputs/'' @ hyphenated (h_uuid h (Suc (sv_step v)))"
    using begin_upload_run(2) [OF begin' refl] v1 by simp
  from usage have measured: "h_usage h (sv_step v) = Inr usage" "\<not> usage \<ge> ac_storage_budget_bytes (h_config h)"
    by (auto simp: storage_usage_def act_bind_Inr_iff act_value_def)
  then have "staged_inv h (h_uuid h (Suc (sv_step v))) usage empty_slots v2"
    by (simp add: staged_inv_def empty_slots_def bytes_of_def within_limits_def max_total_file_bytes_def word_le_def)
  from stage_parts_inv [OF parts [unfolded prefix] this assms(2) [unfolded upload_directory_def] assms(3)]
    staged_result_inputs [OF result] measured(1) that
  show thesis by blast
qed

text \<open>C40. The inputs of an accepted upload describe what is stored: between one and ten inputs, each in a file of its own
  in the directory of the batch, non-empty and within the limit on a file, with the size, the digest, the type and
  the dimensions of that file, and together within the limit on a request and the room left in the storage. It holds when the identifiers
  drawn during the upload differ and nothing else touches the directory.\<close>
theorem staged_inputs_describe_files:
  assumes "stage_request h body target v = (Inr (prefix, r), w)"
    and "spares_directory h (upload_directory h v)" and "inj_on (h_uuid h) {..<sv_step w}"
  shows "sf_inputs r \<noteq> [] \<and> length (sf_inputs r) \<le> 10 \<and> distinct (List.map ni_storage_key (sf_inputs r)) \<and>
     (\<forall>i \<in> set (sf_inputs r). describes h (upload_directory h v) (sv_files w) i) \<and>
     bytes_of (sf_inputs r) \<le> 25 * 1024 * 1024 \<and>
     (\<exists>usage. h_usage h (sv_step v) = Inr usage \<and>
        uint usage + bytes_of (sf_inputs r) \<le> uint (ac_storage_budget_bytes (h_config h)))"
proof -
  from stage_request_inv [OF assms] obtain usage slots where
    "staged_inv h (h_uuid h (Suc (sv_step v))) usage slots w" "h_usage h (sv_step v) = Inr usage"
    "sf_inputs r = sl_inputs slots" "sf_inputs r \<noteq> []" .
  then show ?thesis
    by (auto simp: staged_inv_def upload_directory_def within_limits_def max_total_file_bytes_def max_files_per_job_def)
qed

section \<open>An example\<close>

definition ex_image :: part where
  "ex_image = \<lparr>pt_name = Some (lit ''images''), pt_file_name = Some (lit ''a/b.jpg''), pt_chunks = [[1, 2], [3]], pt_broken = False\<rparr>"

definition ex_name_field :: part where
  "ex_name_field = \<lparr>pt_name = Some (lit ''name''), pt_file_name = None, pt_chunks = [[110]], pt_broken = False\<rparr>"

lemma ex_usage: "storage_usage ex_host v = (Inr 100, v\<lparr>sv_step := Suc (sv_step v)\<rparr>)"
  by (simp add: storage_usage_def act_bind_def act_value_def ex_host_def app_config_default_def
      default_storage_budget_bytes_def)

lemma ex_begin: "begin_upload ex_host v =
   (Inr (lit ''inputs/'' @ hyphenated (h_uuid ex_host (sv_step v))), v\<lparr>sv_step := sv_step v + 2\<rparr>)"
  by (simp add: begin_upload_def Let_def act_bind_def act_value_def resolve_batch ex_host_def)

lemma ex_name_stage:
  "sl_name slots = None \<Longrightarrow> stage_field h prefix target usage ex_name_field slots v = (Inr (slots\<lparr>sl_name := Some [110]\<rparr>), v)"
  by (simp add: stage_field_def ex_name_field_def stage_text_def read_small_text_def max_text_field_bytes_def set_once_def
      continuation_bytes_def well_formed_char_def code_point_def lead_bits_def scalar_def utf8_char.simps)

lemma ex_create: "create_file ex_host (lit ''inputs/'' @ hyphenated u) v =
   (let path = batch_directory u @ [hyphenated (h_uuid ex_host (sv_step v))]
    in (Inr (batch_key ex_host u (sv_step v), path), v\<lparr>sv_files := (sv_files v)(path \<mapsto> []), sv_step := sv_step v + 2\<rparr>))"
  using resolve_batch_file [of u "h_uuid ex_host (sv_step v)"]
  by (simp add: create_file_def Let_def act_bind_def act_value_def file_step_def batch_key_def disturbed_def ex_host_def)

lemma ex_write: "write_chunks ex_host path 100 (2 ^ 30) [[1, 2], [3]] 0 0 [] v =
   (Inr (3, 3, [1, 2, 3]),
    v\<lparr>sv_files := append_to path [3] (append_to path [1, 2] (sv_files v)), sv_step := sv_step v + 2\<rparr>)"
  by (simp add: act_bind_def act_map_err_def to_word_def checked_add_u64_def max_file_bytes_def max_total_file_bytes_def
      write_all_def file_step_def disturbed_def ex_host_def)

lemma ex_inspect:
  assumes "resolve_key key = Inr path" and "sv_files v path = Some content"
  shows "inspect_stored ex_host key v =
   (Inr \<lparr>im_media_type = lit ''image/jpeg'', im_width = 4, im_height = 2\<rparr>, v\<lparr>sv_step := Suc (sv_step v)\<rparr>)"
  using assms
  by (simp add: inspect_stored_def disturbed_def inspect_def inspect_path_def read_file_def ex_host_def
      validate_dimensions_def to_word_def max_image_dimension_def max_image_pixels_def)

lemma ex_image_stage:
  assumes "sl_inputs slots = []" and "sl_total_bytes slots = 0"
  shows "\<exists>i w. stage_field ex_host (lit ''inputs/'' @ hyphenated u) target 100 ex_image slots v =
      (Inr (slots\<lparr>sl_inputs := [i], sl_total_bytes := 3\<rparr>), w) \<and> sv_step w = sv_step v + 6 \<and>
    sv_files w (batch_directory u @ [hyphenated (h_uuid ex_host (sv_step v))]) = Some [1, 2, 3]"
proof -
  let ?path = "batch_directory u @ [hyphenated (h_uuid ex_host (sv_step v))]"
  let ?v1 = "v\<lparr>sv_files := (sv_files v)(?path \<mapsto> []), sv_step := sv_step v + 2\<rparr>"
  let ?v2 = "?v1\<lparr>sv_files := append_to ?path [3] (append_to ?path [1, 2] (sv_files ?v1)), sv_step := sv_step v + 4\<rparr>"
  let ?v3 = "?v2\<lparr>sv_step := sv_step v + 5\<rparr>"
  have file_name: "pt_file_name ex_image = Some (lit ''a/b.jpg'')" by (simp add: ex_image_def)
  have budget: "ac_storage_budget_bytes (h_config ex_host) = 2 ^ 30"
    by (simp add: ex_host_def app_config_default_def default_storage_budget_bytes_def)
  have write_field: "write_image_field ex_host ex_image ?path 0 100 (2 ^ 30) ?v1 = (Inr (3, 3, h_sha256 ex_host [1, 2, 3]), ?v2)"
    using ex_write [of ?path ?v1] by (simp add: write_image_field_def act_bind_def ex_image_def)
  have flushed: "flush ex_host ?v2 = (Inr (), ?v3)"
    by (simp add: flush_def file_step_def disturbed_def ex_host_def)
  have content: "sv_files ?v3 ?path = Some [1, 2, 3]" by (simp add: append_to_def)
  note inspected = ex_inspect [OF resolve_batch_key [of ex_host u "sv_step v"] content]
  have "stage_field ex_host (lit ''inputs/'' @ hyphenated u) target 100 ex_image slots v =
      stage_image ex_host (lit ''inputs/'' @ hyphenated u) 100 ex_image slots v"
    by (simp add: stage_field_def ex_image_def)
  moreover have "\<exists>i. stage_image ex_host (lit ''inputs/'' @ hyphenated u) 100 ex_image slots v =
      (Inr (slots\<lparr>sl_inputs := [i], sl_total_bytes := 3\<rparr>), ?v3\<lparr>sv_step := sv_step v + 6\<rparr>)"
    unfolding stage_image_def act_bind_def
    using write_field flushed inspected assms
    by (simp add: ex_create Let_def act_map_err_def budget max_files_per_job_def file_name) (rule exI, rule refl)
  ultimately show ?thesis using content by auto
qed

definition ex_body :: "part list \<Rightarrow> multipart option" where
  "ex_body parts = Some \<lparr>mp_parts = parts, mp_broken = False\<rparr>"

lemma ex_prepared:
  "storage_usage ex_host ex_server = (Inr 100, ex_server\<lparr>sv_step := Suc 0\<rparr>)"
  "begin_upload ex_host (ex_server\<lparr>sv_step := Suc 0\<rparr>) =
     (Inr (lit ''inputs/'' @ hyphenated (h_uuid ex_host (Suc 0))), ex_server\<lparr>sv_step := 3\<rparr>)"
  by (simp_all add: ex_usage ex_begin ex_step)

lemma ex_staged:
  "\<exists>prefix r w. stage_request ex_host (ex_body [ex_name_field, ex_image]) JobTarget ex_server = (Inr (prefix, r), w) \<and>
     sv_step w = 9"
proof -
  let ?u = "h_uuid ex_host (Suc 0)"
  let ?slots = "empty_slots\<lparr>sl_name := Some [110]\<rparr>"
  obtain i w where image: "stage_field ex_host (lit ''inputs/'' @ hyphenated ?u) JobTarget 100 ex_image ?slots
      (ex_server\<lparr>sv_step := 3\<rparr>) = (Inr (?slots\<lparr>sl_inputs := [i], sl_total_bytes := 3\<rparr>), w)"
    and w: "sv_step w = 9"
    using ex_image_stage [of ?slots ?u JobTarget "ex_server\<lparr>sv_step := 3\<rparr>"] by (auto simp: empty_slots_def)
  have name: "stage_field ex_host (lit ''inputs/'' @ hyphenated ?u) JobTarget 100 ex_name_field empty_slots
      (ex_server\<lparr>sv_step := 3\<rparr>) = (Inr ?slots, ex_server\<lparr>sv_step := 3\<rparr>)"
    by (rule ex_name_stage) (simp add: empty_slots_def)
  have "\<exists>r. staged_result (?slots\<lparr>sl_inputs := [i], sl_total_bytes := 3\<rparr>) = Inr r"
    by (simp add: staged_result_def job_name_new_def trim_def strip_def is_whitespace_def max_job_name_length_def)
  then obtain r where "staged_result (?slots\<lparr>sl_inputs := [i], sl_total_bytes := 3\<rparr>) = Inr r" by blast
  with image name have "stage_request ex_host (ex_body [ex_name_field, ex_image]) JobTarget ex_server =
      (Inr (lit ''inputs/'' @ hyphenated ?u, r), w)"
    by (simp add: stage_request_def stage_fields_def act_bind_def act_result_def act_map_err_def ex_prepared ex_body_def)
  with w show ?thesis by blast
qed

lemma ex_spares: "spares_directory ex_host d"
  by (simp add: spares_directory_def ex_host_def)

theorem staged_inputs_describe_files_witness:
  "\<exists>prefix r w. stage_request ex_host (ex_body [ex_name_field, ex_image]) JobTarget ex_server = (Inr (prefix, r), w) \<and>
     (\<forall>i \<in> set (sf_inputs r). describes ex_host (upload_directory ex_host ex_server) (sv_files w) i) \<and> sf_inputs r \<noteq> []"
proof -
  obtain prefix r w where
    run: "stage_request ex_host (ex_body [ex_name_field, ex_image]) JobTarget ex_server = (Inr (prefix, r), w)" and w: "sv_step w = 9"
    using ex_staged by blast
  have "inj_on (h_uuid ex_host) {..<sv_step w}"
    by (auto simp: inj_on_def w ex_host_def word_of_nat_eq_iff take_bit_nat_eq_self)
  from staged_inputs_describe_files [OF run ex_spares this] run show ?thesis by blast
qed

theorem refused_upload_leaves_no_file_witness:
  "\<exists>e w. api_create_image_job ex_host owner_user_id None (ex_body [ex_image]) ex_server = (Inl e, w) \<and>
     ae_code e = ''missing_name'' \<and> clean (upload_directory ex_host ex_server) w"
proof -
  let ?u = "h_uuid ex_host (Suc 0)"
  obtain i w where image: "stage_field ex_host (lit ''inputs/'' @ hyphenated ?u) JobTarget 100 ex_image empty_slots
      (ex_server\<lparr>sv_step := 3\<rparr>) = (Inr (empty_slots\<lparr>sl_inputs := [i], sl_total_bytes := 3\<rparr>), w)"
    using ex_image_stage [of empty_slots ?u JobTarget "ex_server\<lparr>sv_step := 3\<rparr>"] by (auto simp: empty_slots_def)
  have "\<exists>e. staged_result (empty_slots\<lparr>sl_inputs := [i], sl_total_bytes := 3\<rparr>) = Inl e \<and> ae_code e = ''missing_name''"
    by (simp add: staged_result_def empty_slots_def upload_validation_def)
  then obtain e where missing: "staged_result (empty_slots\<lparr>sl_inputs := [i], sl_total_bytes := 3\<rparr>) = Inl e"
    and code: "ae_code e = ''missing_name''" by blast
  with image have "\<exists>x. stage_request ex_host (ex_body [ex_image]) JobTarget ex_server = (Inl e, x)"
    by (simp add: stage_request_def stage_fields_def act_bind_def act_result_def act_map_err_def cleaned_up_def
        ex_prepared ex_body_def split: prod.split)
  then obtain x where stage: "stage_request ex_host (ex_body [ex_image]) JobTarget ex_server = (Inl e, x)" ..
  then have run: "api_create_image_job ex_host owner_user_id None (ex_body [ex_image]) ex_server = (Inl e, x)"
    by (simp add: api_create_image_job_def act_bind_def)
  have "\<forall>n. \<not> h_remove_fails ex_host n" by (simp add: ex_host_def)
  moreover have "clean (upload_directory ex_host ex_server) ex_server"
    by (simp add: clean_def ex_server_def app_with_config_def)
  ultimately have "clean (upload_directory ex_host ex_server) x"
    using refused_upload_leaves_no_file [OF run] stage by (simp add: creation_refused_def)
  with run code show ?thesis by blast
qed

section \<open>Schedules\<close>

text \<open>An upload of a schedule without its interval is refused after its files have been staged, and keeps them: unlike every
  other refusal it does not clean up the batch.\<close>

lemma incomplete_schedule_keeps_files:
  assumes run: "stage_request h body ScheduleTarget v = (Inr (prefix, r), w)" and "sf_interval_seconds r = None"
    and "spares_directory h (upload_directory h v)" and "inj_on (h_uuid h) {..<sv_step w}"
  shows "\<exists>e. api_create_schedule h owner body v = (Inl e, w) \<and> ae_code e = ''missing_interval'' \<and>
     \<not> clean (upload_directory h v) w"
proof -
  from stage_request_inv [OF run assms(3,4)] obtain usage slots where
    "staged_inv h (h_uuid h (Suc (sv_step v))) usage slots w" "sf_inputs r = sl_inputs slots" "sf_inputs r \<noteq> []" .
  then obtain i where "describes h (upload_directory h v) (sv_files w) i"
    unfolding staged_inv_def upload_directory_def by (metis list.set_intros(1) neq_Nil_conv)
  then have "\<not> clean (upload_directory h v) w" by (auto simp: describes_def clean_def)
  moreover have "\<exists>e. api_create_schedule h owner body v = (Inl e, w) \<and> ae_code e = ''missing_interval''"
    using run assms(2) by (auto simp: api_create_schedule_def act_bind_def upload_validation_def)
  ultimately show ?thesis by blast
qed

end
