(* ===== verification/Responses.thy ===== *)
theory Responses
  imports Auth Schedules
begin

text \<open>
  What the API answers with (\<open>apps/api/src/http.rs\<close>, \<open>apps/api/src/error.rs\<close>): the bodies it builds from the records of the
  repository. The serialisation to JSON is the library's.
\<close>

section \<open>Parts\<close>

record image_settings_response =
  zs_max_width :: u32
  zs_jpeg_quality :: u8
  zs_output_media_type :: string
  zs_transparency_background :: string

definition image_settings_response_new :: "u32 \<Rightarrow> u8 \<Rightarrow> image_settings_response" where
  "image_settings_response_new max_width jpeg_quality =
     \<lparr>zs_max_width = max_width, zs_jpeg_quality = jpeg_quality, zs_output_media_type = ''image/jpeg'',
      zs_transparency_background = ''white''\<rparr>"

record progress_response =
  pg_completed :: u32
  pg_total :: u32

record job_result_response =
  jz_message :: ustring
  jz_duration_ms :: "u64 option"

datatype job_status_response =
  QueuedResponse | RunningResponse | RetryWaitingResponse | CancelRequestedResponse | SucceededResponse
| FailedResponse | CancelledResponse

fun job_status_response_from :: "job_status \<Rightarrow> job_status_response" where
  "job_status_response_from Queued = QueuedResponse"
| "job_status_response_from Running = RunningResponse"
| "job_status_response_from RetryWaiting = RetryWaitingResponse"
| "job_status_response_from CancelRequested = CancelRequestedResponse"
| "job_status_response_from Succeeded = SucceededResponse"
| "job_status_response_from Failed = FailedResponse"
| "job_status_response_from Cancelled = CancelledResponse"

datatype attempt_status_response = RunningAttempt | SucceededAttempt | FailedAttempt | CancelledAttempt

fun attempt_status_response_from :: "attempt_status \<Rightarrow> attempt_status_response" where
  "attempt_status_response_from ARunning = RunningAttempt"
| "attempt_status_response_from ASucceeded = SucceededAttempt"
| "attempt_status_response_from AFailed = FailedAttempt"
| "attempt_status_response_from ACancelled = CancelledAttempt"

datatype job_type_response = DemoDelayResponse | ImageResizeResponse

fun job_type_response_from :: "job_type \<Rightarrow> job_type_response" where
  "job_type_response_from DemoDelay = DemoDelayResponse"
| "job_type_response_from ImageResize = ImageResizeResponse"

record artifact_response =
  fz_id :: u64
  fz_item_index :: u16
  fz_filename :: ustring
  fz_media_type :: ustring
  fz_byte_size :: u64
  fz_width :: u32
  fz_height :: u32
  fz_download_url :: "ustring option"

definition artifact_response_new :: "artifact_record \<Rightarrow> ustring option \<Rightarrow> artifact_response" where
  "artifact_response_new artifact download_url =
     \<lparr>fz_id = art_id artifact, fz_item_index = art_item_index artifact, fz_filename = art_display_name artifact,
      fz_media_type = art_media_type artifact, fz_byte_size = art_byte_size artifact, fz_width = art_width artifact,
      fz_height = art_height artifact, fz_download_url = download_url\<rparr>"

definition artifact_response_input :: "artifact_record \<Rightarrow> artifact_response" where
  "artifact_response_input artifact = artifact_response_new artifact None"

definition artifact_response_output :: "artifact_record \<Rightarrow> artifact_response" where
  "artifact_response_output artifact =
     artifact_response_new artifact
       (Some (lit (''/api/v1/artifacts/'' @ show_nat (unat (art_id artifact)) @ ''/download'')))"

record attempt_worker_response =
  vz_id :: ustring
  vz_name :: ustring

record attempt_response =
  tz_id :: int
  tz_number :: u32
  tz_status :: attempt_status_response
  tz_progress :: progress_response
  tz_started_at :: timestamp
  tz_finished_at :: "timestamp option"
  tz_duration_ms :: "u64 option"
  tz_queue_wait_ms :: u64
  tz_encoding_duration_ms :: u64
  tz_error_kind :: "ustring option"
  tz_error_message :: "ustring option"
  tz_worker :: "attempt_worker_response option"
  tz_lease_expires_at :: "timestamp option"

definition attempt_response_from :: "attempt_record \<Rightarrow> attempt_response" where
  "attempt_response_from attempt =
     \<lparr>tz_id = at_id attempt, tz_number = at_number attempt,
      tz_status = attempt_status_response_from (at_status attempt),
      tz_progress = \<lparr>pg_completed = at_progress_completed attempt, pg_total = at_progress_total attempt\<rparr>,
      tz_started_at = at_started_at attempt, tz_finished_at = at_finished_at attempt,
      tz_duration_ms = at_duration_ms attempt, tz_queue_wait_ms = at_queue_wait_ms attempt,
      tz_encoding_duration_ms = at_encoding_duration_ms attempt, tz_error_kind = at_error_kind attempt,
      tz_error_message = at_error_message attempt,
      tz_worker = map_option (\<lambda>worker_id. \<lparr>vz_id = hyphenated worker_id,
        vz_name = (case at_worker_name attempt of None \<Rightarrow> lit ''unknown worker'' | Some name \<Rightarrow> name)\<rparr>)
        (at_worker_id attempt),
      tz_lease_expires_at = at_lease_expires_at attempt\<rparr>"

section \<open>Jobs\<close>

record job_response =
  jp_id :: u64
  jp_name :: ustring
  jp_job_type :: job_type_response
  jp_status :: job_status_response
  jp_progress :: progress_response
  jp_delay_ms :: "u64 option"
  jp_image_settings :: "image_settings_response option"
  jp_inputs :: "artifact_response list"
  jp_outputs :: "artifact_response list"
  jp_attempts :: "attempt_response list"
  jp_available_at :: timestamp
  jp_priority :: ustring
  jp_schedule_id :: "u64 option"
  jp_scheduled_for :: "timestamp option"
  jp_max_attempts :: u32
  jp_retry_of_job_id :: "u64 option"
  jp_result :: "job_result_response option"
  jp_failure_message :: "ustring option"
  jp_cancel_requested_at :: "timestamp option"
  jp_created_at :: timestamp
  jp_started_at :: "timestamp option"
  jp_finished_at :: "timestamp option"

definition job_response_from :: "job_record \<Rightarrow> job_response" where
  "job_response_from r =
     \<lparr>jp_id = job_id_get (jb_id (rec_job r)), jp_name = job_name_as_str (jb_name (rec_job r)),
      jp_job_type = job_type_response_from (jb_type (rec_job r)),
      jp_status = job_status_response_from (jb_status (rec_job r)),
      jp_progress = \<lparr>pg_completed = rec_progress_completed r, pg_total = rec_progress_total r\<rparr>,
      jp_delay_ms = (case rec_settings r of SDemoDelay delay_ms \<Rightarrow> Some delay_ms | SImageResize _ _ \<Rightarrow> None),
      jp_image_settings = (case rec_settings r of
         SDemoDelay _ \<Rightarrow> None
       | SImageResize max_width jpeg_quality \<Rightarrow> Some (image_settings_response_new max_width jpeg_quality)),
      jp_inputs = List.map artifact_response_input (rec_inputs r),
      jp_outputs = List.map artifact_response_output (rec_outputs r),
      jp_attempts = List.map attempt_response_from (rec_attempts r),
      jp_available_at = rec_available_at r, jp_priority = job_priority_as_str (rec_priority r),
      jp_schedule_id = map_option schedule_id_get (rec_schedule_id r), jp_scheduled_for = rec_scheduled_for r,
      jp_max_attempts = rec_max_attempts r, jp_retry_of_job_id = map_option job_id_get (rec_retry_of r),
      jp_result = map_option (\<lambda>message. \<lparr>jz_message = message, jz_duration_ms = rec_result_duration_ms r\<rparr>)
        (rec_result_message r),
      jp_failure_message = rec_failure_message r, jp_cancel_requested_at = rec_cancel_requested_at r,
      jp_created_at = rec_created_at r, jp_started_at = rec_started_at r, jp_finished_at = rec_finished_at r\<rparr>"

section \<open>Schedules and workers\<close>

record schedule_input_response =
  uz_id :: u64
  uz_item_index :: u16
  uz_filename :: ustring
  uz_media_type :: ustring
  uz_byte_size :: u64
  uz_width :: u32
  uz_height :: u32

definition schedule_input_response_from :: "schedule_input_record \<Rightarrow> schedule_input_response" where
  "schedule_input_response_from i =
     \<lparr>uz_id = sir_id i, uz_item_index = sir_item_index i, uz_filename = sir_display_name i,
      uz_media_type = sir_media_type i, uz_byte_size = sir_byte_size i, uz_width = sir_width i, uz_height = sir_height i\<rparr>"

record schedule_occurrence_response =
  oz_id :: u64
  oz_scheduled_for :: timestamp
  oz_outcome :: ustring
  oz_job_id :: "u64 option"
  oz_job_status :: "job_status_response option"
  oz_reason :: "ustring option"
  oz_coalesced_slots :: u64
  oz_created_at :: timestamp

definition schedule_occurrence_response_from :: "occurrence_record \<Rightarrow> schedule_occurrence_response" where
  "schedule_occurrence_response_from o' =
     \<lparr>oz_id = or_id o', oz_scheduled_for = or_scheduled_for o', oz_outcome = outcome_as_str (or_outcome o'),
      oz_job_id = map_option job_id_get (or_job_id o'), oz_job_status = map_option job_status_response_from (or_job_status o'),
      oz_reason = or_reason o', oz_coalesced_slots = or_coalesced_slots o', oz_created_at = or_created_at o'\<rparr>"

record schedule_response =
  cz_id :: u64
  cz_name :: ustring
  cz_enabled :: bool
  cz_interval_seconds :: u32
  cz_anchor_at :: timestamp
  cz_next_run_at :: timestamp
  cz_priority :: ustring
  cz_image_settings :: image_settings_response
  cz_inputs :: "schedule_input_response list"
  cz_occurrences :: "schedule_occurrence_response list"
  cz_created_at :: timestamp
  cz_updated_at :: timestamp

definition schedule_response_from :: "schedule_record \<Rightarrow> schedule_response" where
  "schedule_response_from r =
     \<lparr>cz_id = schedule_id_get (sr_id r), cz_name = job_name_as_str (sr_name r), cz_enabled = sr_enabled r,
      cz_interval_seconds = sr_interval_seconds r, cz_anchor_at = sr_anchor_at r, cz_next_run_at = sr_next_run_at r,
      cz_priority = job_priority_as_str (sr_priority r),
      cz_image_settings = image_settings_response_new (sr_max_width r) (sr_jpeg_quality r),
      cz_inputs = List.map schedule_input_response_from (sr_inputs r),
      cz_occurrences = List.map schedule_occurrence_response_from (sr_occurrences r),
      cz_created_at = sr_created_at r, cz_updated_at = sr_updated_at r\<rparr>"

record worker_response =
  wz_id :: ustring
  wz_name :: ustring
  wz_status :: ustring
  wz_concurrency_limit :: u16
  wz_lease_duration_seconds :: u32
  wz_active_attempts :: u32
  wz_started_at :: timestamp
  wz_last_heartbeat_at :: timestamp
  wz_heartbeat_expires_at :: timestamp
  wz_stopped_at :: "timestamp option"

definition worker_response_from :: "worker_record \<Rightarrow> worker_response" where
  "worker_response_from r =
     \<lparr>wz_id = hyphenated (wk_id r), wz_name = wk_name r, wz_status = worker_status_as_str (wk_status r),
      wz_concurrency_limit = wk_concurrency_limit r, wz_lease_duration_seconds = wk_lease_duration_seconds r,
      wz_active_attempts = wk_active_attempts r, wz_started_at = wk_started_at r,
      wz_last_heartbeat_at = wk_last_heartbeat_at r, wz_heartbeat_expires_at = wk_heartbeat_expires_at r,
      wz_stopped_at = wk_stopped_at r\<rparr>"

section \<open>Answers\<close>

record error_body =
  eb_code :: string
  eb_message :: ustring
  eb_field :: "string option"

record download =
  dl_content_type :: string
  dl_content_length :: ustring
  dl_content_disposition :: ustring
  dl_body :: "u8 list"

datatype reply =
  HealthReply | SessionReply session_response | NoContent | JobsReply "job_response list" | JobReply job_response
| WorkersReply "worker_response list" | SchedulesReply "schedule_response list" | ScheduleReply schedule_response
| FileReply download | ErrorReply error_body

record answer =
  an_status :: nat
  an_cookies :: "cookie list"
  an_headers :: "(string \<times> string) list"
  an_body :: reply

definition answer_with :: "nat \<Rightarrow> reply \<Rightarrow> answer" where
  "answer_with status body = \<lparr>an_status = status, an_cookies = [], an_headers = [], an_body = body\<rparr>"

definition into_response :: "api_error \<Rightarrow> answer" where
  "into_response e =
     answer_with (ae_status e) (ErrorReply \<lparr>eb_code = ae_code e, eb_message = ae_message e, eb_field = ae_field e\<rparr>)"

end
