(* ===== verification/Http.thy ===== *)
theory Http
  imports Upload Responses Leases
begin

text \<open>
  The routes of the API (\<open>apps/api/src/http.rs\<close>): a handler for each of them, and the router, which sends all but the health checks
  and the login through the admission of \<open>Auth\<close>. Matching a path and a method to a route, extracting
  the parameters of a route and reading the body of a JSON request are the library's: a request comes with its endpoint.
\<close>

section \<open>Parsing\<close>

definition parse_idempotency_key :: "request \<Rightarrow> api_error + ustring option" where
  "parse_idempotency_key q =
     (case rq_headers q ''idempotency-key'' of
        None \<Rightarrow> Inr None
      | Some value \<Rightarrow>
          (let value = trim (or_default [] value)
           in if value = [] \<or> byte_len value > 128
              then Inl (upload_validation ''invalid_idempotency_key''
                     (lit ''Idempotency-Key must contain between 1 and 128 visible characters'') ''idempotency_key'')
              else Inr (Some value)))"

definition parse_job_id :: "ustring \<Rightarrow> api_error + job_id" where
  "parse_job_id raw_id = map_err (\<lambda>_. job_not_found) (job_id_from_str raw_id)"

definition parse_schedule_id :: "ustring \<Rightarrow> api_error + schedule_id" where
  "parse_schedule_id raw_id = map_err (\<lambda>_. schedule_not_found) (schedule_id_from_str raw_id)"

definition parse_artifact_id :: "ustring \<Rightarrow> api_error + u64" where
  "parse_artifact_id raw_id =
     ok_or artifact_not_found
       (case parse_unsigned 64 raw_id of None \<Rightarrow> None | Some i \<Rightarrow> if i > 0 then Some (of_nat i) else None)"

record update_schedule_request =
  ur_name :: ustring
  ur_enabled :: bool
  ur_interval_seconds :: u32
  ur_anchor_at :: timestamp
  ur_priority :: ustring
  ur_max_width :: u32
  ur_jpeg_quality :: u8

definition update_request_validate :: "update_schedule_request \<Rightarrow> api_error + schedule_update" where
  "update_request_validate r =
     try_bind (map_err invalid_job_name (job_name_new (ur_name r))) (\<lambda>name.
     try_bind (if \<not> (min_schedule_interval_seconds \<le> ur_interval_seconds r \<and>
                      ur_interval_seconds r \<le> max_schedule_interval_seconds)
               then Inl invalid_interval else Inr ()) (\<lambda>_.
     try_bind (map_err (\<lambda>_. invalid_priority) (job_priority_from_str (ur_priority r))) (\<lambda>priority.
     try_bind (if ur_max_width r = 0 \<or> ur_max_width r > max_output_width then Inl invalid_max_width else Inr ()) (\<lambda>_.
     try_bind (if \<not> (1 \<le> ur_jpeg_quality r \<and> ur_jpeg_quality r \<le> 100) then Inl invalid_jpeg_quality else Inr ()) (\<lambda>_.
     Inr \<lparr>su_name = name, su_enabled = ur_enabled r, su_interval_seconds = ur_interval_seconds r,
          su_anchor_at = ur_anchor_at r, su_priority = priority, su_max_width = ur_max_width r,
          su_jpeg_quality = ur_jpeg_quality r\<rparr>)))))"

section \<open>Jobs\<close>

definition check_upload :: "host \<Rightarrow> ustring \<Rightarrow> (duration, unit) action" where
  "check_upload h key v =
     (case check (h_instant h (sv_step v)) key (sv_upload_limiter v) of
        (r, l) \<Rightarrow> (r, v\<lparr>sv_upload_limiter := l, sv_step := sv_step v + 1\<rparr>))"

definition user_key :: "auth_session \<Rightarrow> ustring" where
  "user_key session = lit (show_int (user_id_get (as_user_id session)))"

definition create_job :: "host \<Rightarrow> auth_session \<Rightarrow> request \<Rightarrow> multipart option \<Rightarrow> answer handler" where
  "create_job h session q body =
     act_bind (act_map_err rate_limited (check_upload h (user_key session))) (\<lambda>_.
     act_bind (act_lift (parse_idempotency_key q)) (\<lambda>idempotency_key.
     act_bind (api_create_image_job h (as_user_id session) idempotency_key body) (\<lambda>job.
     act_return (answer_with 201 (JobReply (job_response_from job))))))"

definition list_jobs :: "host \<Rightarrow> auth_session \<Rightarrow> answer handler" where
  "list_jobs h session =
     act_bind (api_call h (\<lambda>_. list_with_owner (Some (as_user_id session)))) (\<lambda>found.
     act_return (answer_with 200 (JobsReply (List.map job_response_from found))))"

definition get_job :: "host \<Rightarrow> auth_session \<Rightarrow> ustring \<Rightarrow> answer handler" where
  "get_job h session raw_id =
     act_bind (act_lift (parse_job_id raw_id)) (\<lambda>i.
     act_bind (api_call h (\<lambda>_. get_with_owner i (Some (as_user_id session)))) (\<lambda>found.
     act_bind (act_lift (ok_or job_not_found found)) (\<lambda>job.
     act_return (answer_with 200 (JobReply (job_response_from job))))))"

definition cancel_job_by_hand :: "host \<Rightarrow> auth_session \<Rightarrow> ustring \<Rightarrow> answer handler" where
  "cancel_job_by_hand h session raw_id =
     act_bind (act_lift (parse_job_id raw_id)) (\<lambda>i.
     act_bind (api_call h (\<lambda>now. request_cancel_with_owner now i (Some (as_user_id session)))) (\<lambda>found.
     act_bind (act_lift (ok_or job_not_found found)) (\<lambda>job.
     act_return (answer_with 200 (JobReply (job_response_from job))))))"

definition retry_job_by_hand :: "host \<Rightarrow> auth_session \<Rightarrow> ustring \<Rightarrow> answer handler" where
  "retry_job_by_hand h session raw_id =
     act_bind (act_lift (parse_job_id raw_id)) (\<lambda>i.
     act_bind (api_call h (\<lambda>now. manual_retry_with_owner now i (Some (as_user_id session)))) (\<lambda>found.
     act_bind (act_lift (ok_or job_not_found found)) (\<lambda>job.
     act_return (answer_with 201 (JobReply (job_response_from job))))))"

section \<open>Schedules and workers\<close>

definition create_schedule_job :: "host \<Rightarrow> auth_session \<Rightarrow> multipart option \<Rightarrow> answer handler" where
  "create_schedule_job h session body =
     act_bind (act_map_err rate_limited (check_upload h (user_key session))) (\<lambda>_.
     act_bind (api_create_schedule h (as_user_id session) body) (\<lambda>schedule.
     act_return (answer_with 201 (ScheduleReply (schedule_response_from schedule)))))"

definition list_schedules :: "host \<Rightarrow> auth_session \<Rightarrow> answer handler" where
  "list_schedules h session =
     act_bind (api_call h (\<lambda>_. list_schedules_with_owner (Some (as_user_id session)))) (\<lambda>found.
     act_return (answer_with 200 (SchedulesReply (List.map schedule_response_from found))))"

definition list_all_workers :: "host \<Rightarrow> answer handler" where
  "list_all_workers h =
     act_bind (api_call h list_workers) (\<lambda>found.
     act_return (answer_with 200 (WorkersReply (List.map worker_response_from found))))"

definition get_schedule :: "host \<Rightarrow> auth_session \<Rightarrow> ustring \<Rightarrow> answer handler" where
  "get_schedule h session raw_id =
     act_bind (act_lift (parse_schedule_id raw_id)) (\<lambda>i.
     act_bind (api_call h (\<lambda>_. get_schedule_with_owner i (Some (as_user_id session)))) (\<lambda>found.
     act_bind (act_lift (ok_or schedule_not_found found)) (\<lambda>schedule.
     act_return (answer_with 200 (ScheduleReply (schedule_response_from schedule))))))"

text \<open>\<open>update_schedule_for_owner\<close> reads the clock of the database first.\<close>

definition update_schedule :: "host \<Rightarrow> auth_session \<Rightarrow> ustring \<Rightarrow> update_schedule_request \<Rightarrow> answer handler" where
  "update_schedule h session raw_id r =
     act_bind (act_lift (parse_schedule_id raw_id)) (\<lambda>i.
     act_bind (act_lift (update_request_validate r)) (\<lambda>update.
     act_bind (api_call h tx_return) (\<lambda>as_of.
     act_bind (api_call h (\<lambda>now. update_schedule_at_with_owner (h_range h) now i update as_of
                 (Some (as_user_id session)))) (\<lambda>found.
     act_bind (act_lift (ok_or schedule_not_found found)) (\<lambda>schedule.
     act_return (answer_with 200 (ScheduleReply (schedule_response_from schedule))))))))"

section \<open>Downloads and health\<close>

definition open_file :: "host \<Rightarrow> ustring \<Rightarrow> (storage_error, u8 list) action" where
  "open_file h key =
     act_bind (act_lift (resolve_key key)) (\<lambda>path.
     file_step h (\<lambda>n fs. (if h_open_fails h n then Inl Io else ok_or Io (fs path), fs)))"

definition download_artifact :: "host \<Rightarrow> auth_session \<Rightarrow> ustring \<Rightarrow> answer handler" where
  "download_artifact h session raw_id =
     act_bind (act_lift (parse_artifact_id raw_id)) (\<lambda>artifact_id.
     act_bind (api_call h (\<lambda>_. get_downloadable_artifact_with_owner artifact_id (Some (as_user_id session)))) (\<lambda>found.
     act_bind (act_lift (ok_or artifact_not_found found)) (\<lambda>artifact.
     act_bind (act_map_err artifact_unavailable (open_file h (art_storage_key artifact))) (\<lambda>content.
     act_return (answer_with 200 (FileReply
       \<lparr>dl_content_type = ''image/jpeg'', dl_content_length = lit (show_nat (unat (art_byte_size artifact))),
        dl_content_disposition = lit (''attachment; filename='' @ [char_of (34 :: nat)] @ ''taskharbor-artifact-'' @
          show_nat (unat artifact_id) @ ''.jpg'' @ [char_of (34 :: nat)]),
        dl_body = content\<rparr>))))))"

text \<open>The readiness probes: a query without tables, and a file that is written and removed again.\<close>

definition repository_ping :: "unit tx" where
  "repository_ping = tx_return ()"

definition storage_ping :: "host \<Rightarrow> (storage_error, unit) action" where
  "storage_ping h =
     act_bind (act_value (h_uuid h)) (\<lambda>u.
     let probe = [lit ''.readiness-'' @ hyphenated u] in
     act_bind (file_step h (\<lambda>n fs. if h_create_fails h n then (Inl Io, fs) else (Inr (), fs(probe \<mapsto> [])))) (\<lambda>_.
     file_step h (\<lambda>n fs. if h_remove_fails h n \<or> fs probe = None then (Inl Io, fs) else (Inr (), fs(probe := None)))))"

definition health :: "host \<Rightarrow> answer handler" where
  "health h =
     act_bind (api_call h (\<lambda>_. repository_ping)) (\<lambda>_.
     act_bind (act_map_err storage_failed (storage_ping h)) (\<lambda>_.
     act_return (answer_with 200 HealthReply)))"

definition liveness :: "answer handler" where
  "liveness = act_return (answer_with 200 HealthReply)"

section \<open>The router\<close>

datatype protected_endpoint =
  CurrentSession | Logout | ListJobs | CreateJob "multipart option" | GetJob ustring | CancelJob ustring
| RetryJob ustring | ListWorkers | ListSchedules | CreateSchedule "multipart option" | GetSchedule ustring
| UpdateSchedule ustring update_schedule_request | DownloadArtifact ustring

datatype endpoint = Health | Liveness | Login login_request | Protected protected_endpoint

fun protected_handler :: "host \<Rightarrow> request \<Rightarrow> protected_endpoint \<Rightarrow> auth_session \<Rightarrow> answer handler" where
  "protected_handler h q CurrentSession session =
     act_bind (current_session h session q) (\<lambda>(cookies, r).
     act_return ((answer_with 200 (SessionReply r))\<lparr>an_cookies := cookies\<rparr>))"
| "protected_handler h q Logout session =
     act_bind (logout h session) (\<lambda>(cookies, status).
     act_return ((answer_with status NoContent)\<lparr>an_cookies := cookies\<rparr>))"
| "protected_handler h q ListJobs session = list_jobs h session"
| "protected_handler h q (CreateJob body) session = create_job h session q body"
| "protected_handler h q (GetJob raw_id) session = get_job h session raw_id"
| "protected_handler h q (CancelJob raw_id) session = cancel_job_by_hand h session raw_id"
| "protected_handler h q (RetryJob raw_id) session = retry_job_by_hand h session raw_id"
| "protected_handler h q ListWorkers session = list_all_workers h"
| "protected_handler h q ListSchedules session = list_schedules h session"
| "protected_handler h q (CreateSchedule body) session = create_schedule_job h session body"
| "protected_handler h q (GetSchedule raw_id) session = get_schedule h session raw_id"
| "protected_handler h q (UpdateSchedule raw_id r) session = update_schedule h session raw_id r"
| "protected_handler h q (DownloadArtifact raw_id) session = download_artifact h session raw_id"

fun endpoint_handler :: "host \<Rightarrow> request \<Rightarrow> endpoint \<Rightarrow> answer handler" where
  "endpoint_handler h q Health = health h"
| "endpoint_handler h q Liveness = liveness"
| "endpoint_handler h q (Login r) =
     act_bind (login h r) (\<lambda>(cookies, status, session).
     act_return ((answer_with status (SessionReply session))\<lparr>an_cookies := cookies\<rparr>))"
| "endpoint_handler h q (Protected c) = require_auth h q (protected_handler h q c)"

text \<open>Errors become answers, and every answer gets the headers that \<open>log_request\<close> inserts.\<close>

definition log_request :: "answer \<Rightarrow> answer" where
  "log_request a =
     a\<lparr>an_headers := an_headers a @
       [(''cache-control'', ''no-store''), (''x-content-type-options'', ''nosniff''), (''referrer-policy'', ''no-referrer'')]\<rparr>"

definition router :: "host \<Rightarrow> request \<Rightarrow> endpoint \<Rightarrow> server \<Rightarrow> answer \<times> server" where
  "router h q e v =
     (case endpoint_handler h q e v of
        (Inl error, v') \<Rightarrow> (log_request (into_response error), v')
      | (Inr answer, v') \<Rightarrow> (log_request answer, v'))"

end
