(* ===== verification/AuthProps.thy ===== *)
theory AuthProps
  imports ApiExample
begin

text \<open>
  What the sign-in of the API guarantees: the comparison of digests is equality, a request reaches a protected
  handler only with a live session and, when it may change something, the session's CSRF token, and a
  login needs the password of an active user.
\<close>

section \<open>Comparing digests\<close>

unbundle bit_operations_syntax

lemma word_xor_zero_iff: "(l :: u8) XOR r = 0 \<longleftrightarrow> l = r"
  by (metis xor.assoc xor.left_neutral xor_self_eq)

lemma fold_difference:
  "foldl (\<lambda>difference (l, r). difference OR (l XOR r)) (acc :: u8) xs = 0 \<longleftrightarrow>
     acc = 0 \<and> (\<forall>(l, r) \<in> set xs. l = r)"
  by (induction xs arbitrary: acc) (auto simp: or_eq_0_iff word_xor_zero_iff)

lemma constant_time_eq_iff [simp]: "constant_time_eq left right \<longleftrightarrow> left = right"
proof (cases "length left = length right")
  case True
  then have "(\<forall>(l, r) \<in> set (zip left right). l = r) \<longleftrightarrow> left = right"
    by (induction left right rule: list_induct2) auto
  then show ?thesis by (auto simp: constant_time_eq_def fold_difference)
qed (auto simp: constant_time_eq_def)

section \<open>Admission\<close>

definition admitted :: "host \<Rightarrow> request \<Rightarrow> timestamp \<Rightarrow> db \<Rightarrow> session_row \<Rightarrow> bool" where
  "admitted h q now s x \<longleftrightarrow>
     x \<in> set (sessions s) \<and>
     (\<exists>raw. rq_cookies q session_cookie_name = Some raw \<and> authenticates now (token_hash h raw) s x) \<and>
     (requires_csrf (rq_method q) \<longrightarrow>
       (\<exists>supplied. header_text q csrf_header = Some supplied \<and> token_hash h supplied = x_csrf_hash x))"

lemma active_session_found:
  assumes inv: "accounts_inv s" and run: "active_session now d s = (Inr (Some rec), t)"
  obtains x where "x \<in> set (sessions s)" and "authenticates now d s x"
    and "sn_user_id rec = UserId (x_user x)" and "sn_csrf_token_hash rec = x_csrf_hash x"
proof -
  from run have len: "length d = 32"
    by (auto simp: active_session_def tx_bind_Inr_iff tx_returns validate_digest_def split: if_splits)
  from run active_session_run [OF inv len] obtain x xs where
    "filter (authenticates now d s) (sessions s) = x # xs" "sn_user_id rec = UserId (x_user x)"
    "sn_csrf_token_hash rec = x_csrf_hash x"
    by (auto split: list.splits if_splits)
  then show thesis using that by (metis filter_eq_ConsD in_set_conv_decomp)
qed

lemma require_auth_cases:
  assumes inv: "accounts_inv (sv_db (disturbed h v))"
  obtains (refused) e w where "\<And>f. require_auth h q f v = (Inl e, w)"
      and "e \<in> {unauthorized, invalid_csrf} \<union> range repository_failed"
  | (passed) x session w where "\<And>f. require_auth h q f v = f session w"
      and "admitted h q (h_clock h (sv_step v)) (sv_db (disturbed h v)) x" and "as_user_id session = UserId (x_user x)"
proof (cases "rq_cookies q session_cookie_name")
  case None
  then have "\<And>f. require_auth h q f v = (Inl unauthorized, v)" by (simp add: require_auth_def act_bind_def)
  then show thesis by (rule refused) simp
next
  case (Some raw)
  let ?now = "h_clock h (sv_step v)" and ?s = "sv_db (disturbed h v)"
  obtain r t where r: "active_session ?now (token_hash h raw) ?s = (r, t)" by fastforce
  define w where "w = (disturbed h v)\<lparr>sv_db := t, sv_step := sv_step v + 1\<rparr>"
  have call: "api_call h (\<lambda>now. active_session now (token_hash h raw)) v = (map_err repository_failed r, w)"
    by (simp add: api_call_def act_map_err_def db_call_def Let_def r w_def)
  note run = require_auth_def act_bind_def Some call
  show thesis
  proof (cases r)
    case (Inl e)
    then have "\<And>f. require_auth h q f v = (Inl (repository_failed e), w)" by (simp add: run)
    then show thesis by (rule refused) simp
  next
    case (Inr found)
    show thesis
    proof (cases found)
      case None
      with Inr have "\<And>f. require_auth h q f v = (Inl unauthorized, w)" by (simp add: run)
      then show thesis by (rule refused) simp
    next
      case (Some rec)
      from active_session_found [OF inv r [unfolded Inr Some]] obtain x where
        x: "x \<in> set (sessions ?s)" "authenticates ?now (token_hash h raw) ?s x" "sn_user_id rec = UserId (x_user x)"
          "sn_csrf_token_hash rec = x_csrf_hash x" .
      show thesis
      proof (cases "requires_csrf (rq_method q) \<longrightarrow>
          (\<exists>supplied. header_text q csrf_header = Some supplied \<and> token_hash h supplied = x_csrf_hash x)")
        case True
        then have "\<And>f. require_auth h q f v = f (auth_session_from rec) w"
          using Inr Some x(4) by (auto simp: run)
        then show thesis
          by (rule passed [where x = x])
            (use True x \<open>rq_cookies q session_cookie_name = Some raw\<close> in \<open>auto simp: admitted_def auth_session_from_def\<close>)
      next
        case False
        then have "\<And>f. require_auth h q f v = (Inl invalid_csrf, w)"
          using Inr Some x(4) by (cases "header_text q csrf_header") (auto simp: run)
        then show thesis by (rule refused) simp
      qed
    qed
  qed
qed

lemma admitted_passes:
  assumes inv: "accounts_inv (sv_db (disturbed h v))"
    and adm: "admitted h q (h_clock h (sv_step v)) (sv_db (disturbed h v)) x"
    and made: "x_created_at x \<le> h_clock h (sv_step v)"
  obtains session w where "\<And>f. require_auth h q f v = f session w"
    and "as_user_id session = UserId (x_user x)" and "as_id session = x_id x"
proof -
  let ?now = "h_clock h (sv_step v)" and ?s = "sv_db (disturbed h v)"
  from adm obtain raw where raw: "rq_cookies q session_cookie_name = Some raw"
    and auth: "authenticates ?now (token_hash h raw) ?s x" and x: "x \<in> set (sessions ?s)"
    unfolding admitted_def by blast
  from inv x auth have len: "length (token_hash h raw) = 32"
    by (auto simp: accounts_inv_def session_ok_def authenticates_def)
  have "filter (authenticates ?now (token_hash h raw) ?s) (sessions ?s) = [x]"
    by (rule filter_keyed_hit [where k = x_token_hash and x = "token_hash h raw"])
      (use inv auth x in \<open>auto simp: accounts_inv_def authenticates_def\<close>)
  with made obtain rec t where r: "active_session ?now (token_hash h raw) ?s = (Inr (Some rec), t)"
    and rec: "sn_id rec = x_id x" "sn_user_id rec = UserId (x_user x)" "sn_csrf_token_hash rec = x_csrf_hash x"
    by (simp add: active_session_run [OF inv len])
  let ?w = "(disturbed h v)\<lparr>sv_db := t, sv_step := sv_step v + 1\<rparr>"
  have call: "api_call h (\<lambda>now. active_session now (token_hash h raw)) v = (Inr (Some rec), ?w)"
    by (simp add: api_call_def act_map_err_def db_call_def Let_def r)
  have "require_auth h q f v = f (auth_session_from rec) ?w" for f
    using adm rec(3) unfolding admitted_def by (auto simp: require_auth_def act_bind_def raw call)
  then show thesis using rec by (intro that [of "auth_session_from rec" ?w]) (simp_all add: auth_session_from_def)
qed

section \<open>Login\<close>

lemma credentials_found:
  assumes "user_credentials_by_username name s = (Inr (Some c), t)"
  obtains u where "u \<in> set (users s)" and "u_username u = name" and "u_is_active u"
    and "uc_id c = UserId (u_id u)" and "uc_password_hash c = u_password_hash u"
proof -
  let ?P = "\<lambda>u. u_username u = name \<and> u_is_active u"
  from assms have "opt_try credentials_try_from (fetch_optional (filter ?P (users s))) = Inr (Some c)"
    unfolding user_credentials_by_username_def prod.inject by (rule conjunct1)
  then obtain u where f: "fetch_optional (filter ?P (users s)) = Some u"
    and c: "credentials_try_from u = Inr c"
    unfolding opt_try_Inr_iff by blast
  from c have "uc_id c = UserId (u_id u)" "uc_password_hash c = u_password_hash u"
    by (auto simp: credentials_try_from_def try_bind_Inr_iff user_id_new_def split: if_splits)
  then show thesis using that [of u] fetch_optional_filter_Some [OF f] by simp
qed

text \<open>The steps of a login that answers with a session.\<close>

lemma login_steps:
  assumes "login h r v = (Inr (cookies, status, response), v')"
  obtains unused checked found looked c chosen ok verified token csrf i v5 rec where
    "act_map_err rate_limited (check_login h (lit ''owner-login'')) v = (Inr unused, checked)"
    and "(case normalize_username (lr_username r) of
        Some username \<Rightarrow> api_call h (\<lambda>_. user_credentials_by_username username)
      | None \<Rightarrow> act_return None) checked = (Inr found, looked)"
    and "(case found of Some credentials \<Rightarrow> act_return credentials
      | None \<Rightarrow> api_call h (\<lambda>_. owner_credentials)) looked = (Inr c, chosen)"
    and "verify_password h (lr_password r) (uc_password_hash c) chosen = (Inr ok, verified)"
    and "\<not> (found = None \<or> \<not> ok)"
    and "api_call h (\<lambda>now. create_session now i (uc_id c) (token_hash h token) (token_hash h csrf)
      (ac_session_ttl (h_config h))) v5 = (Inr rec, v')"
    and "response = session_response_new rec csrf"
    and "cookies = [session_cookie token (ac_session_ttl (h_config h)) (ac_secure_cookies (h_config h)),
         csrf_cookie csrf (ac_session_ttl (h_config h)) (ac_secure_cookies (h_config h))]"
  using assms unfolding login_def Let_def act_bind_Inr_iff act_simps act_map_err_Inr_iff prod.inject sum.inject
  by (elim exE conjE) (insert that, simp split: if_splits)

text \<open>The session that a login creates.\<close>

lemma created_session:
  assumes "create_session now i user h csrf ttl s = (Inr rec, t)"
  obtains account row where "row \<in> set (sessions t)" and "x_user row = u_id account" and "x_token_hash row = h"
    and "x_csrf_hash row = csrf" and "x_created_at row = now" and "x_expires_at row = sn_expires_at rec"
    and "x_revoked_at row = None" and "sn_user_id rec = UserId (u_id account)" and "u_id account = user_id_get user"
    and "account \<in> set (users t)" and "u_is_active account"
proof -
  from assms obtain account row secs where
    ins: "insert_session (new_session now i account h csrf secs) s = (Inr row, t)"
    and account: "fetch_optional (filter (\<lambda>w. u_id w = user_id_get user \<and> u_is_active w) (users s)) = Some account"
    and rec: "session_try_from (select_session account row) = Inr rec"
    by (auto simp: create_session_def tx_bind_Inr_iff tx_returns)
  note row = insert_session_Inr [OF ins] and u = fetch_optional_filter_Some [OF account]
  from rec row(1) have "sn_user_id rec = UserId (u_id account)" "sn_expires_at rec = x_expires_at row"
    by (auto simp: session_try_from_def select_session_def try_bind_Inr_iff user_id_new_def new_session_def
        split: if_splits)
  with row u show thesis by (intro that [of row account]) (auto simp: new_session_def)
qed

text \<open>C35. A login that answers with a session checked the password against the hash of the active user
  with the given name, within the limit on logins, and stored a session of that user under the digest of
  the token that goes into the cookie.\<close>
theorem login_needs_password:
  assumes "login h r v = (Inr (cookies, status, response), v')"
  shows "\<exists>u name token. u \<in> set (users (h_db h (Suc (sv_step v)) (sv_db v))) \<and> u_is_active u \<and>
     u_username u = name \<and> normalize_username (lr_username r) = Some name \<and>
     h_verifies h (lr_password r) (u_password_hash u) \<and> sp_user_id response = u_id u \<and>
     (\<exists>l. check (h_instant h (sv_step v)) (lit ''owner-login'') (sv_login_limiter v) = (Inr (), l)) \<and>
     map_of (List.map (\<lambda>c. (ck_name c, ck_value c)) cookies) session_cookie_name = Some token \<and>
     (\<exists>x \<in> set (sessions (sv_db v')). x_user x = u_id u \<and> x_token_hash x = token_hash h token)"
proof -
  from login_steps [OF assms] obtain unused checked found looked c chosen ok verified token csrf i v5 rec where
    limited: "act_map_err rate_limited (check_login h (lit ''owner-login'')) v = (Inr unused, checked)"
    and lookup: "(case normalize_username (lr_username r) of
        Some username \<Rightarrow> api_call h (\<lambda>_. user_credentials_by_username username)
      | None \<Rightarrow> act_return None) checked = (Inr found, looked)"
    and choice: "(case found of Some credentials \<Rightarrow> act_return credentials
      | None \<Rightarrow> api_call h (\<lambda>_. owner_credentials)) looked = (Inr c, chosen)"
    and verify: "verify_password h (lr_password r) (uc_password_hash c) chosen = (Inr ok, verified)"
    and accept: "\<not> (found = None \<or> \<not> ok)"
    and made: "api_call h (\<lambda>now. create_session now i (uc_id c) (token_hash h token) (token_hash h csrf)
      (ac_session_ttl (h_config h))) v5 = (Inr rec, v')"
    and answer: "response = session_response_new rec csrf"
      "cookies = [session_cookie token (ac_session_ttl (h_config h)) (ac_secure_cookies (h_config h)),
         csrf_cookie csrf (ac_session_ttl (h_config h)) (ac_secure_cookies (h_config h))]" .
  from accept obtain credentials where some: "found = Some credentials" and ok by auto
  with choice have c: "found = Some c" by simp
  from limited obtain l where
    limit: "check (h_instant h (sv_step v)) (lit ''owner-login'') (sv_login_limiter v) = (Inr (), l)"
    and checked: "checked = v\<lparr>sv_login_limiter := l, sv_step := Suc (sv_step v)\<rparr>"
    by (auto simp: check_login_def split: prod.splits)
  from lookup c obtain name where
    name: "normalize_username (lr_username r) = Some name"
    and find: "api_call h (\<lambda>_. user_credentials_by_username name) checked = (Inr (Some c), looked)"
    by (simp split: option.splits)
  from verify \<open>ok\<close> have verified: "h_verifies h (lr_password r) (uc_password_hash c)"
    by (auto simp: verify_password_def act_bind_Inr_iff split: if_splits)
  from api_call_Inr [OF find] obtain t where
    found: "user_credentials_by_username name (h_db h (Suc (sv_step v)) (sv_db v)) = (Inr (Some c), t)"
    by (auto simp: disturbed_def checked)
  from credentials_found [OF found] obtain u where
    u: "u \<in> set (users (h_db h (Suc (sv_step v)) (sv_db v)))" "u_username u = name" "u_is_active u"
      "uc_id c = UserId (u_id u)" "uc_password_hash c = u_password_hash u" .
  from api_call_Inr [OF made] obtain s where
    create: "create_session (h_clock h (sv_step v5)) i (uc_id c) (token_hash h token) (token_hash h csrf)
       (ac_session_ttl (h_config h)) s = (Inr rec, sv_db v')"
    by auto
  from created_session [OF create] obtain account row where
    row: "row \<in> set (sessions (sv_db v'))" "x_user row = u_id account" "x_token_hash row = token_hash h token"
      "x_csrf_hash row = token_hash h csrf" "x_created_at row = h_clock h (sv_step v5)"
      "x_expires_at row = sn_expires_at rec" "x_revoked_at row = None" "sn_user_id rec = UserId (u_id account)"
      "u_id account = user_id_get (uc_id c)" "account \<in> set (users (sv_db v'))" "u_is_active account" .
  then have "row \<in> set (sessions (sv_db v'))" "x_user row = u_id u" "x_token_hash row = token_hash h token"
    "sp_user_id response = u_id u"
    using u(4) by (simp_all add: answer(1) session_response_new_def)
  moreover have "map_of (List.map (\<lambda>c. (ck_name c, ck_value c)) cookies) session_cookie_name = Some token"
    by (simp add: answer(2) session_cookie_def)
  ultimately show ?thesis using name u limit verified by metis
qed

definition ex_credentials :: login_request where
  "ex_credentials = \<lparr>lr_username = lit '' Owner'', lr_password = lit ''hash and more''\<rparr>"

lemma ex_login:
  "\<exists>cookies status response w. login ex_host ex_credentials ex_server = (Inr (cookies, status, response), w) \<and>
     accounts_inv (sv_db w) \<and> 10 < sp_expires_at response"
proof -
  have ascii: "length (as_bytes s) = length s" if "\<forall>c \<in> set s. c < 128" for s
    using that by (induction s) (simp_all add: as_bytes_def utf8_char.simps)
  have "token_hash ex_host (simple_uuid a @ simple_uuid b) = replicate 32 64" for a b
  proof -
    have "\<forall>c \<in> set (simple_uuid a @ simple_uuid b). c < 128"
      using simple_uuid_chars by (fastforce simp: is_ascii_digit_def is_ascii_lowercase_def)
    from ascii [OF this] show ?thesis by (simp add: token_hash_def ex_host_def)
  qed
  moreover obtain rec t where
    "create_session 10 7 (UserId 1) (replicate 32 64) (replicate 32 64) default_session_ttl ex_accounts_db = (Inr rec, t)"
    and "10 < sn_expires_at rec"
  proof -
    have "\<exists>rec. fst (create_session 10 7 (UserId 1) (replicate 32 64) (replicate 32 64) default_session_ttl ex_accounts_db) = Inr rec \<and>
        10 < sn_expires_at rec"
      by (simp add: evaluate default_session_ttl_def)
    then show thesis using that by (metis prod.collapse)
  qed
  moreover have "accounts_inv t"
    by (rule keepsD [where I = accounts_inv, OF accounts_keep(2) ex_accounts_db_inv calculation(2)])
  moreover have "user_credentials_by_username (lit ''owner'') ex_accounts_db =
      (Inr (Some \<lparr>uc_id = UserId 1, uc_username = lit ''owner'', uc_password_hash = lit ''hash''\<rparr>), ex_accounts_db)"
    by (simp add: user_credentials_by_username_def evaluate)
  moreover have "normalize_username (lit '' Owner'') = Some (lit ''owner'')" "validate_password (lit ''hash and more'')"
    by (simp_all add: normalize_username_def to_ascii_lowercase_def is_ascii_uppercase_def validate_password_def evaluate)
  moreover obtain l where "check 10 (lit ''owner-login'') (sv_login_limiter ex_server) = (Inr (), l)"
    using that
    by (simp add: ex_server_def app_with_config_def app_config_default_def rate_limiter_new_def check_def prune_def Let_def
        max_tracked_keys_def entry_or_default_def queue_of_def)
  moreover have "sv_db ex_server = ex_accounts_db" by (simp add: ex_server_def app_with_config_def)
  moreover have "h_clock ex_host n = 10" "h_instant ex_host n = 10" "h_db ex_host n s = s" "h_uuid ex_host n = word_of_nat n"
    "h_hash_parses ex_host p" "h_verifies ex_host (lit ''hash and more'') (lit ''hash'')" "\<not> h_join_fails ex_host n"
    "ac_session_ttl (h_config ex_host) = default_session_ttl" for n s p
    by (simp_all add: ex_host_def app_config_default_def lit_def)
  ultimately show ?thesis
    by (simp add: login_def check_login_def api_call_def db_call_def verify_password_def random_token_def act_bind_def
        act_map_err_def act_value_def disturbed_def ex_step ex_credentials_def session_response_new_def)
qed

theorem login_needs_password_witness:
  "\<exists>x w. login ex_host ex_credentials ex_server = (Inr x, w) \<and>
     (\<exists>u. u \<in> set (users ex_accounts_db) \<and> h_verifies ex_host (lr_password ex_credentials) (u_password_hash u) \<and>
        (\<exists>x \<in> set (sessions (sv_db w)). x_user x = u_id u))"
proof -
  obtain cookies status response w where run: "login ex_host ex_credentials ex_server = (Inr (cookies, status, response), w)"
    using ex_login by blast
  have "h_db ex_host n (sv_db ex_server) = ex_accounts_db" for n
    by (simp add: ex_host_def ex_server_def app_with_config_def)
  with login_needs_password [OF run] run show ?thesis by fastforce
qed

end
