(* ===== verification/HttpProps.thy ===== *)
theory HttpProps
  imports Http AuthProps BatchProps Frames
begin

text \<open>
  What the routes guarantee about sessions: nothing behind the login is reached without one, and a login opens it.
\<close>

section \<open>The login and the routes behind it\<close>


text \<open>C34. The cookies and the CSRF token that a login answers with open every protected route as the user who logged in, until the
  session expires, while nobody else changes the accounts.\<close>
theorem login_opens_routes:
  assumes run: "login h r v = (Inr (cookies, status, response), v')"
    and inv: "accounts_inv (sv_db v')" and same: "same_accounts (sv_db v') (sv_db (disturbed h u))"
    and clock: "\<forall>n m. n \<le> m \<longrightarrow> h_clock h n \<le> h_clock h m" "sv_step v' \<le> sv_step u"
    and live: "h_clock h (sv_step u) < sp_expires_at response"
    and cookies: "rq_cookies q = map_of (List.map (\<lambda>c. (ck_name c, ck_value c)) cookies)"
    and header: "rq_headers q csrf_header = Some (Some (sp_csrf_token response))"
  shows "\<exists>session w. as_user_id session = UserId (sp_user_id response) \<and>
     (\<forall>c. endpoint_handler h q (Protected c) u = protected_handler h q c session w)"
proof -
  from login_steps [OF run] obtain unused checked found looked c chosen ok verified token csrf i v5 rec where
    "act_map_err rate_limited (check_login h (lit ''owner-login'')) v = (Inr unused, checked)"
    and "(case normalize_username (lr_username r) of
        Some username \<Rightarrow> api_call h (\<lambda>_. user_credentials_by_username username)
      | None \<Rightarrow> act_return None) checked = (Inr found, looked)"
    and "(case found of Some credentials \<Rightarrow> act_return credentials
      | None \<Rightarrow> api_call h (\<lambda>_. owner_credentials)) looked = (Inr c, chosen)"
    and "verify_password h (lr_password r) (uc_password_hash c) chosen = (Inr ok, verified)"
    and "\<not> (found = None \<or> \<not> ok)"
    and made: "api_call h (\<lambda>now. create_session now i (uc_id c) (token_hash h token) (token_hash h csrf)
      (ac_session_ttl (h_config h))) v5 = (Inr rec, v')"
    and answer: "response = session_response_new rec csrf"
      "cookies = [session_cookie token (ac_session_ttl (h_config h)) (ac_secure_cookies (h_config h)),
         csrf_cookie csrf (ac_session_ttl (h_config h)) (ac_secure_cookies (h_config h))]" .
  from api_call_Inr [OF made] obtain s where
    create: "create_session (h_clock h (sv_step v5)) i (uc_id c) (token_hash h token) (token_hash h csrf)
       (ac_session_ttl (h_config h)) s = (Inr rec, sv_db v')" and step: "sv_step v' = Suc (sv_step v5)"
    by auto
  from created_session [OF create] obtain account x where
    x: "x \<in> set (sessions (sv_db v'))" "x_user x = u_id account" "x_token_hash x = token_hash h token"
      "x_csrf_hash x = token_hash h csrf" "x_created_at x = h_clock h (sv_step v5)"
      "x_expires_at x = sn_expires_at rec" "x_revoked_at x = None" "sn_user_id rec = UserId (u_id account)"
      "u_id account = user_id_get (uc_id c)" "account \<in> set (users (sv_db v'))" "u_is_active account" .
  let ?s = "sv_db (disturbed h u)"
  from same have rows: "users ?s = users (sv_db v')" "sessions ?s = sessions (sv_db v')"
    by (simp_all add: same_accounts_def)
  have inv': "accounts_inv ?s" by (rule accounts_inv_frame [OF inv rows])
  have "session_user ?s x = Some account" using session_user_Some [OF inv', of account x] x rows by simp
  then have "authenticates (h_clock h (sv_step u)) (token_hash h token) ?s x"
    using x live by (simp add: authenticates_def session_live_def answer(1) session_response_new_def)
  then have adm: "admitted h q (h_clock h (sv_step u)) ?s x"
    using x rows cookies header
    by (simp add: admitted_def answer session_cookie_def header_text_def session_response_new_def)
  have "h_clock h (sv_step v5) \<le> h_clock h (sv_step u)" using clock step by simp
  then have "x_created_at x \<le> h_clock h (sv_step u)" by (simp add: x(5))
  have user: "sp_user_id response = x_user x" using x by (simp add: answer(1) session_response_new_def)
  show ?thesis
  proof (rule admitted_passes [OF inv' adm \<open>x_created_at x \<le> h_clock h (sv_step u)\<close>])
    fix session w
    assume "\<And>f :: auth_session \<Rightarrow> answer handler. require_auth h q f u = f session w" "as_user_id session = UserId (x_user x)"
    then show ?thesis by (intro exI [of _ session] exI [of _ w]) (simp add: user)
  qed
qed

section \<open>Witnesses\<close>

text \<open>A request with the session's cookie but without the CSRF token.\<close>

definition ex_post :: request where
  "ex_post = \<lparr>rq_method = Post, rq_cookies = [session_cookie_name \<mapsto> lit ''a''], rq_headers = (\<lambda>_. None)\<rparr>"


theorem login_opens_routes_witness:
  "\<exists>cookies status response v' q. login ex_host ex_credentials ex_server = (Inr (cookies, status, response), v') \<and>
     (\<exists>session w. as_user_id session = UserId (sp_user_id response) \<and>
        (\<forall>c. endpoint_handler ex_host q (Protected c) v' = protected_handler ex_host q c session w))"
proof -
  obtain cookies status response v' where run: "login ex_host ex_credentials ex_server = (Inr (cookies, status, response), v')"
    and inv: "accounts_inv (sv_db v')" and expires: "10 < sp_expires_at response"
    using ex_login by blast
  define q where "q = \<lparr>rq_method = Post, rq_cookies = map_of (List.map (\<lambda>c. (ck_name c, ck_value c)) cookies),
    rq_headers = [csrf_header \<mapsto> Some (sp_csrf_token response)]\<rparr>"
  have same: "same_accounts (sv_db v') (sv_db (disturbed ex_host v'))"
    by (simp add: same_accounts_def disturbed_def) (simp add: ex_host_def)
  have clock: "\<forall>n m. n \<le> m \<longrightarrow> h_clock ex_host n \<le> h_clock ex_host m" "h_clock ex_host (sv_step v') < sp_expires_at response"
    using expires by (simp_all add: ex_host_def)
  have "rq_cookies q = map_of (List.map (\<lambda>c. (ck_name c, ck_value c)) cookies)"
    "rq_headers q csrf_header = Some (Some (sp_csrf_token response))" by (simp_all add: q_def)
  from login_opens_routes [OF run inv same clock(1) order.refl clock(2) this] run show ?thesis by blast
qed

end
