(* ===== verification/OwnRows.thy ===== *)
theory OwnRows
  imports HttpProps LifecycleProps
begin

text \<open>
  Clients stay among their own rows: a route with an identifier succeeds only for a row of the session's
  user, and no route changes the jobs and schedules of another user.
\<close>

section \<open>Reads by owner\<close>

definition owned_job :: "user_id \<Rightarrow> job_id \<Rightarrow> db \<Rightarrow> bool" where
  "owned_job u i s \<longleftrightarrow> (\<exists>j \<in> set (jobs s). encode_job_id i = Inr (j_id j) \<and> j_owner j = user_id_get u)"

lemma case_row_found:
  "(case fetch_optional (filter P rows) of None \<Rightarrow> tx_return None | Some row \<Rightarrow> f row) s = (Inr (Some x), t) \<Longrightarrow>
     \<exists>r \<in> set rows. P r"
  by (cases "fetch_optional (filter P rows)") (auto simp: tx_returns dest: fetch_optional_filter_Some)

lemma job_reads_owned:
  "get_with_owner i (Some u) s = (Inr (Some rec), t) \<Longrightarrow> owned_job u i s"
  "request_cancel_with_owner now i (Some u) s = (Inr (Some rec), t) \<Longrightarrow> owned_job u i s"
  "manual_retry_with_owner now i (Some u) s = (Inr (Some rec), t) \<Longrightarrow> owned_job u i s"
proof -
  have found: "owned_job u i s"
    if "encode_job_id i = Inr n" "r \<in> set (jobs s)" "j_id r = n" "owned_by (Some u) (j_owner r)" for n r
    using that by (auto simp: owned_job_def owned_by_def)
  show "owned_job u i s" if "get_with_owner i (Some u) s = (Inr (Some rec), t)"
  proof -
    from that obtain n where n: "encode_job_id i = Inr n"
      and "(case fetch_optional (filter (\<lambda>r. j_id r = n \<and> owned_by (Some u) (j_owner r)) (jobs s)) of
          None \<Rightarrow> tx_return None
        | Some row \<Rightarrow> (\<lambda>s. (try_bind (read_job s row) (\<lambda>r. Inr (Some r)), s))) s = (Inr (Some rec), t)"
      by (auto simp: get_with_owner_def tx_bind_Inr_iff tx_returns)
    from case_row_found [OF this(2)] n found show ?thesis by blast
  qed
  show "owned_job u i s" if "manual_retry_with_owner now i (Some u) s = (Inr (Some rec), t)"
  proof -
    from that obtain n new v where n: "encode_job_id i = Inr n"
      and "manual_retry_body now n (Some u) s = (Inr (Some new), v)"
      by (auto simp: manual_retry_with_owner_def tx_bind_Inr_iff tx_returns transaction_Inr_iff split: option.splits)
    then obtain r where "fetch_optional (filter (\<lambda>r. j_id r = n \<and> owned_by (Some u) (j_owner r)) (jobs s)) = Some r"
      by (cases "fetch_optional (filter (\<lambda>r. j_id r = n \<and> owned_by (Some u) (j_owner r)) (jobs s))")
        (simp_all add: manual_retry_body_def tx_bind_def tx_returns)
    from fetch_optional_filter_Some [OF this] n found show ?thesis by blast
  qed
  show "owned_job u i s" if "request_cancel_with_owner now i (Some u) s = (Inr (Some rec), t)"
  proof -
    let ?P = "\<lambda>n r. j_id r = n \<and> owned_by (Some u) (j_owner r) \<and> j_state r \<in> cancellable_states"
    from that obtain n hits v where n: "encode_job_id i = Inr n"
      and upd: "update_jobs (?P n) (request_cancel_row now) s = (Inr hits, v)" and "fetch_optional hits \<noteq> None"
      by (auto simp: request_cancel_with_owner_def tx_bind_Inr_iff tx_returns split: option.splits if_splits)
    then have "filter (?P n) (jobs s) \<noteq> []"
      by (auto simp: update_jobs_def sql_update_Inr_iff)
    then obtain r where "r \<in> set (jobs s)" "?P n r" by (auto simp: filter_empty_conv)
    with n found show ?thesis by blast
  qed
qed

definition owned_schedule :: "user_id \<Rightarrow> schedule_id \<Rightarrow> db \<Rightarrow> bool" where
  "owned_schedule u i s \<longleftrightarrow> (\<exists>k \<in> set (schedules s). encode_schedule_id i = Inr (s_id k) \<and> s_owner k = user_id_get u)"

lemma schedule_reads_owned:
  "get_schedule_with_owner i (Some u) s = (Inr (Some rec), t) \<Longrightarrow> owned_schedule u i s"
  "update_schedule_at_with_owner rng now i r as_of (Some u) s = (Inr (Some rec), t) \<Longrightarrow> owned_schedule u i s"
proof -
  show "owned_schedule u i s" if "get_schedule_with_owner i (Some u) s = (Inr (Some rec), t)"
  proof -
    from that obtain n where n: "encode_schedule_id i = Inr n"
      and "(case fetch_optional (filter (\<lambda>r. s_id r = n \<and> owned_by (Some u) (s_owner r)) (schedules s)) of
          None \<Rightarrow> tx_return None
        | Some row \<Rightarrow> (\<lambda>s. (try_bind (read_schedule s row) (\<lambda>r. Inr (Some r)), s))) s = (Inr (Some rec), t)"
      by (auto simp: get_schedule_with_owner_def tx_bind_Inr_iff tx_returns)
    from case_row_found [OF this(2)] n show ?thesis by (auto simp: owned_schedule_def owned_by_def)
  qed
  show "owned_schedule u i s" if "update_schedule_at_with_owner rng now i r as_of (Some u) s = (Inr (Some rec), t)"
  proof -
    let ?P = "\<lambda>n r. s_id r = n \<and> owned_by (Some u) (s_owner r)"
    from that obtain n F hits v where n: "encode_schedule_id i = Inr n"
      and upd: "update_schedules (?P n) F s = (Inr hits, v)" and "hits \<noteq> []"
      by (auto simp: update_schedule_at_with_owner_def tx_bind_Inr_iff tx_returns split: if_splits)
    then have "filter (?P n) (schedules s) \<noteq> []"
      by (auto simp: update_schedules_def sql_update_Inr_iff)
    then obtain k where "k \<in> set (schedules s)" "?P n k" by (auto simp: filter_empty_conv)
    with n show ?thesis by (auto simp: owned_schedule_def owned_by_def)
  qed
qed

section \<open>The rows a client reads\<close>

text \<open>The rows that a route with an identifier is about belong to the user.\<close>

definition owns_job :: "user_id \<Rightarrow> ustring \<Rightarrow> db \<Rightarrow> bool" where
  "owns_job u raw s \<longleftrightarrow> (\<exists>i. parse_job_id raw = Inr i \<and> owned_job u i s)"

definition owns_schedule :: "user_id \<Rightarrow> ustring \<Rightarrow> db \<Rightarrow> bool" where
  "owns_schedule u raw s \<longleftrightarrow> (\<exists>i. parse_schedule_id raw = Inr i \<and> owned_schedule u i s)"

definition owns_output :: "user_id \<Rightarrow> ustring \<Rightarrow> db \<Rightarrow> bool" where
  "owns_output u raw s \<longleftrightarrow>
     (\<exists>i. parse_artifact_id raw = Inr i \<and>
        (\<exists>f \<in> set (artifacts s). f_id f = uint i \<and> f_kind f = Output \<and>
           (\<exists>j \<in> set (jobs s). j_id j = f_job f \<and> j_state j = Succeeded \<and> j_owner j = user_id_get u)))"

fun owns :: "protected_endpoint \<Rightarrow> user_id \<Rightarrow> db \<Rightarrow> bool" where
  "owns (GetJob raw) u s = owns_job u raw s"
| "owns (CancelJob raw) u s = owns_job u raw s"
| "owns (RetryJob raw) u s = owns_job u raw s"
| "owns (GetSchedule raw) u s = owns_schedule u raw s"
| "owns (UpdateSchedule raw r) u s = owns_schedule u raw s"
| "owns (DownloadArtifact raw) u s = owns_output u raw s"
| "owns c u s = True"

text \<open>The database in which the handler finds its row; an update of a schedule reads the clock in a call of its own before.\<close>

fun accessed :: "host \<Rightarrow> protected_endpoint \<Rightarrow> server \<Rightarrow> db" where
  "accessed h (UpdateSchedule raw r) w = sv_db (disturbed h ((disturbed h w)\<lparr>sv_step := Suc (sv_step w)\<rparr>))"
| "accessed h c w = sv_db (disturbed h w)"

lemma output_owned:
  assumes "get_downloadable_artifact_with_owner i (Some u) s = (Inr (Some rec), t)"
  shows "\<exists>f \<in> set (artifacts s). f_id f = uint i \<and> f_kind f = Output \<and>
     (\<exists>j \<in> set (jobs s). j_id j = f_job f \<and> j_state j = Succeeded \<and> j_owner j = user_id_get u)"
proof -
  from assms obtain n where n: "encode_u64 i ''artifact ID'' = Inr n"
    and "opt_try (\<lambda>f. artifact_try_from (select_artifact f)) (fetch_optional (filter (downloadable s n (Some u)) (artifacts s)))
      = Inr (Some rec)"
    by (auto simp: get_downloadable_artifact_with_owner_def tx_bind_Inr_iff tx_returns)
  then obtain f where "fetch_optional (filter (downloadable s n (Some u)) (artifacts s)) = Some f"
    by (auto simp: opt_try_Inr_iff)
  from fetch_optional_filter_Some [OF this] n show ?thesis
    by (auto simp: downloadable_def list_ex_iff owned_by_def encode_u64_def to_signed_def split: if_splits)
qed

text \<open>C36. A route that names a job, a schedule or an output succeeds only if the row with that identifier existed, and belonged to the
  user of the session, in the database the handler found.\<close>
theorem clients_reach_own_rows:
  assumes "protected_handler h q c session w = (Inr a, w')"
  shows "owns c (as_user_id session) (accessed h c w)"
proof -
  note run = act_bind_Inr_iff get_job_def cancel_job_by_hand_def retry_job_by_hand_def get_schedule_def update_schedule_def
    download_artifact_def
  show ?thesis
  proof (cases c)
    case (GetJob raw)
    with assms show ?thesis
      by (auto simp: run owns_job_def dest!: api_call_Inr job_reads_owned)
  next
    case (CancelJob raw)
    with assms show ?thesis
      by (auto simp: run owns_job_def dest!: api_call_Inr job_reads_owned)
  next
    case (RetryJob raw)
    with assms show ?thesis
      by (auto simp: run owns_job_def dest!: api_call_Inr job_reads_owned)
  next
    case (GetSchedule raw)
    with assms show ?thesis
      by (auto simp: run owns_schedule_def dest!: api_call_Inr schedule_reads_owned)
  next
    case (UpdateSchedule raw r)
    with assms show ?thesis
      by (auto simp: run owns_schedule_def tx_returns dest!: api_call_Inr schedule_reads_owned)
  next
    case (DownloadArtifact raw)
    with assms show ?thesis
      by (auto simp: run owns_output_def dest!: api_call_Inr output_owned)
  qed simp_all
qed

section \<open>The rows a client changes\<close>

text \<open>The jobs and schedules of other users stay as they are; nothing running is touched, and rows are only added to the tables
  that hang off jobs and schedules.\<close>

definition others_kept :: "user_id \<Rightarrow> db \<Rightarrow> db \<Rightarrow> bool" where
  "others_kept u s t \<longleftrightarrow>
     filter (\<lambda>j. j_owner j \<noteq> user_id_get u) (jobs t) = filter (\<lambda>j. j_owner j \<noteq> user_id_get u) (jobs s) \<and>
     filter (\<lambda>k. s_owner k \<noteq> user_id_get u) (schedules t) = filter (\<lambda>k. s_owner k \<noteq> user_id_get u) (schedules s) \<and>
     attempts t = attempts s \<and> occurrences t = occurrences s \<and> workers t = workers s \<and> users t = users s \<and>
     (\<exists>new. artifacts t = artifacts s @ new) \<and> (\<exists>new. schedule_inputs t = schedule_inputs s @ new)"

interpretation others: frame_relation "others_kept u" for u
proof
  show "same_rows s t \<Longrightarrow> others_kept u s t" for s t
    by (auto simp: others_kept_def dest: same_rows_fields)
  show "others_kept u s t \<Longrightarrow> others_kept u t v \<Longrightarrow> others_kept u s v" for s t v
    unfolding others_kept_def by (elim conjE exE) simp
qed

lemma filter_update_where:
  assumes "\<And>r. P r \<Longrightarrow> \<not> Q r \<and> \<not> Q (F r)"
  shows "filter Q (update_where P F rows) = filter Q rows"
  using assms by (induction rows) (auto simp: update_where_def)

lemma others_updates:
  "(\<And>r. P r \<Longrightarrow> j_owner r = user_id_get u \<and> j_owner (F r) = j_owner r) \<Longrightarrow> obeys (others_kept u) (update_jobs P F)"
  "(\<And>k. P' k \<Longrightarrow> s_owner k = user_id_get u \<and> s_owner (F' k) = s_owner k) \<Longrightarrow>
     obeys (others_kept u) (update_schedules P' F')"
  "obeys (others_kept u) (update_sessions X x)"
  unfolding update_stmt_defs
  by (intro others.update; auto simp: others_kept_def set_table_defs intro!: filter_update_where)+

lemma others_inserts:
  "(\<And>i. j_owner (mj i) = user_id_get u) \<Longrightarrow> obeys (others_kept u) (insert_job mj)"
  "(\<And>i. s_owner (ms i) = user_id_get u) \<Longrightarrow> obeys (others_kept u) (insert_schedule ms)"
  "obeys (others_kept u) (insert_artifact ma)" "obeys (others_kept u) (insert_schedule_input_row mi)"
  by (auto simp: obeys_def insert_stmt_defs sql_insert_def Let_def others_kept_def set_table_defs split: option.split)

lemmas others_rules = frame_rules others.simple others.bind others.each others.committed

lemma others_jobs:
  "obeys (others_kept u) (get_with_owner i owner)" "obeys (others_kept u) (list_with_owner owner)"
  "obeys (others_kept u) (request_cancel_with_owner now i (Some u))"
  "obeys (others_kept u) (get_downloadable_artifact_with_owner k owner)"
  "obeys (others_kept u) (find_idempotent_image_job who r)" "obeys (others_kept u) (active_job_count_for_owner who)"
proof -
  show read: "obeys (others_kept u) (get_with_owner i owner)" for i owner
    unfolding get_with_owner_def by (intro others_rules)
  show "obeys (others_kept u) (request_cancel_with_owner now i (Some u))"
    unfolding request_cancel_with_owner_def
    by (intro others_rules read others_updates(1)) (auto simp: owned_by_def request_cancel_row_def)
  show "obeys (others_kept u) (find_idempotent_image_job who r)"
    unfolding find_idempotent_image_job_def by (intro others_rules read)
qed (unfold list_with_owner_def get_downloadable_artifact_with_owner_def active_job_count_for_owner_def, (intro others_rules)+)

text \<open>The job that a retry by hand copies is one of the user's.\<close>

lemma obeys_selected:
  assumes "\<And>s x. q s = x \<Longrightarrow> obeys R (f x)"
  shows "obeys R (tx_bind (tx_select q) f)"
  using assms unfolding obeys_def tx_bind_def tx_returns by simp

lemma others_retry: "obeys (others_kept u) (manual_retry_with_owner now i (Some u))"
proof -
  have "obeys (others_kept u) (manual_retry_body now n (Some u))" for n
    unfolding manual_retry_body_def
  proof (rule obeys_selected)
    fix s and source :: "job_row option"
    assume found: "fetch_optional (filter (\<lambda>r. j_id r = n \<and> owned_by (Some u) (j_owner r)) (jobs s)) = source"
    have "j_owner src = user_id_get u" if "source = Some src" for src
      using fetch_optional_filter_Some [OF found [unfolded that]] by (simp add: owned_by_def)
    then show "obeys (others_kept u)
      (case source of None \<Rightarrow> tx_return None
       | Some src \<Rightarrow> tx_bind (tx_guard (j_state src \<in> {Failed, Cancelled}) (StateConflict ''manually retry job'')) (\<lambda>_.
           tx_bind (insert_job (manual_retry_job now src)) (\<lambda>new.
           tx_bind (tx_select (\<lambda>s. filter (\<lambda>f. f_job f = n \<and> f_kind f = Input) (artifacts s))) (\<lambda>inputs.
           tx_bind (tx_for (\<lambda>f. tx_bind (insert_artifact (copied_input now (j_id new) f)) (\<lambda>_. tx_return ())) inputs) (\<lambda>_.
           tx_return (Some (j_id new)))))))"
      by (cases source) (auto intro!: others_rules others_inserts simp: manual_retry_job_def)
  qed
  then show ?thesis
    unfolding manual_retry_with_owner_def by (intro others_rules others_jobs(1))
qed

lemma others_creation:
  "nj_owner_user_id r = u \<Longrightarrow> obeys (others_kept u) (create_image_job now r)"
  "ns_owner_user_id k = u \<Longrightarrow> obeys (others_kept u) (create_schedule now k)"
proof -
  show "obeys (others_kept u) (create_image_job now r)" if "nj_owner_user_id r = u"
    unfolding create_image_job_def create_image_job_body_def insert_input_artifact_def
    by (intro others_rules others_jobs(1) others_inserts) (simp add: image_job_row_def that)
  have "obeys (others_kept u) (get_schedule_with_owner i owner)" for i owner
    unfolding get_schedule_with_owner_def by (intro others_rules)
  then show "obeys (others_kept u) (create_schedule now k)" if "ns_owner_user_id k = u"
    unfolding create_schedule_def create_schedule_body_def insert_schedule_input_def
    by (intro others_rules others_inserts) (simp_all add: new_schedule_row_def that)
qed

lemma others_schedules:
  "obeys (others_kept u) (get_schedule_with_owner i owner)" "obeys (others_kept u) (list_schedules_with_owner owner)"
  "obeys (others_kept u) (update_schedule_at_with_owner rng now i r as_of (Some u))"
proof -
  show read: "obeys (others_kept u) (get_schedule_with_owner i owner)" for i owner
    unfolding get_schedule_with_owner_def by (intro others_rules)
  show "obeys (others_kept u) (update_schedule_at_with_owner rng now i r as_of (Some u))"
    unfolding update_schedule_at_with_owner_def
    by (intro others_rules read others_updates(2)) (auto simp: owned_by_def updated_schedule_def)
qed (unfold list_schedules_with_owner_def, (intro others_rules)+)

lemma others_sessions:
  "obeys (others_kept u) (revoke_session now i)" "obeys (others_kept u) (rotate_session_csrf now i digest)"
  "obeys (others_kept u) (list_workers now)"
  unfolding revoke_session_def rotate_session_csrf_def list_workers_def
  by (intro others_rules others_updates(3))+

text \<open>The same for the handlers: files, counters and limiters aside, only their calls reach the database.\<close>

definition leaves_others :: "user_id \<Rightarrow> ('e, 'a) action \<Rightarrow> bool" where
  "leaves_others u m \<longleftrightarrow> (\<forall>v. others_kept u (sv_db v) (sv_db (snd (m v))))"

lemma leaves_bind:
  assumes "leaves_others u m" and "\<And>x. leaves_others u (f x)"
  shows "leaves_others u (act_bind m f)"
  unfolding leaves_others_def
proof
  fix v
  obtain r w where m: "m v = (r, w)" by fastforce
  then have "others_kept u (sv_db v) (sv_db w)" using assms(1) unfolding leaves_others_def by (metis snd_conv)
  moreover have "others_kept u (sv_db w) (sv_db (snd (f x w)))" for x using assms(2) by (simp add: leaves_others_def)
  ultimately show "others_kept u (sv_db v) (sv_db (snd (act_bind m f v)))"
    by (cases r) (auto simp: act_bind_def m intro: others.trans)
qed

lemma leaves_wrapped:
  "leaves_others u m \<Longrightarrow> leaves_others u (act_map_err g m)" "leaves_others u m \<Longrightarrow> leaves_others u (act_result m)"
  by (simp_all add: leaves_others_def act_map_err_def act_result_def split: prod.split) (metis snd_conv)+

lemma leaves_simple:
  "leaves_others u (act_return x)" "leaves_others u (act_fail e)" "leaves_others u (act_lift r)"
  "leaves_others u (act_guard ok e)" "leaves_others u (act_value g)" "leaves_others u (check_upload h key)"
  by (simp_all add: leaves_others_def act_value_def check_upload_def others.refl split: prod.split)

lemma leaves_case_option:
  "leaves_others u m \<Longrightarrow> (\<And>x. leaves_others u (f x)) \<Longrightarrow> leaves_others u (case v of None \<Rightarrow> m | Some x \<Rightarrow> f x)"
  by (cases v) simp_all

lemma leaves_case_sum:
  "(\<And>e. leaves_others u (f e)) \<Longrightarrow> (\<And>x. leaves_others u (g x)) \<Longrightarrow> leaves_others u (case v of Inl e \<Rightarrow> f e | Inr x \<Rightarrow> g x)"
  by (cases v) simp_all

lemma leaves_case_prod: "(\<And>x y. leaves_others u (f x y)) \<Longrightarrow> leaves_others u (case p of (x, y) \<Rightarrow> f x y)"
  by (cases p) simp

lemma leaves_if: "leaves_others u m \<Longrightarrow> leaves_others u n \<Longrightarrow> leaves_others u (if b then m else n)"
  by simp

text \<open>What runs beside the handler leaves the rows of other users alone as well.\<close>

definition others_undisturbed :: "user_id \<Rightarrow> host \<Rightarrow> bool" where
  "others_undisturbed u h \<longleftrightarrow> (\<forall>n s. others_kept u s (h_db h n s))"

lemma leaves_db_call:
  assumes "others_undisturbed u h" and "\<And>n now. obeys (others_kept u) (m n now)"
  shows "leaves_others u (db_call h m)"
proof -
  have "others_kept u (sv_db v) (sv_db (disturbed h v))" for v
    using assms(1) by (simp add: others_undisturbed_def disturbed_def)
  then show ?thesis
    unfolding leaves_others_def db_call_def Let_def
    using assms(2) by (auto simp: obeys_def split: prod.split) (metis others.trans snd_conv)
qed

lemma leaves_api_call:
  "others_undisturbed u h \<Longrightarrow> (\<And>now. obeys (others_kept u) (m now)) \<Longrightarrow> leaves_others u (api_call h m)"
  unfolding api_call_def by (intro leaves_wrapped leaves_db_call)

lemma leaves_files:
  "others_undisturbed u h \<Longrightarrow> leaves_others u (file_step h step)"
  "others_undisturbed u h \<Longrightarrow> leaves_others u (inspect_stored h key)"
  unfolding leaves_others_def file_step_def inspect_stored_def Let_def
  by (auto simp: others_undisturbed_def disturbed_def split: prod.split)

lemmas leaves_rules =
  leaves_bind leaves_wrapped leaves_simple leaves_case_option leaves_case_sum leaves_case_prod leaves_if
  leaves_db_call leaves_api_call leaves_files

lemma leaves_stage_parts:
  assumes "others_undisturbed u h"
  shows "leaves_others u (stage_parts h prefix target usage ps slots)"
proof -
  have chunks: "leaves_others u (write_chunks h path usage budget chunks fb tb hs)" for path budget chunks fb tb hs
    by (induction chunks arbitrary: fb tb hs) (simp_all add: write_all_def, (intro leaves_rules assms | assumption)+)
  have "leaves_others u (stage_field h prefix target usage p slots)" for p slots
    unfolding stage_field_def stage_image_def write_image_field_def create_file_def flush_def Let_def
    by (intro leaves_rules chunks assms)
  then show ?thesis by (induction ps arbitrary: slots) (simp_all add: leaves_rules)
qed

lemma leaves_uploads:
  assumes "others_undisturbed u h"
  shows "leaves_others u (api_create_image_job h u key body)" and "leaves_others u (api_create_schedule h u body)"
proof -
  have staged: "leaves_others u (stage_request h body target)" for target
    unfolding stage_request_def stage_fields_def storage_usage_def begin_upload_def cleaned_up_def batch_cleanup_def Let_def
    by (intro leaves_rules leaves_stage_parts assms)
  show "leaves_others u (api_create_image_job h u key body)"
    unfolding api_create_image_job_def idempotent_job_def create_within_limit_def cleaned_up_def batch_cleanup_def Let_def
    by (intro leaves_rules staged others_jobs others_creation(1) assms) (rule assms | simp)+
  show "leaves_others u (api_create_schedule h u body)"
    unfolding api_create_schedule_def
    by (intro leaves_rules staged others_creation(2) assms) simp
qed

text \<open>C37. No protected route changes a job or a schedule of a user other than the session's, whether it succeeds or fails: their rows
  are the same before and after, attempts, workers and users are untouched, and artifacts and inputs of
  schedules are only added. It holds when what runs beside the handler leaves those rows alone too.\<close>
theorem clients_change_own_rows:
  assumes "others_undisturbed (as_user_id session) h"
  shows "others_kept (as_user_id session) (sv_db w) (sv_db (snd (protected_handler h q c session w)))"
proof -
  let ?u = "as_user_id session"
  note rules = leaves_rules others_jobs others_retry others_schedules others_sessions others.simple leaves_uploads assms
  have "leaves_others ?u (protected_handler h q c session)"
  proof (cases c)
    case CurrentSession
    then show ?thesis by (simp add: current_session_def) (unfold random_token_def, intro rules)
  next
    case Logout
    then show ?thesis by (simp add: logout_def) (intro rules)
  next
    case ListJobs
    then show ?thesis by (simp add: list_jobs_def) (intro rules)
  next
    case (CreateJob body)
    then show ?thesis by (simp add: create_job_def) (intro rules)
  next
    case (GetJob raw)
    then show ?thesis by (simp add: get_job_def) (intro rules)
  next
    case (CancelJob raw)
    then show ?thesis by (simp add: cancel_job_by_hand_def) (intro rules)
  next
    case (RetryJob raw)
    then show ?thesis by (simp add: retry_job_by_hand_def) (intro rules)
  next
    case ListWorkers
    then show ?thesis by (simp add: list_all_workers_def) (intro rules)
  next
    case ListSchedules
    then show ?thesis by (simp add: list_schedules_def) (intro rules)
  next
    case (CreateSchedule body)
    then show ?thesis by (simp add: create_schedule_job_def) (intro rules)
  next
    case (GetSchedule raw)
    then show ?thesis by (simp add: get_schedule_def) (intro rules)
  next
    case (UpdateSchedule raw r)
    then show ?thesis by (simp add: update_schedule_def) (intro rules)
  next
    case (DownloadArtifact raw)
    then show ?thesis by (simp add: download_artifact_def open_file_def) (intro rules)
  qed
  then show ?thesis by (simp add: leaves_others_def)
qed

section \<open>An example\<close>

definition ex_as :: "int \<Rightarrow> auth_session" where
  "ex_as u = \<lparr>as_id = 5, as_user_id = UserId u, as_username = lit ''owner'', as_csrf_token_hash = replicate 32 0,
     as_expires_at = seconds 1000\<rparr>"

lemma ex_undisturbed: "others_undisturbed u ex_host"
  by (simp add: others_undisturbed_def ex_host_def others.refl)

lemma ex_server_db: "sv_db ex_server = ex_accounts_db"
  by (simp add: ex_server_def app_with_config_def)

text \<open>The second user cannot cancel the owner's job, and the owner's five jobs stay.\<close>

theorem clients_change_own_rows_witness:
  "filter (\<lambda>j. j_owner j \<noteq> 2) (jobs (sv_db (snd (protected_handler ex_host ex_post (CancelJob (lit ''1'')) (ex_as 2) ex_server)))) =
     jobs ex_db \<and> jobs ex_db \<noteq> []"
proof -
  have "others_undisturbed (as_user_id (ex_as 2)) ex_host" by (rule ex_undisturbed)
  from clients_change_own_rows [OF this, of ex_server ex_post "CancelJob (lit ''1'')"] show ?thesis
    by (simp add: others_kept_def ex_as_def ex_server_db ex_accounts_db_def ex_db_def default_job_def)
qed

theorem clients_reach_own_rows_witness:
  "\<exists>a w. protected_handler ex_host ex_post (GetJob (lit ''1'')) (ex_as 1) ex_server = (Inr a, w) \<and>
     owns_job (UserId 1) (lit ''1'') ex_accounts_db"
proof -
  have id: "parse_job_id (lit ''1'') = Inr (JobId 1)"
    by (simp add: parse_job_id_def job_id_from_str_def parse_unsigned_def job_id_new_def i64_max_as_u64_def evaluate)
  have "case fst (get_with_owner (JobId 1) (Some (UserId 1)) ex_accounts_db) of Inr (Some _) \<Rightarrow> True | _ \<Rightarrow> False"
    by (simp add: evaluate)
  then obtain rec t where get: "get_with_owner (JobId 1) (Some (UserId 1)) ex_accounts_db = (Inr (Some rec), t)"
    by (cases "get_with_owner (JobId 1) (Some (UserId 1)) ex_accounts_db") (auto split: sum.splits option.splits)
  have db: "sv_db (disturbed ex_host ex_server) = ex_accounts_db"
    by (simp add: disturbed_def ex_server_db) (simp add: ex_host_def)
  then have "\<exists>a w. protected_handler ex_host ex_post (GetJob (lit ''1'')) (ex_as 1) ex_server = (Inr a, w)"
    by (simp add: get_job_def act_bind_def id api_call_def db_call_def act_map_err_def ex_as_def get Let_def)
  then obtain a w where run: "protected_handler ex_host ex_post (GetJob (lit ''1'')) (ex_as 1) ex_server = (Inr a, w)" by blast
  from clients_reach_own_rows [OF run] run show ?thesis by (simp add: db ex_as_def)
qed

end
