(* ===== verification/OutputProps.thy ===== *)
theory OutputProps
  imports WorkerProps Frames
begin

text \<open>
  The files behind the published outputs: when the worker has processed an image job without a renewal that
  reported its claim lost, every output that the database gained for the attempt is a stored file of the recorded
  size. A renewal that comes after the completion breaks this, by an example.
\<close>

section \<open>Calls that publish nothing\<close>

definition same_artifacts :: "db \<Rightarrow> db \<Rightarrow> bool" where
  "same_artifacts s t \<longleftrightarrow> artifacts t = artifacts s"

interpretation arts: frame_relation same_artifacts
  by unfold_locales (auto simp: same_artifacts_def dest: same_rows_fields)

lemma arts_statements [frame_rules]:
  "obeys same_artifacts (update_jobs P f)" "obeys same_artifacts (update_attempts P' f')"
  unfolding update_stmt_defs
  by (rule arts.update, simp add: same_artifacts_def set_table_defs)+

lemmas arts_rules = frame_rules arts.simple arts.bind arts.each arts.committed

lemma worker_calls_publish_nothing:
  "obeys same_artifacts (cancellation_requested now c)" "obeys same_artifacts (finish_cancelled now c dur)"
  "obeys same_artifacts (record_failure now c dur kind message)"
  "obeys same_artifacts (record_encoding_duration now c dur)" "obeys same_artifacts (update_progress now c n)"
  "obeys same_artifacts (complete now c dur)"
  unfolding cancellation_requested_def lifecycle_defs image_defs queue_defs
  by (intro arts_rules | auto split: job_status.split option.split intro!: arts_rules)+

lemma renewals_publish_nothing: "obeys same_artifacts (renew_lease_with_time now c as_of)"
  unfolding renew_lease_with_time_def Let_def
  by (intro arts_rules; rule obeys_at; intro arts_rules)

lemma renewal_ticks_artifacts: "artifacts (wd_db (renewal_ticks e c n w)) = artifacts (wd_db w)"
proof (induction n)
  case (Suc n)
  have "artifacts (wd_db (renewal_tick e c w)) = artifacts (wd_db w)" for w
    using obeysD [OF renewals_publish_nothing]
    by (auto simp: renewal_tick_def same_artifacts_def split: prod.splits sum.splits repository_error.splits) 
  with Suc show ?case by (simp add: renewal_ticks_def)
qed (simp add: renewal_ticks_def)

text \<open>A completion publishes its outputs, or nothing when it fails.\<close>

lemma completion_publishes:
  assumes "complete_image_job now c dur outputs s = (r, t)"
  shows "case r of
      Inr _ \<Rightarrow> \<exists>new. artifacts t = artifacts s @ new \<and>
        list_all2 (publishes now (uint (job_id_get (cj_job_id c))) (cj_attempt_id c)) outputs new
    | Inl e \<Rightarrow> artifacts t = artifacts s"
proof (cases r)
  case (Inl e)
  with assms show ?thesis
    by (auto simp: complete_image_job_def transaction_def tx_bind_def tx_returns
        split: claimed_work.splits if_splits sum.splits prod.splits)
next
  case (Inr x)
  with assms obtain n i ms where i: "encode_job_id (cj_job_id c) = Inr i"
    and body: "complete_image_body now c n i ms outputs s = (Inr x, t)"
    by (auto simp: complete_image_job_def tx_bind_Inr_iff tx_returns transaction_Inr_iff
        split: claimed_work.splits if_splits)
  from body obtain u as v js where
    out: "tx_for (insert_output_artifact now i (cj_attempt_id c)) outputs s = (Inr (), u)"
    and "update_attempts (attempt_held now c i) (succeed_attempt now ms) u = (Inr as, v)"
      "update_jobs (\<lambda>r. j_id r = i \<and> j_state r = Running \<and> j_type r = ImageResize)
        (succeed_job now ms (images_message n)) v = (Inr js, t)"
    by (auto simp: complete_image_body_def lock_active_claim_def complete_attempt_def
        tx_bind_Inr_iff tx_returns split: if_splits)
  then have "artifacts t = artifacts u"
    using obeysD [OF arts_statements(2)] obeysD [OF arts_statements(1)] by (simp add: same_artifacts_def)
  with publish_outputs [OF out] Inr encode_job_id_uint [OF i] show ?thesis by auto
qed

section \<open>Files and rows while the job is processed\<close>

definition job_of :: "claimed_job \<Rightarrow> u64" where
  "job_of c = job_id_get (cj_job_id c)"

definition output_of :: "claimed_job \<Rightarrow> artifact_row \<Rightarrow> bool" where
  "output_of c f \<longleftrightarrow> f_job f = uint (job_of c) \<and> f_kind f = Output"

definition spares_outputs :: "surroundings \<Rightarrow> claimed_job \<Rightarrow> bool" where
  "spares_outputs e c \<longleftrightarrow>
     (\<forall>n fs path. under (own_directory c) path \<longrightarrow> sr_files e n fs path = fs path) \<and>
     (\<forall>n s f. f \<in> set (artifacts (sr_db e n s)) \<longrightarrow> output_of c f \<longrightarrow> f \<in> set (artifacts s))"

text \<open>No output of the job has been published since the rows \<open>base\<close>.\<close>

definition unpublished :: "claimed_job \<Rightarrow> artifact_row set \<Rightarrow> world \<Rightarrow> bool" where
  "unpublished c base w \<longleftrightarrow> (\<forall>f \<in> set (artifacts (wd_db w)). output_of c f \<longrightarrow> f \<in> base)"

text \<open>The file of an output that is still to be published, and of one that has been.\<close>

definition produced :: "claimed_job \<Rightarrow> stored \<Rightarrow> pending_output_artifact \<Rightarrow> bool" where
  "produced c fs out \<longleftrightarrow>
     po_storage_key out = output_key (job_of c) (cj_attempt_id c) (po_source_artifact_id out) \<and>
     (\<exists>bytes. fs (output_path (job_of c) (cj_attempt_id c) (po_source_artifact_id out)) = Some bytes \<and>
        po_byte_size out = word_of_nat (length bytes))"

definition output_stored :: "claimed_job \<Rightarrow> stored \<Rightarrow> artifact_row \<Rightarrow> bool" where
  "output_stored c fs f \<longleftrightarrow> f_attempt f = Some (cj_attempt_id c) \<and>
     (\<exists>source bytes. f_source f = Some (uint source) \<and> f_storage_key f = output_key (job_of c) (cj_attempt_id c) source \<and>
        fs (output_path (job_of c) (cj_attempt_id c) source) = Some bytes \<and>
        f_byte_size f = int (length bytes) mod 2 ^ 64)"

definition produces :: "claimed_job \<Rightarrow> artifact_row set \<Rightarrow> pending_output_artifact list \<Rightarrow> world \<Rightarrow> bool" where
  "produces c base outs w \<longleftrightarrow> unpublished c base w \<and> (\<forall>out \<in> set outs. produced c (wd_files w) out)"

text \<open>How the processing of an image job ends: nothing published, or success with every new output stored.\<close>

definition ended :: "claimed_job \<Rightarrow> artifact_row set \<Rightarrow> repository_error + unit \<Rightarrow> world \<Rightarrow> bool" where
  "ended c base r w \<longleftrightarrow> unpublished c base w \<or>
     r = Inr () \<and> (\<forall>f \<in> set (artifacts (wd_db w)). output_of c f \<longrightarrow> f \<in> base \<or> output_stored c (wd_files w) f)"

definition leads :: "(world \<Rightarrow> bool) \<Rightarrow> 'a proc \<Rightarrow> (repository_error + 'a \<Rightarrow> world \<Rightarrow> bool) \<Rightarrow> bool" where
  "leads P m Q \<longleftrightarrow> (\<forall>w r w'. P w \<longrightarrow> m w = (r, w') \<longrightarrow> Q r w')"

lemma leadsI: "(\<And>w r w'. P w \<Longrightarrow> m w = (r, w') \<Longrightarrow> Q r w') \<Longrightarrow> leads P m Q"
  unfolding leads_def by blast

lemma leadsD: "leads P m Q \<Longrightarrow> P w \<Longrightarrow> m w = (r, w') \<Longrightarrow> Q r w'"
  unfolding leads_def by blast

lemma leads_bind:
  assumes "leads P m R" and "\<And>e w. R (Inl e) w \<Longrightarrow> Q (Inl e) w" and "\<And>x. leads (R (Inr x)) (f x) Q"
  shows "leads P (proc_bind m f) Q"
proof (rule leadsI)
  fix w r w' assume "P w" and run: "proc_bind m f w = (r, w')"
  obtain q u where m: "m w = (q, u)" by fastforce
  from leadsD [OF assms(1) \<open>P w\<close> m] have "R q u" .
  with run m assms(2) leadsD [OF assms(3)] show "Q r w'"
    by (cases q) (auto simp: proc_bind_def)
qed

lemma leads_then:
  assumes "leads P m (\<lambda>r w. \<exists>x. r = Inr x \<and> R x w)" and "\<And>x. leads (R x) (f x) Q"
  shows "leads P (proc_bind m f) Q"
  by (rule leads_bind [OF assms(1)]) (use assms(2) in \<open>simp_all add: leads_def\<close>)

lemma leads_weaken:
  "leads P m Q \<Longrightarrow> (\<And>w. P' w \<Longrightarrow> P w) \<Longrightarrow> (\<And>r w. Q r w \<Longrightarrow> Q' r w) \<Longrightarrow> leads P' m Q'"
  unfolding leads_def by blast

lemma leads_attempted: "leads P m Q \<Longrightarrow> leads P (attempted m) (\<lambda>r w. \<exists>q. r = Inr q \<and> Q q w)"
  unfolding leads_def attempted_def by (auto split: prod.splits)

lemma leads_return: "(\<And>w. P w \<Longrightarrow> Q (Inr x) w) \<Longrightarrow> leads P (proc_return x) Q"
  by (simp add: leads_def proc_return_def)

lemma leads_fail: "(\<And>w. P w \<Longrightarrow> Q (Inl e) w) \<Longrightarrow> leads P (proc_fail e) Q"
  by (simp add: leads_def proc_fail_def)

lemma leads_value: "leads P (\<lambda>w. (g w, w)) (\<lambda>_. P)"
  by (simp add: leads_def)

lemma leads_elapsed: "leads P (elapsed sr) (\<lambda>_. P)"
  by (simp add: leads_def elapsed_def)

section \<open>Steps\<close>

lemma unpublished_mono:
  "set (artifacts (wd_db w')) \<subseteq> set (artifacts (wd_db w)) \<Longrightarrow> unpublished c base w \<Longrightarrow> unpublished c base w'"
  by (auto simp: unpublished_def)

lemma produced_frame:
  assumes "produced c fs out" and "\<And>path. under (own_directory c) path \<Longrightarrow> fs' path = fs path"
  shows "produced c fs' out"
  using assms under_own_directory [of c "po_source_artifact_id out"] by (simp add: produced_def job_of_def)

lemma interference_produces:
  assumes "spares_outputs e c" and "produces c base outs w"
  shows "produces c base outs (interference e w)"
proof -
  have "produced c (wd_files (interference e w)) out" if "out \<in> set outs" for out
    by (rule produced_frame [of c "wd_files w"])
      (use assms that in \<open>simp_all add: produces_def spares_outputs_def interference_def\<close>)
  with assms show ?thesis
    by (auto simp: produces_def unpublished_def spares_outputs_def interference_def)
qed

text \<open>What a call sees, and what it leaves: only its own writes change the artifacts.\<close>

lemma call_world:
  assumes "spares_outputs e c" and "produces c base outs w" and "call e c m w = (r, w')"
  obtains v t where "produces c base outs v" and "m (sr_clock e (wd_step w)) (wd_db v) = (r, t)"
    and "artifacts (wd_db w') = artifacts t" and "wd_files w' = wd_files v"
proof -
  let ?v = "renewal_ticks e c (sr_ticks_before e (wd_step w)) (interference e w)"
  obtain q t where q: "m (sr_clock e (wd_step w)) (wd_db ?v) = (q, t)" by fastforce
  have "produces c base outs ?v"
    using interference_produces [OF assms(1,2)]
    by (simp add: produces_def unpublished_def renewal_ticks_artifacts renewal_ticks_files)
  moreover have "r = q" "artifacts (wd_db w') = artifacts t" "wd_files w' = wd_files ?v"
    using assms(3) q by (auto simp: call_def Let_def renewal_ticks_artifacts renewal_ticks_files)
  ultimately show thesis using q by (intro that) simp_all
qed

lemma leads_call:
  assumes "spares_outputs e c" and "\<And>now. obeys same_artifacts (m now)"
  shows "leads (produces c base outs) (call e c m) (\<lambda>_. produces c base outs)"
proof (rule leadsI)
  fix w r w' assume w: "produces c base outs w" and run: "call e c m w = (r, w')"
  show "produces c base outs w'"
    using assms(1) w run
  proof (rule call_world)
    fix v t assume "produces c base outs v" "m (sr_clock e (wd_step w)) (wd_db v) = (r, t)"
      "artifacts (wd_db w') = artifacts t" "wd_files w' = wd_files v"
    with obeysD [OF assms(2)] show ?thesis by (simp add: produces_def unpublished_def same_artifacts_def)
  qed
qed

lemma leads_quiet_call:
  assumes "spares_outputs e c" and "\<And>now. obeys same_artifacts (m now)"
  shows "leads (unpublished c base) (call e c m) (\<lambda>_. unpublished c base)"
  using leads_call [OF assms, of base "[]"] by (simp add: produces_def leads_def)

lemma leads_completion:
  assumes "spares_outputs e c"
  shows "leads (produces c base outs) (call e c (\<lambda>now. complete_image_job now c dur outs)) (ended c base)"
proof (rule leadsI)
  fix w r w' assume w: "produces c base outs w" and run: "call e c (\<lambda>now. complete_image_job now c dur outs) w = (r, w')"
  show "ended c base r w'"
    using assms w run
  proof (rule call_world)
    fix v t assume v: "produces c base outs v"
      and compl: "complete_image_job (sr_clock e (wd_step w)) c dur outs (wd_db v) = (r, t)"
      and w': "artifacts (wd_db w') = artifacts t" "wd_files w' = wd_files v"
    show ?thesis
    proof (cases r)
      case (Inl err)
      with completion_publishes [OF compl] v w' show ?thesis by (simp add: ended_def produces_def unpublished_def)
    next
      case (Inr x)
      with completion_publishes [OF compl] obtain now new where new: "artifacts t = artifacts (wd_db v) @ new"
        "list_all2 (publishes now (uint (job_of c)) (cj_attempt_id c)) outs new"
        by (auto simp: job_of_def)
      have "output_stored c (wd_files w') f" if "f \<in> set new" for f
      proof -
        from new(2) that obtain out where out: "out \<in> set outs" "publishes now (uint (job_of c)) (cj_attempt_id c) out f"
          by (metis in_set_conv_nth list_all2_conv_all_nth)
        with v have "produced c (wd_files v) out" by (simp add: produces_def)
        with out(2) w'(2) show ?thesis
          by (auto simp: output_stored_def produced_def publishes_def unsigned_of_nat take_bit_eq_mod zmod_int)
      qed
      with v w' new(1) Inr show ?thesis by (auto simp: ended_def produces_def unpublished_def)
    qed
  qed
qed

lemma leads_cleanup: "leads (unpublished c base) (cleanup_attempt_outputs e c) (\<lambda>_. unpublished c base)"
  by (rule leadsI) (auto simp: cleanup_attempt_outputs_def unpublished_def split: if_splits)

lemma produces_unpublished: "produces c base outs w \<Longrightarrow> unpublished c base w"
  by (simp add: produces_def)

lemma produces_Nil: "produces c base [] w \<longleftrightarrow> unpublished c base w"
  by (simp add: produces_def)

lemma leads_finish:
  assumes e: "spares_outputs e c"
  shows "leads (produces c base outs) (finish_if_cancel_requested e c)
    (\<lambda>r w. unpublished c base w \<and> (r = Inr False \<longrightarrow> produces c base outs w))"
  unfolding finish_if_cancel_requested_def
proof (rule leads_bind [OF leads_call [OF e worker_calls_publish_nothing(1)]])
  fix requested
  have rest: "leads (unpublished c base) (proc_bind (cleanup_attempt_outputs e c) (\<lambda>_. proc_bind (elapsed e) (\<lambda>dur.
      proc_bind (call e c (\<lambda>now. finish_cancelled now c dur)) (\<lambda>_. proc_return True))))
    (\<lambda>r w. unpublished c base w \<and> r \<noteq> Inr False)"
    by (rule leads_bind [OF leads_cleanup], simp, rule leads_bind [OF leads_elapsed], simp,
        rule leads_bind [OF leads_quiet_call [OF e worker_calls_publish_nothing(2)]], simp, rule leads_return, simp)
  show "leads (produces c base outs) (if \<not> requested then proc_return False
     else proc_bind (cleanup_attempt_outputs e c) (\<lambda>_. proc_bind (elapsed e) (\<lambda>dur.
          proc_bind (call e c (\<lambda>now. finish_cancelled now c dur)) (\<lambda>_. proc_return True))))
    (\<lambda>r w. unpublished c base w \<and> (r = Inr False \<longrightarrow> produces c base outs w))"
  proof (cases requested)
    case True
    have "leads (unpublished c base) (proc_bind (cleanup_attempt_outputs e c) (\<lambda>_. proc_bind (elapsed e) (\<lambda>dur.
        proc_bind (call e c (\<lambda>now. finish_cancelled now c dur)) (\<lambda>_. proc_return True))))
      (\<lambda>r w. unpublished c base w \<and> (r = Inr False \<longrightarrow> produces c base outs w))"
      by (rule leads_weaken [OF rest]) simp_all
    then have "leads (produces c base outs) (proc_bind (cleanup_attempt_outputs e c) (\<lambda>_. proc_bind (elapsed e) (\<lambda>dur.
        proc_bind (call e c (\<lambda>now. finish_cancelled now c dur)) (\<lambda>_. proc_return True))))
      (\<lambda>r w. unpublished c base w \<and> (r = Inr False \<longrightarrow> produces c base outs w))"
      by (rule leads_weaken) (simp_all add: produces_unpublished)
    with True show ?thesis by simp
  next
    case False
    then show ?thesis by (simp add: leads_return produces_unpublished)
  qed
qed (simp add: produces_unpublished)

lemma leads_quiet_finish:
  "spares_outputs e c \<Longrightarrow> leads (unpublished c base) (finish_if_cancel_requested e c) (\<lambda>_. unpublished c base)"
  by (rule leads_weaken [OF leads_finish [where outs = "[]"]]) (auto simp: produces_Nil)

lemma leads_quiet_or_cancelled:
  assumes "spares_outputs e c"
  shows "leads (unpublished c base) (or_cancelled e c r) (\<lambda>_. unpublished c base)"
  unfolding or_cancelled_def
  by (auto intro!: leads_return leads_fail leads_bind [OF leads_quiet_finish [OF assms]] split: sum.split)

lemma leads_quiet_failure:
  assumes "spares_outputs e c"
  shows "leads (unpublished c base) (record_image_failure e c kind message) (\<lambda>_. unpublished c base)"
proof -
  have recorded: "leads (unpublished c base) (attempted (call e c (\<lambda>now. record_failure now c dur kind (lit message))))
      (\<lambda>_. unpublished c base)" for dur
    by (rule leads_weaken [OF leads_attempted [OF leads_quiet_call [OF assms worker_calls_publish_nothing(3)]]]) auto
  show ?thesis
    unfolding record_image_failure_def
    by (rule leads_bind [OF leads_cleanup], assumption, rule leads_bind [OF leads_elapsed], assumption,
        rule leads_bind [OF recorded], assumption, rule leads_quiet_or_cancelled [OF assms])
qed

section \<open>Images\<close>

definition with_output ::
  "pending_output_artifact list \<Rightarrow> artifact_record \<Rightarrow> image_error + processed_image \<Rightarrow> pending_output_artifact list" where
  "with_output outs input result =
     outs @ (case result of Inl e \<Rightarrow> [] | Inr processed \<Rightarrow> [pending_output input processed])"

lemma leads_resize:
  assumes new: "art_id input \<notin> po_source_artifact_id ` set outs"
  shows "leads (produces c base outs)
    (resize e key (output_key (job_id_get (cj_job_id c)) (cj_attempt_id c) (art_id input)) m q)
    (\<lambda>r w. \<exists>result. r = Inr result \<and> produces c base (with_output outs input result) w)"
proof (rule leadsI)
  let ?out = "output_key (job_of c) (cj_attempt_id c) (art_id input)"
  fix w r w' assume w: "produces c base outs w"
    and "resize e key (output_key (job_id_get (cj_job_id c)) (cj_attempt_id c) (art_id input)) m q w = (r, w')"
  then obtain result fs where run: "resize_to_jpeg (sr_codecs e) (sr_io e) key ?out m q (wd_files w) = (result, fs)"
    and r: "r = Inr result" and w': "w' = w\<lparr>wd_files := fs\<rparr>"
    by (auto simp: resize_def job_of_def split: prod.splits)
  have "produced c fs out" if "out \<in> set outs" for out
  proof -
    have "po_source_artifact_id out \<noteq> art_id input" using new that by force
    then have "fs (output_path (job_of c) (cj_attempt_id c) (po_source_artifact_id out)) =
        wd_files w (output_path (job_of c) (cj_attempt_id c) (po_source_artifact_id out))"
      by (intro resize_files [OF run output_keys_round_trip_path]) (simp add: output_path_inj)
    with w that show ?thesis by (simp add: produces_def produced_def)
  qed
  moreover have "produced c fs (pending_output input p)" if "result = Inr p" for p
    using resize_outcome [OF run] that
    by (auto simp: produced_def pending_output_def output_keys_round_trip_path)
  ultimately show "\<exists>result. r = Inr result \<and> produces c base (with_output outs input result) w'"
    using w by (auto simp: r w' produces_def unpublished_def with_output_def split: sum.split)
qed

lemma leads_image:
  assumes e: "spares_outputs e c" and new: "art_id input \<notin> po_source_artifact_id ` set outs"
  shows "leads (produces c base outs) (process_image e c m q budget k input)
    (\<lambda>r w. unpublished c base w \<and>
       (\<forall>out. r = Inr (Some out) \<longrightarrow> po_source_artifact_id out = art_id input \<and> produces c base (outs @ [out]) w))"
    (is "leads _ _ ?Q")
proof -
  have quiet: "leads (unpublished c base) (proc_bind m' (\<lambda>_. proc_return None)) ?Q"
    if "leads (unpublished c base) m' (\<lambda>_. unpublished c base)" for m' :: "unit proc"
    by (rule leads_bind [OF that]) (auto intro: leads_return)
  note failure = leads_weaken [OF quiet [OF leads_quiet_failure [OF e]], of "produces c base _", OF produces_unpublished]
  have conflict: "leads (unpublished c base)
      (if is_state_conflict error then proc_bind (finish_if_cancel_requested e c) (\<lambda>finished.
         if finished then proc_return None else proc_fail error) else proc_fail error) ?Q" for error
    by (auto intro!: leads_return leads_fail leads_bind [OF leads_quiet_finish [OF e]])
  have progress: "leads (produces c base outs') (attempted (proc_bind
      (\<lambda>w. (ok_or (InvalidData ''image progress exceeds u32'') n, w)) (\<lambda>n. call e c (\<lambda>now. update_progress now c n))))
    (\<lambda>r w. produces c base outs' w \<and> \<not> isl r)" for outs' n
    by (rule leads_weaken [OF leads_attempted [OF leads_bind [OF leads_value _
        leads_call [OF e worker_calls_publish_nothing(5)]]]]) auto
  have answer: "leads (produces c base (outs @ [pending_output input p])) (proc_return (Some (pending_output input p))) ?Q" for p
    by (rule leads_return) (auto simp: produces_unpublished pending_output_def)
  have guarded: "leads (produces c base outs') (proc_bind (finish_if_cancel_requested e c) (\<lambda>finished.
      if finished then proc_return None else m')) ?Q"
    if "leads (produces c base outs') m' ?Q" for outs' m'
  proof (rule leads_bind [OF leads_finish [OF e]])
    fix finished
    show "leads (\<lambda>w. unpublished c base w \<and> (Inr finished = (Inr False :: repository_error + bool) \<longrightarrow> produces c base outs' w))
      (if finished then proc_return None else m') ?Q"
    proof (cases finished)
      case False
      then show ?thesis by (simp, intro leads_weaken [OF that]) simp_all
    qed (simp add: leads_return)
  qed simp
  have publish: "leads (produces c base (outs @ [pending_output input p])) (proc_bind (attempted (proc_bind
      (\<lambda>w. (ok_or (InvalidData ''image progress exceeds u32'') n, w)) (\<lambda>n. call e c (\<lambda>now. update_progress now c n))))
      (\<lambda>progress. case progress of
         Inr _ \<Rightarrow> proc_return (Some (pending_output input p))
       | Inl error \<Rightarrow> if is_state_conflict error then proc_bind (finish_if_cancel_requested e c) (\<lambda>finished.
           if finished then proc_return None else proc_fail error) else proc_fail error)) ?Q" for p n
  proof (rule leads_bind [OF progress])
    fix x
    show "leads (\<lambda>w. produces c base (outs @ [pending_output input p]) w \<and> \<not> isl (Inr x :: repository_error + (repository_error + unit)))
      (case x of Inl error \<Rightarrow> if is_state_conflict error then proc_bind (finish_if_cancel_requested e c) (\<lambda>finished.
           if finished then proc_return None else proc_fail error) else proc_fail error
       | Inr _ \<Rightarrow> proc_return (Some (pending_output input p))) ?Q"
    proof (cases x)
      case (Inl error)
      show ?thesis unfolding Inl sum.case by (rule leads_weaken [OF conflict]) (simp_all add: produces_unpublished)
    next
      case (Inr u)
      show ?thesis unfolding Inr sum.case by (rule leads_weaken [OF answer]) simp_all
    qed
  qed simp
  show ?thesis
    unfolding process_image_def
  proof (rule guarded, rule leads_then [OF leads_resize [OF new]], rule leads_bind [OF leads_elapsed], goal_cases)
    case (2 result encoding)
    show ?case
    proof (rule leads_bind [OF leads_call [OF e worker_calls_publish_nothing(4)]], goal_cases)
      case (2 u)
      show ?case
      proof (cases result)
        case (Inl error)
        show ?thesis unfolding Inl sum.case by (rule failure)
      next
        case (Inr p)
        show ?thesis
          unfolding Inr sum.case with_output_def
          by (rule leads_bind [OF leads_value]) (auto simp: produces_unpublished intro!: failure guarded publish)
      qed
    qed (simp add: produces_unpublished)
  qed (simp add: produces_unpublished)
qed

lemma leads_inputs:
  assumes e: "spares_outputs e c"
    and "distinct (List.map art_id inputs)" and "\<forall>i \<in> set inputs. art_id i \<notin> po_source_artifact_id ` set outs"
  shows "leads (produces c base outs) (process_inputs e c m q budget k inputs outs)
    (\<lambda>r w. unpublished c base w \<and> (\<forall>outs'. r = Inr (Some outs') \<longrightarrow> produces c base outs' w))"
  using assms(2,3)
proof (induction inputs arbitrary: k outs)
  case Nil
  show ?case by (simp add: leads_return produces_unpublished)
next
  case (Cons input inputs)
  let ?Q = "\<lambda>r w. unpublished c base w \<and> (\<forall>outs'. r = Inr (Some outs') \<longrightarrow> produces c base outs' w)"
  have next_input: "leads (produces c base (outs @ [out])) (process_inputs e c m q budget (k + 1) inputs (outs @ [out])) ?Q"
    if "po_source_artifact_id out = art_id input" for out
    using Cons.prems that by (intro Cons.IH) (auto simp: image_iff)
  show ?case
    unfolding process_inputs.simps
  proof (rule leads_bind [OF leads_image [OF e]])
    show "art_id input \<notin> po_source_artifact_id ` set outs" using Cons.prems(2) by simp
    fix x :: "pending_output_artifact option"
    show "leads (\<lambda>w. unpublished c base w \<and> (\<forall>out. Inr x = (Inr (Some out) :: repository_error + pending_output_artifact option) \<longrightarrow>
          po_source_artifact_id out = art_id input \<and> produces c base (outs @ [out]) w))
        (case x of None \<Rightarrow> proc_return None
         | Some out \<Rightarrow> process_inputs e c m q budget (k + 1) inputs (outs @ [out])) ?Q"
    proof (cases x)
      case (Some out)
      show ?thesis
      proof (cases "po_source_artifact_id out = art_id input")
        case True
        show ?thesis unfolding Some option.case by (rule leads_weaken [OF next_input [OF True]]) simp_all
      qed (simp add: Some leads_def)
    qed (simp add: leads_return)
  qed simp
qed

lemma ended_unpublished: "unpublished c base w \<Longrightarrow> ended c base r w"
  by (simp add: ended_def)

text \<open>A conflict reported by the last call leaves nothing published; a success leaves what it has published.\<close>

lemma leads_or_cancelled:
  assumes "spares_outputs e c"
  shows "leads (ended c base r) (or_cancelled e c r) (ended c base)"
proof (cases r)
  case (Inl err)
  have "leads (unpublished c base) (or_cancelled e c r) (ended c base)"
    by (rule leads_weaken [OF leads_quiet_or_cancelled [OF assms]]) (auto intro: ended_unpublished)
  then show ?thesis by (rule leads_weaken) (simp_all add: ended_def Inl)
qed (simp add: or_cancelled_def leads_return)

lemma leads_attempted_finish:
  assumes "spares_outputs e c" and "leads P (call e c m) (ended c base)"
  shows "leads P (proc_bind (attempted (call e c m)) (\<lambda>r. or_cancelled e c r)) (ended c base)"
  by (rule leads_then [OF leads_attempted [OF assms(2)] leads_or_cancelled [OF assms(1)]])

lemma leads_unless_cancelled:
  assumes "spares_outputs e c" and "leads (produces c base outs) m (ended c base)"
  shows "leads (produces c base outs) (proc_bind (finish_if_cancel_requested e c) (\<lambda>finished.
      if finished then proc_return () else m)) (ended c base)"
proof (rule leads_bind [OF leads_finish [OF assms(1)]])
  fix finished
  show "leads (\<lambda>w. unpublished c base w \<and> (Inr finished = (Inr False :: repository_error + bool) \<longrightarrow> produces c base outs w))
      (if finished then proc_return () else m) (ended c base)"
  proof (cases finished)
    case False
    then show ?thesis by (simp, intro leads_weaken [OF assms(2)]) simp_all
  qed (simp add: leads_return ended_unpublished)
qed (simp add: ended_unpublished)

lemma leads_processing:
  assumes e: "spares_outputs e c"
    and inputs: "\<And>m q inputs. cj_work c = WImageResize m q inputs \<Longrightarrow> distinct (List.map art_id inputs)"
  shows "leads (unpublished c base) (process_claimed_inner e c budget) (ended c base)"
proof (cases "cj_work c")
  case (WDemoDelay delay)
  have "leads (unpublished c base) (call e c (\<lambda>now. complete now c dur)) (ended c base)" for dur
    by (rule leads_weaken [OF leads_quiet_call [OF e worker_calls_publish_nothing(6)]]) (auto intro: ended_unpublished)
  note finish = leads_attempted_finish [OF e this]
  have "leads (produces c base []) (proc_bind (elapsed e) (\<lambda>dur.
      proc_bind (attempted (call e c (\<lambda>now. complete now c dur))) (\<lambda>result. or_cancelled e c result))) (ended c base)"
    by (rule leads_bind [OF leads_elapsed]) (use finish in \<open>simp_all add: produces_Nil [abs_def] ended_unpublished\<close>)
  from leads_unless_cancelled [OF e this] show ?thesis
    by (simp add: process_claimed_inner_def WDemoDelay produces_Nil [abs_def])
next
  case (WImageResize m q inputs)
  have publish: "leads (produces c base outs) (proc_bind (elapsed e) (\<lambda>dur.
      proc_bind (attempted (call e c (\<lambda>now. complete_image_job now c dur outs))) (\<lambda>result. or_cancelled e c result)))
      (ended c base)" for outs
    by (rule leads_bind [OF leads_elapsed], simp add: ended_unpublished produces_unpublished)
      (rule leads_attempted_finish [OF e leads_completion [OF e]])
  have "leads (produces c base []) (process_images e c inputs m q budget) (ended c base)"
    unfolding process_images_def
  proof (rule leads_bind [OF leads_inputs [OF e inputs [OF WImageResize]]])
    fix x :: "pending_output_artifact list option"
    show "leads (\<lambda>w. unpublished c base w \<and>
          (\<forall>outs'. Inr x = (Inr (Some outs') :: repository_error + pending_output_artifact list option) \<longrightarrow> produces c base outs' w))
        (case x of None \<Rightarrow> proc_return () | Some outs \<Rightarrow> proc_bind (finish_if_cancel_requested e c) (\<lambda>finished.
           if finished then proc_return () else proc_bind (elapsed e) (\<lambda>dur.
             proc_bind (attempted (call e c (\<lambda>now. complete_image_job now c dur outs))) (\<lambda>result. or_cancelled e c result))))
        (ended c base)"
    proof (cases x)
      case (Some outs)
      show ?thesis
        unfolding Some option.case by (rule leads_weaken [OF leads_unless_cancelled [OF e publish]]) simp_all
    qed (simp add: leads_return ended_unpublished)
  qed (simp_all add: ended_unpublished)
  then show ?thesis by (simp add: process_claimed_inner_def WImageResize produces_Nil [abs_def])
qed

lemma cleanup_keeps_lost: "wd_lost (snd (cleanup_attempt_outputs e c w)) = wd_lost w"
  by (simp add: cleanup_attempt_outputs_def)

text \<open>Without a lost claim the result is that of the processing, and only an error cleans up.\<close>

lemma renewed_result:
  assumes run: "process_with_lease_renewal e c budget w = (r, w')" and "\<not> wd_lost w'"
    and inner: "process_claimed_inner e c budget (w\<lparr>wd_lost := False\<rparr>) = (r1, w1)"
  shows "w' = w1 \<or> r1 = Inl ClaimLost \<and> wd_db w' = wd_db w1"
proof -
  have "wd_lost (snd (finish_claimed_result e c x w1)) = wd_lost w1" for x
    by (simp add: finish_claimed_result_def proc_bind_def proc_return_def cleanup_attempt_outputs_def)
  then have "\<not> wd_lost w1"
    using assms by (simp add: process_with_lease_renewal_def split: if_splits) (metis snd_conv)+
  then have "finish_claimed_result e c r1 w1 = (r, w')"
    using run inner by (simp add: process_with_lease_renewal_def)
  then show ?thesis
    by (auto simp: finish_claimed_result_def proc_bind_def proc_return_def cleanup_attempt_outputs_def split: if_splits)
qed

section \<open>The outputs of a processed job\<close>

text \<open>C29. When the worker has processed a job and no lease renewal reported its claim lost, every output of the job that
  the database has gained is a file of the storage: it belongs to this attempt, its key is that of its input's output in the
  directory of the attempt, and the file is there with the recorded size. So neither a failed or cancelled attempt nor the
  cleanup after one ever leaves a published output without its file. The rest of the system may do anything meanwhile but
  write below the directory of the attempt or publish outputs of the job.\<close>
theorem published_outputs_are_stored:
  assumes run: "process_with_lease_renewal e c budget w = (r, w')" and held: "\<not> wd_lost w'"
    and inputs: "\<forall>m q inputs. cj_work c = WImageResize m q inputs \<longrightarrow> distinct (List.map art_id inputs)"
    and files: "\<forall>n fs path. take 3 path = [lit ''outputs'', lit (''job-'' @ show_nat (unat (job_id_get (cj_job_id c)))),
           lit (''attempt-'' @ show_int (cj_attempt_id c))] \<longrightarrow> sr_files e n fs path = fs path"
    and rows: "\<forall>n s. \<forall>f \<in> set (artifacts (sr_db e n s)).
           f_job f = uint (job_id_get (cj_job_id c)) \<and> f_kind f = Output \<longrightarrow> f \<in> set (artifacts s)"
    and f: "f \<in> set (artifacts (wd_db w'))" "f \<notin> set (artifacts (wd_db w))" "f_kind f = Output"
      "f_job f = uint (job_id_get (cj_job_id c))"
  shows "f_attempt f = Some (cj_attempt_id c) \<and>
     (\<exists>source bytes. f_source f = Some (uint source) \<and>
        f_storage_key f = output_key (job_id_get (cj_job_id c)) (cj_attempt_id c) source \<and>
        wd_files w' (output_path (job_id_get (cj_job_id c)) (cj_attempt_id c) source) = Some bytes \<and>
        f_byte_size f = int (length bytes) mod 2 ^ 64)"
proof -
  let ?base = "set (artifacts (wd_db w))"
  have e: "spares_outputs e c"
    using files rows
    by (simp add: spares_outputs_def output_of_def job_of_def under_def own_directory_def numeral_3_eq_3)
  obtain r1 w1 where inner: "process_claimed_inner e c budget (w\<lparr>wd_lost := False\<rparr>) = (r1, w1)" by fastforce
  have "unpublished c ?base (w\<lparr>wd_lost := False\<rparr>)" by (simp add: unpublished_def)
  from leadsD [OF leads_processing [OF e] this inner] inputs have ended: "ended c ?base r1 w1" by blast
  have new: "output_of c f" using f(3,4) by (simp add: output_of_def job_of_def)
  then have "\<not> unpublished c ?base w'" using f(1,2) by (auto simp: unpublished_def)
  moreover have "unpublished c ?base w1 \<Longrightarrow> wd_db w' = wd_db w1 \<Longrightarrow> unpublished c ?base w'"
    by (simp add: unpublished_def)
  ultimately have "w' = w1" "output_stored c (wd_files w1) f"
    using renewed_result [OF run held inner] ended new f(1,2) by (auto simp: ended_def)
  then show ?thesis by (simp add: output_stored_def job_of_def)
qed

text \<open>The same processing without a renewal after the completion.\<close>

definition ex_punctual :: surroundings where
  "ex_punctual = ex_surroundings\<lparr>sr_ticks_after := (\<lambda>n. if n = 3 then 1 else 0)\<rparr>"

lemma ex_punctual_run:
  "\<exists>w f. process_with_lease_renewal ex_punctual ex_image_claim 10 ex_world = (Inr (), w) \<and> \<not> wd_lost w \<and>
     List.map j_state (jobs (wd_db w)) = [Succeeded] \<and> artifacts (wd_db w) = artifacts ex_image_db @ [f] \<and>
     f_kind f = Output \<and> f_job f = 2 \<and> f_id f = 10 \<and> f_byte_size f = 2"
  by (simp add: evaluate ex_punctual_def process_with_lease_renewal_def finish_claimed_result_def renewed_attempt_def)

theorem published_outputs_are_stored_witness:
  "\<exists>w f source bytes. process_with_lease_renewal ex_punctual ex_image_claim 10 ex_world = (Inr (), w) \<and>
     artifacts (wd_db w) = artifacts ex_image_db @ [f] \<and> List.map j_state (jobs (wd_db w)) = [Succeeded] \<and>
     f_storage_key f = output_key 2 1 source \<and> wd_files w (output_path 2 1 source) = Some bytes \<and>
     f_byte_size f = 2 \<and> f_byte_size f = int (length bytes) mod 2 ^ 64"
proof -
  obtain w f where run: "process_with_lease_renewal ex_punctual ex_image_claim 10 ex_world = (Inr (), w)" "\<not> wd_lost w"
    and state: "List.map j_state (jobs (wd_db w)) = [Succeeded]"
    and f: "artifacts (wd_db w) = artifacts ex_image_db @ [f]" "f_kind f = Output" "f_job f = 2" "f_id f = 10"
      "f_byte_size f = 2"
    using ex_punctual_run by (elim exE conjE)
  have ids: "job_id_get (cj_job_id ex_image_claim) = 2" "cj_attempt_id ex_image_claim = 1"
    and inputs: "\<forall>m q inputs. cj_work ex_image_claim = WImageResize m q inputs \<longrightarrow> distinct (List.map art_id inputs)"
    by (simp_all add: ex_image_claim_def ex_claim_def)
  have "f \<in> set (artifacts (wd_db w))" "f \<notin> set (artifacts (wd_db ex_world))"
    using f(1,4) by (auto simp: ex_world_def ex_image_db_def)
  from published_outputs_are_stored [OF run inputs, unfolded ids, OF _ _ this f(2)] f(3) obtain source bytes where
    "f_storage_key f = output_key 2 1 source" "wd_files w (output_path 2 1 source) = Some bytes"
      "f_byte_size f = int (length bytes) mod 2 ^ 64"
    by (auto simp: ex_punctual_def ex_surroundings_def)
  with run(1) state f(1,5) show ?thesis
    by (intro exI [of _ w] exI [of _ f] exI [of _ source] exI [of _ bytes] conjI)
qed

section \<open>A late renewal\<close>

text \<open>
  A renewal that reaches the database after the completion of the same claim finds the attempt no longer running, and
  reports the claim as lost. When the timer fires between the commit of the completion and its answer, the worker therefore
  takes the claim of a job it has just completed for lost.
\<close>

lemma late_renewal_loses:
  assumes s: "queue_inv s" "issued s c" and compl: "complete_image_job now c dur outs s = (Inr (), t)"
  shows "fst (renew_lease_with_time later c None t) = Inl ClaimLost"
proof -
  have t: "queue_inv t" by (rule keepsD [OF complete_image_job_keeps s(1) compl])
  have "closed c t" by (rule calls_close(4) [OF s(1) compl])
  then have "\<not> claim_live later c t"
    by (auto simp: claim_live_def closed_def running_def attempt_held_def list_ex_iff)
  moreover have "valid_call c CallRenew"
    using compl by (auto simp: complete_image_job_def tx_bind_Inr_iff tx_returns encode_job_id_Inr_iff i64_range_def
        split: claimed_work.splits if_splits)
  ultimately show ?thesis
    using claim_calls.stale [OF t, of c CallRenew later]
    by (auto simp: drop_result_def tx_bind_def tx_returns split: prod.splits sum.splits)
qed

lemma late_renewal_after_completion:
  assumes e: "orderly e" and s: "sound c (wd_db w)" "\<not> wd_lost w" and late: "0 < sr_ticks_after e (wd_step w)"
    and call: "call e c (\<lambda>now. complete_image_job now c dur outs) w = (Inr (), w')"
  shows "wd_lost w'"
proof -
  let ?v = "renewal_ticks e c (sr_ticks_before e (wd_step w)) (interference e w)"
  obtain t where t: "complete_image_job (sr_clock e (wd_step w)) c dur outs (wd_db ?v) = (Inr (), t)"
    and w': "wd_lost w' = wd_lost (renewal_ticks e c (sr_ticks_after e (wd_step w)) (?v\<lparr>wd_db := t\<rparr>))"
    using call by (auto simp: call_def Let_def split: prod.splits)
  have "sound c (wd_db (interference e w))"
    using e sound_trans [OF s(1)] s(1) by (auto simp: orderly_def interference_def sound_def)
  then have v: "sound c (wd_db ?v)" using renewal_ticks_sound by blast
  have first: "wd_lost (renewal_tick e c (?v\<lparr>wd_db := t\<rparr>))"
    using late_renewal_loses [OF _ _ t, of "sr_clock e (wd_step ?v)"] v
    by (auto simp: renewal_tick_def sound_def split: prod.splits)
  have stays: "wd_lost (renewal_ticks e c n x)" if "wd_lost x" for n x
    using that by (induction n) (auto simp: renewal_ticks_def renewal_tick_def)
  from late obtain n where n: "sr_ticks_after e (wd_step w) = Suc n" using gr0_conv_Suc by blast
  have "renewal_ticks e c (Suc n) (?v\<lparr>wd_db := t\<rparr>) = renewal_ticks e c n (renewal_tick e c (?v\<lparr>wd_db := t\<rparr>))"
    by (simp add: renewal_ticks_def funpow_swap1)
  then show ?thesis using stays [OF first] by (simp only: w' n)
qed

text \<open>
  The worker then reports success and deletes the outputs of the completed job: the job stays succeeded and its output
  published, but the file is gone.
\<close>

lemma late_renewal_discards_outputs:
  "\<exists>w. process_with_lease_renewal ex_surroundings ex_image_claim 10 ex_world = (Inr (), w) \<and>
     List.map j_state (jobs (wd_db w)) = [Succeeded] \<and>
     List.map f_storage_key (artifacts (wd_db w)) = [lit ''a'', output_key 2 1 1] \<and>
     resolve_key (output_key 2 1 1) = Inr (output_path 2 1 1) \<and> wd_files w (output_path 2 1 1) = None"
proof -
  obtain w where run: "process_claimed_inner ex_surroundings ex_image_claim 10 (ex_world\<lparr>wd_lost := False\<rparr>) = (Inr (), w)"
    and w: "wd_lost w" "List.map j_state (jobs (wd_db w)) = [Succeeded]"
      "List.map f_storage_key (artifacts (wd_db w)) = [lit ''a'', output_key 2 1 1]"
    using ex_run by (elim exE conjE)
  let ?files = "\<lambda>path. if under (own_directory ex_image_claim) path then None else wd_files w path"
  have "process_with_lease_renewal ex_surroundings ex_image_claim 10 ex_world = (Inr (), w\<lparr>wd_files := ?files\<rparr>)"
    using run w(1) ex_quiet(4)
    by (simp add: process_with_lease_renewal_def finish_claimed_result_def proc_bind_def proc_return_def
        cleanup_attempt_outputs_def remove_tree_def resolve_own_directory)
  moreover have "under (own_directory ex_image_claim) (output_path 2 1 1)"
    using under_own_directory [of ex_image_claim 1] by (simp add: ex_image_claim_def ex_claim_def)
  ultimately show ?thesis using w
    by (intro exI [of _ "w\<lparr>wd_files := ?files\<rparr>"]) (simp add: ex_keys(2))
qed

end
