(* ===== verification/Startup.thy ===== *)
theory Startup
  imports Auth Worker
begin

text \<open>
  How the two programs start (\<open>apps/api/src/main.rs\<close>, \<open>apps/worker/src/main.rs\<close>): the settings they read from
  the environment, the values they refuse, and the order in which they look at them. The environment maps the name of a variable to its
  value, which may fail to be Unicode. Parsing a socket address is a parameter that tells whether the address is
  a loopback address; connecting, migrating and serving are the library's.
\<close>

section \<open>Reading a variable\<close>

type_synonym environment = "string \<rightharpoonup> ustring option"

datatype var_error = NotPresent | NotUnicode

datatype io_error_kind = NotFound | InvalidInput | PermissionDenied

datatype startup_error =
  IoError io_error_kind string
| IoVarError io_error_kind var_error
| AddrParseError
| OwnerFailed owner_setup_error

definition env_var :: "environment \<Rightarrow> string \<Rightarrow> var_error + ustring" where
  "env_var env name =
     (case env name of None \<Rightarrow> Inl NotPresent | Some None \<Rightarrow> Inl NotUnicode | Some (Some value) \<Rightarrow> Inr value)"

definition var_or :: "environment \<Rightarrow> string \<Rightarrow> ustring \<Rightarrow> ustring" where
  "var_or env name value = (case env_var env name of Inl _ \<Rightarrow> value | Inr value \<Rightarrow> value)"

definition required_var :: "environment \<Rightarrow> string \<Rightarrow> string \<Rightarrow> startup_error + ustring" where
  "required_var env name message = map_err (\<lambda>_. IoError NotFound message) (env_var env name)"

definition parse_bool :: "environment \<Rightarrow> string \<Rightarrow> bool \<Rightarrow> startup_error + bool" where
  "parse_bool env name fallback =
     (case env_var env name of
        Inr value \<Rightarrow>
          if value = lit ''true'' then Inr True
          else if value = lit ''false'' then Inr False
          else Inl (IoError InvalidInput (name @ '' must be true or false''))
      | Inl NotPresent \<Rightarrow> Inr fallback
      | Inl error \<Rightarrow> Inl (IoVarError InvalidInput error))"

text \<open>\<open>parse_positive\<close> at an unsigned type of \<open>n\<close> bits, and the copies the worker has for two types.\<close>

definition parse_positive :: "environment \<Rightarrow> nat \<Rightarrow> string \<Rightarrow> nat \<Rightarrow> startup_error + nat" where
  "parse_positive env n name fallback =
     try_bind (ok_or (IoError InvalidInput (name @ '' must be a positive integer''))
                 (parse_unsigned n (var_or env name (lit (show_nat fallback))))) (\<lambda>value.
     if value = 0 then Inl (IoError InvalidInput (name @ '' must be greater than zero'')) else Inr value)"

definition parse_positive_u64 :: "environment \<Rightarrow> string \<Rightarrow> nat \<Rightarrow> startup_error + nat" where
  "parse_positive_u64 env name fallback = parse_positive env 64 name fallback"

definition parse_positive_usize :: "environment \<Rightarrow> string \<Rightarrow> nat \<Rightarrow> startup_error + nat" where
  "parse_positive_usize env name fallback = parse_positive env 64 name fallback"

definition parse_duration :: "environment \<Rightarrow> string \<Rightarrow> duration \<Rightarrow> startup_error + duration" where
  "parse_duration env name fallback =
     try_bind (ok_or (IoError InvalidInput (name @ '' must be a positive number of seconds''))
                 (parse_unsigned 64 (var_or env name (lit (show_nat (nat (as_secs fallback))))))) (\<lambda>seconds.
     if seconds = 0 then Inl (IoError InvalidInput (name @ '' must be greater than zero''))
     else Inr (from_secs seconds))"

section \<open>The API\<close>

record api_settings =
  ap_database_url :: ustring
  ap_bind_addr :: ustring
  ap_owner_username :: ustring
  ap_owner_password :: ustring
  ap_config :: app_config
  ap_storage_dir :: ustring

definition api_settings_from :: "(ustring \<Rightarrow> bool option) \<Rightarrow> environment \<Rightarrow> startup_error + api_settings" where
  "api_settings_from is_loopback env =
     (let config = app_config_default in
     try_bind (required_var env ''DATABASE_URL'' ''DATABASE_URL must be set before starting the API'') (\<lambda>database_url.
     let bind_addr = var_or env ''TASKHARBOR_BIND_ADDR'' (lit ''127.0.0.1:3000'') in
     try_bind (ok_or AddrParseError (is_loopback bind_addr)) (\<lambda>loopback.
     try_bind (parse_bool env ''TASKHARBOR_SECURE_COOKIES'' False) (\<lambda>secure_cookies.
     try_bind (parse_bool env ''TASKHARBOR_ALLOW_REMOTE'' False) (\<lambda>allow_remote.
     try_bind (if \<not> (loopback \<or> allow_remote \<and> secure_cookies)
               then Inl (IoError PermissionDenied ''a non-loopback bind requires TASKHARBOR_ALLOW_REMOTE=true and TASKHARBOR_SECURE_COOKIES=true behind HTTPS'')
               else Inr ()) (\<lambda>_.
     let owner_username = var_or env ''TASKHARBOR_OWNER_USERNAME'' (lit ''owner'') in
     try_bind (required_var env ''TASKHARBOR_OWNER_PASSWORD''
                 ''TASKHARBOR_OWNER_PASSWORD must be set before starting the API'') (\<lambda>owner_password.
     try_bind (parse_positive env 64 ''TASKHARBOR_SESSION_TTL_SECONDS''
                 (nat (as_secs (ac_session_ttl config)))) (\<lambda>ttl.
     let session_ttl = from_secs ttl in
     try_bind (if \<not> (min_session_ttl \<le> session_ttl \<and> session_ttl \<le> max_session_ttl)
               then Inl (IoError InvalidInput (''TASKHARBOR_SESSION_TTL_SECONDS must be between '' @
                      show_nat (nat (as_secs min_session_ttl)) @ '' and '' @ show_nat (nat (as_secs max_session_ttl))))
               else Inr ()) (\<lambda>_.
     try_bind (parse_positive env 64 ''TASKHARBOR_STORAGE_BUDGET_BYTES''
                 (unat (ac_storage_budget_bytes config))) (\<lambda>storage_budget_bytes.
     try_bind (parse_positive env 32 ''TASKHARBOR_MAX_ACTIVE_JOBS'' (unat (ac_max_active_jobs config))) (\<lambda>max_active_jobs.
     try_bind (parse_positive env 64 ''TASKHARBOR_LOGIN_ATTEMPTS_PER_MINUTE''
                 (ac_login_attempts_per_minute config)) (\<lambda>login_attempts.
     try_bind (parse_positive env 64 ''TASKHARBOR_UPLOADS_PER_MINUTE'' (ac_uploads_per_minute config)) (\<lambda>uploads.
     Inr \<lparr>ap_database_url = database_url, ap_bind_addr = bind_addr, ap_owner_username = owner_username,
          ap_owner_password = owner_password,
          ap_config = \<lparr>ac_session_ttl = session_ttl, ac_secure_cookies = secure_cookies,
            ac_storage_budget_bytes = of_nat storage_budget_bytes, ac_max_active_jobs = of_nat max_active_jobs,
            ac_login_attempts_per_minute = login_attempts, ac_uploads_per_minute = uploads\<rparr>,
          ap_storage_dir = var_or env ''TASKHARBOR_STORAGE_DIR'' (lit ''var/storage'')\<rparr>)))))))))))))"

text \<open>From a connected, migrated database and an initialized storage to the server.\<close>

definition start_api :: "host \<Rightarrow> api_settings \<Rightarrow> db \<Rightarrow> stored \<Rightarrow> startup_error + server" where
  "start_api h settings s storage =
     (case initialize_owner h (ap_owner_username settings) (ap_owner_password settings)
             (app_with_config s storage (ap_config settings)) of
        (Inl error, _) \<Rightarrow> Inl (OwnerFailed error)
      | (Inr _, v) \<Rightarrow> Inr (app_with_config (sv_db v) (sv_files v) (ap_config settings)))"

section \<open>The worker\<close>

record worker_settings =
  wm_database_url :: ustring
  wm_max_connections :: nat
  wm_storage_dir :: ustring
  wm_max_blocking_tasks :: nat
  wm_config :: worker_config

definition saturating_add_usize :: "nat \<Rightarrow> nat \<Rightarrow> nat" where
  "saturating_add_usize a b = min (a + b) (2 ^ 64 - 1)"

text \<open>The storage is initialized, and the database connected and migrated, between the number of connections and the number of blocking tasks.
  The name of a worker is by default the one of \<open>WorkerConfig::default\<close>, and its identifier is always that one's.\<close>

definition worker_settings_from :: "worker_config \<Rightarrow> environment \<Rightarrow> startup_error + worker_settings" where
  "worker_settings_from default_config env =
     try_bind (required_var env ''DATABASE_URL'' ''DATABASE_URL must be set before starting the worker'') (\<lambda>database_url.
     try_bind (parse_positive_usize env ''TASKHARBOR_WORKER_CONCURRENCY'' 2) (\<lambda>concurrency.
     try_bind (if saturating_add_usize concurrency 4 < 2 ^ 32 then Inr (saturating_add_usize concurrency 4)
               else Inl (IoError InvalidInput ''TASKHARBOR_WORKER_CONCURRENCY is too large'')) (\<lambda>max_connections.
     try_bind (parse_positive_usize env ''TASKHARBOR_MAX_BLOCKING_TASKS'' 2) (\<lambda>max_blocking_tasks.
     try_bind (parse_duration env ''TASKHARBOR_LEASE_SECONDS'' (from_secs 15)) (\<lambda>lease_duration.
     try_bind (parse_duration env ''TASKHARBOR_LEASE_RENEWAL_SECONDS'' (from_secs 5)) (\<lambda>lease_renewal_interval.
     try_bind (parse_duration env ''TASKHARBOR_HEARTBEAT_SECONDS'' (from_secs 2)) (\<lambda>heartbeat_interval.
     try_bind (parse_duration env ''TASKHARBOR_HEARTBEAT_TTL_SECONDS'' (from_secs 10)) (\<lambda>heartbeat_ttl.
     try_bind (parse_duration env ''TASKHARBOR_SHUTDOWN_GRACE_SECONDS'' (from_secs 30)) (\<lambda>shutdown_grace.
     try_bind (parse_duration env ''TASKHARBOR_MAINTENANCE_SECONDS'' (from_secs (60 * 60))) (\<lambda>maintenance_interval.
     try_bind (parse_duration env ''TASKHARBOR_OUTPUT_RETENTION_SECONDS'' (from_secs (7 * 24 * 60 * 60))) (\<lambda>output_retention.
     try_bind (parse_duration env ''TASKHARBOR_ORPHAN_GRACE_SECONDS'' (from_secs (60 * 60))) (\<lambda>orphan_grace.
     try_bind (parse_positive_u64 env ''TASKHARBOR_STORAGE_BUDGET_BYTES'' (1024 * 1024 * 1024)) (\<lambda>storage_budget_bytes.
     Inr \<lparr>wm_database_url = database_url, wm_max_connections = max_connections,
          wm_storage_dir = var_or env ''TASKHARBOR_STORAGE_DIR'' (lit ''var/storage''),
          wm_max_blocking_tasks = max_blocking_tasks,
          wm_config = \<lparr>wc_id = wc_id default_config,
            wc_name = var_or env ''TASKHARBOR_WORKER_NAME'' (wc_name default_config),
            wc_concurrency_limit = concurrency, wc_lease_duration = lease_duration,
            wc_lease_renewal_interval = lease_renewal_interval, wc_heartbeat_interval = heartbeat_interval,
            wc_heartbeat_ttl = heartbeat_ttl, wc_shutdown_grace = shutdown_grace,
            wc_maintenance_interval = maintenance_interval, wc_output_retention = output_retention,
            wc_orphan_grace = orphan_grace, wc_storage_budget_bytes = of_nat storage_budget_bytes\<rparr>\<rparr>)))))))))))))"

section \<open>What the settings guarantee\<close>

lemma parse_unsigned_less: "parse_unsigned n s = Some v \<Longrightarrow> v < 2 ^ n"
  by (auto simp: parse_unsigned_def Let_def split: if_splits option.splits)

lemma parse_positive_bounds: "parse_positive env n name d = Inr v \<Longrightarrow> 0 < v \<and> v < 2 ^ n"
  by (auto simp: parse_positive_def try_bind_Inr_iff dest: parse_unsigned_less split: if_splits)

lemma positive_word: "0 < v \<Longrightarrow> v < 2 ^ LENGTH('n) \<Longrightarrow> 0 < (of_nat v :: 'n::len word)"
  by (simp add: word_less_nat_alt unsigned_of_nat take_bit_nat_eq_self)

text \<open>The API listens beyond the loopback interface only with secure cookies and an explicit permission, its sessions last between five minutes
  and a week, and no limit is zero, not even after the conversion to its type.\<close>

lemma remote_bind_is_guarded:
  assumes "api_settings_from is_loopback env = Inr a"
  shows "is_loopback (ap_bind_addr a) = Some True \<or>
     ac_secure_cookies (ap_config a) \<and> parse_bool env ''TASKHARBOR_ALLOW_REMOTE'' False = Inr True"
  using assms
  unfolding api_settings_from_def Let_def try_bind_Inr_iff
  by (elim exE conjE) (auto split: if_splits)

lemma limits_are_positive:
  assumes "api_settings_from is_loopback env = Inr a"
  shows "min_session_ttl \<le> ac_session_ttl (ap_config a)" and "ac_session_ttl (ap_config a) \<le> max_session_ttl"
    and "0 < ac_storage_budget_bytes (ap_config a)" and "0 < ac_max_active_jobs (ap_config a)"
    and "0 < ac_login_attempts_per_minute (ap_config a)" and "0 < ac_uploads_per_minute (ap_config a)"
proof -
  from assms obtain ttl budget active logins uploads where
    "parse_positive env 64 ''TASKHARBOR_STORAGE_BUDGET_BYTES'' (unat (ac_storage_budget_bytes app_config_default)) = Inr budget"
    "parse_positive env 32 ''TASKHARBOR_MAX_ACTIVE_JOBS'' (unat (ac_max_active_jobs app_config_default)) = Inr active"
    "parse_positive env 64 ''TASKHARBOR_LOGIN_ATTEMPTS_PER_MINUTE'' (ac_login_attempts_per_minute app_config_default) = Inr logins"
    "parse_positive env 64 ''TASKHARBOR_UPLOADS_PER_MINUTE'' (ac_uploads_per_minute app_config_default) = Inr uploads"
    and config: "ac_session_ttl (ap_config a) = from_secs ttl" "min_session_ttl \<le> from_secs ttl" "from_secs ttl \<le> max_session_ttl"
      "ac_storage_budget_bytes (ap_config a) = of_nat budget" "ac_max_active_jobs (ap_config a) = of_nat active"
      "ac_login_attempts_per_minute (ap_config a) = logins" "ac_uploads_per_minute (ap_config a) = uploads"
    unfolding api_settings_from_def Let_def try_bind_Inr_iff
    by (elim exE conjE) (auto split: if_splits)
  note this(1-4) [THEN parse_positive_bounds]
  with config show "min_session_ttl \<le> ac_session_ttl (ap_config a)" "ac_session_ttl (ap_config a) \<le> max_session_ttl"
    "0 < ac_storage_budget_bytes (ap_config a)" "0 < ac_max_active_jobs (ap_config a)"
    "0 < ac_login_attempts_per_minute (ap_config a)" "0 < ac_uploads_per_minute (ap_config a)"
    by (simp_all add: positive_word)
qed

end
