(* ===== verification/Spec2Isabelle.thy ===== *)
theory Spec2Isabelle
  imports ScheduleProps AccountProps MaintenanceProps ImagingProps ImageProps RateLimit LifecycleProps QueueProps
    StorageProps WorkerLoopProps System BatchProps HttpProps OwnRows OutputProps Startup
begin

text \<open>
  TaskHarbor is a job service: clients upload images or create schedules through an HTTP API, jobs wait in a
  PostgreSQL queue, and workers claim them under a lease, resize the images and publish the outputs. This
  development models its Rust code (\<open>src/apps\<close>, \<open>src/crates\<close>) and the schema
  (\<open>src/migrations\<close>), with every operation that changes state, and proves what makes it correct.

  \<^bold>\<open>Parts and theories.\<close>
  \<^item> Values. \<open>Prelude\<close>: machine integers as words, signed database integers as \<open>int\<close> with ranges, points in time
    (nanoseconds as \<open>int\<close>), durations (nanoseconds as \<open>nat\<close>), strings as lists of code points, the standard library the code
    uses. \<open>Domain\<close> is the core crate (\<open>crates/core\<close>): identifiers, names, statuses, priorities.
    \<open>Utf8\<close>: the bytes of a string.
  \<^item> Database. \<open>Database\<close>: one record per table with its CHECK constraints. \<open>Transactions\<close>:
    a repository operation \<open>'a tx\<close> is a function from the database to a result and a database; statements
    check constraints, foreign keys and unique keys, and a failing transaction restores the rows but not the sequences.
    \<open>Rows\<close>: decoding of rows (\<open>postgres.rs\<close> and the other repositories).
  \<^item> Repositories (\<open>crates/adapters/src\<close>). \<open>Queue\<close> (\<open>postgres.rs\<close>), \<open>Lifecycle\<close>
    (\<open>lifecycle_repository.rs\<close>), \<open>Leases\<close> (\<open>worker_repository.rs\<close>), \<open>Images\<close>
    (\<open>image_repository.rs\<close>), \<open>Schedules\<close> (\<open>schedule_repository.rs\<close>), \<open>Accounts\<close>
    (\<open>auth_repository.rs\<close>), \<open>Maintenance\<close> (\<open>maintenance_repository.rs\<close>).
  \<^item> Files. \<open>Storage\<close> (\<open>storage.rs\<close>: keys, usage, cleanup, over a tree of files), \<open>Stored\<close>
    (the same files as a map from paths to contents, for the programs that write single files), \<open>Imaging\<close>
    (\<open>image_processing.rs\<close>).
  \<^item> Worker (\<open>apps/worker/src/lib.rs\<close>). \<open>Worker\<close>: the processing of one claimed job, with its lease renewals.
    \<open>WorkerLoop\<close>: the loop around it, with reclamation, schedules, claims, heartbeats, maintenance and shutdown.
  \<^item> API (\<open>apps/api/src\<close>). \<open>RateLimit\<close> (\<open>rate_limit.rs\<close>), \<open>Api\<close>
    (\<open>error.rs\<close>, \<open>lib.rs\<close>, and the form of a handler), \<open>Auth\<close> (\<open>auth.rs\<close>), \<open>Upload\<close>
    (\<open>upload.rs\<close>), \<open>Responses\<close> and \<open>Http\<close> (\<open>http.rs\<close>). \<open>Startup\<close>: the settings
    both \<open>main.rs\<close> read and refuse.

  \<^bold>\<open>State and interaction.\<close> The state is the record \<open>db\<close> (the tables as lists of rows, and the sequences),
  the stored files, the two rate limiters of the API and the tasks of a worker. The database clock, fresh identifiers and the rows
  other transactions hold locked are arguments of an operation. The worker and the handlers of the API are sequences of steps over this state;
  before each call to the database the rest of the system may change it, by an arbitrary function in the record of the
  environment (\<open>surroundings\<close> and \<open>scene\<close> for the worker, \<open>host\<close> for the API). What properties need of
  that interference is a hypothesis of theirs. Errors are values: \<open>Inl\<close> an error, \<open>Inr\<close> a result.

  \<^bold>\<open>What is shown.\<close>
  \<^item> Invariants. \<open>QueueInv\<close>, \<open>ScheduleInv\<close>, \<open>Accounts\<close>, \<open>Readable\<close>: every
    operation keeps the invariants of jobs with their attempts, of schedules, of accounts, and of artifacts.
    \<open>History\<close>: no operation takes back a finished job or a closed attempt. \<open>Frames\<close>: what each operation leaves alone.
  \<^item> The whole repository. \<open>System\<close> is a transition system whose steps are the operations, in any order; the invariants hold in
    every reachable state, the statuses refine the abstract machine of \<open>Statuses\<close>, and stored jobs can be read.
  \<^item> Fencing. \<open>Fencing\<close>, \<open>QueueProps\<close>: a call under a claim that is no longer live changes nothing; of all claims
    of a job at most one can act; which job is claimed, and that a claim succeeds when one is due.
  \<^item> Decisions. \<open>LifecycleProps\<close>, \<open>ImageProps\<close>, \<open>ScheduleProps\<close> with \<open>Cursor\<close>,
    \<open>AccountProps\<close>, \<open>MaintenanceProps\<close>: what failure, cancellation, retry, reclamation, completion, the
    scheduler, sessions and retention decide and write.
  \<^item> Files. \<open>StorageProps\<close>, \<open>ImagingProps\<close>, \<open>WorkerProps\<close>, \<open>WorkerLoopProps\<close>, \<open>OutputProps\<close>:
    keys stay below the root, the cleanup is exact and spares what is in use, a worker writes its own output directory only, a failed
    resize leaves no output unless removing it fails as well, and a published output is a stored file, unless a lease renewal
    came after the completion.
  \<^item> API. \<open>AuthProps\<close>, \<open>HttpProps\<close>: admission, login. \<open>OwnRows\<close>: a client reads and changes its own rows only.
    \<open>UploadProps\<close>, \<open>BatchProps\<close>: fingerprints, accepted and refused uploads. \<open>RateLimit\<close>: the limit in every
    window, shortened by the longest wait for the mutex, since a request reads the clock before it takes it.

  \<^bold>\<open>Interfaces.\<close> The locales \<open>tx_invariant\<close> and \<open>frame_relation\<close> of \<open>Transactions\<close> state when a
  property of databases, or of the database before and after, passes through statements, sequences and transactions; each invariant and each frame
  is an interpretation. The locale of \<open>Fencing\<close> is the contract between the worker and the operations it calls under
  a claim, interpreted on those operations. \<open>Example\<close> and \<open>ApiExample\<close> are the states on which witnesses evaluate.

  \<^bold>\<open>Termination.\<close> Operations are total. The loops that wait (the worker's loop and its draining, the lease renewals while a
  job is processed) consume the list of events of the environment and end with it; the loop that reclaims expired attempts
  is \<open>partial_function (option)\<close>, and a property states that it ends. No model uses fuel.

  \<^bold>\<open>Parameters.\<close> Code outside the repository is a parameter of the definitions that use it: the codecs and
  scaling of the image library, SHA-256, Argon2, the parser of RFC 3339, the parsing of a socket address, the answers of
  the file system. No property assumes more of them than its statement says; in particular digests are not assumed free of collisions.

  \<^bold>\<open>Not modelled.\<close>
  \<^item> Connecting, migrating, pools and reconnection, and thereby a commit whose outcome the client does not learn. The schema is the one after the last
    migration; the updates of old rows by the migrations are not modelled.
  \<^item> Statements of one transaction run without interference, as the row locks the code takes make them; reads of several tables outside a transaction
    see one snapshot. Times are not rounded to the microseconds PostgreSQL stores, and the interval arithmetic does not overflow.
  \<^item> Directories as such: the state of the storage is its files. A write is in the file when it returns.
  \<^item> HTTP itself: matching a path and a method to a route, extracting parameters, parsing JSON and multipart bodies, body limits, serialisation.
    A request comes with its endpoint, a multipart body as the list of its parts and chunks.
  \<^item> Logging, the blocking tasks and the mutexes, which only delay (for the rate limiter the delay is part of the property), and the choice among ready branches of a \<open>select!\<close>, which is the environment's. The
    tasks a worker runs beside its loop are part of the interference.
  \<^item> The web client, scripts, deployment and tests.
\<close>

end
